(* ===== verification/Go_Prelude.thy ===== *)
theory Go_Prelude
  imports Main "HOL-Library.Word" "HOL-Library.Signed_Division"
begin

text \<open>
  What the components share: names for Go's integer types, Go's panics and the world-passing
  programs that may panic, \<^verbatim>\<open>defer\<close>, wrap-around on signed integers, byte orders, and the
  decimal conversions of \<^verbatim>\<open>strconv\<close> and \<^verbatim>\<open>fmt\<close>. The lemmas are generic; the ones that
  carry the component proofs are simp rules or sit in the collections \<open>io_simps\<close> (running a
  program), \<open>sim_rules\<close> (simulating one program by another) and \<open>byte_simps\<close>.
\<close>

unbundle bit_operations_syntax

named_theorems io_simps \<open>equations that run a program on a state\<close>
named_theorems sim_rules \<open>introduction rules that relate two programs\<close>
named_theorems byte_simps \<open>splitting words into bytes and back\<close>

section \<open>Types\<close>

type_synonym u8 = "8 word"
type_synonym u16 = "16 word"
type_synonym u32 = "32 word"
type_synonym u64 = "64 word"

text \<open>Go's \<^verbatim>\<open>uintptr\<close>; the addresses the program uses are below \<open>2 ^ 32\<close>.\<close>

type_synonym uintptr = "64 word"

text \<open>
  The ways a call does not return normally: \<^verbatim>\<open>log.Panic\<close>, a run-time error, the process
  exit of \<^verbatim>\<open>log.Fatal\<close>, and \<open>NoReturn\<close> for a loop that has not ended within its fuel.
\<close>

datatype panic =
    LogPanic string
  | LogFatal string
  | IndexPanic
  | SlicePanic
  | DividePanic
  | SegFault
  | NoReturn

text \<open>A program over the world \<open>'s\<close>: it ends with a panic or a value, in a new world.\<close>

type_synonym ('s, 'a) io = "'s \<Rightarrow> (panic + 'a) \<times> 's"

section \<open>Programs\<close>

definition ret :: "'a \<Rightarrow> ('s, 'a) io" where
  "ret x s = (Inr x, s)"

definition raise :: "panic \<Rightarrow> ('s, 'a) io" where
  "raise p s = (Inl p, s)"

definition bnd :: "('s, 'a) io \<Rightarrow> ('a \<Rightarrow> ('s, 'b) io) \<Rightarrow> ('s, 'b) io" where
  "bnd m f s = (case m s of (Inl p, s') \<Rightarrow> (Inl p, s') | (Inr x, s') \<Rightarrow> f x s')"

definition thn :: "('s, 'a) io \<Rightarrow> ('s, 'b) io \<Rightarrow> ('s, 'b) io" where
  "thn m n = bnd m (\<lambda>_. n)"

text \<open>
  Whether the deferred calls of the goroutine run: they do on a normal return and while a panic
  unwinds, and they do not when the process exits or the call has not returned.
\<close>

fun unwinds :: "panic \<Rightarrow> bool" where
  "unwinds (LogFatal _) = False"
| "unwinds NoReturn = False"
| "unwinds _ = True"

definition deferring :: "('s, unit) io \<Rightarrow> ('s, 'a) io \<Rightarrow> ('s, 'a) io" where
  "deferring d m s =
     (case m s of (r, s') \<Rightarrow>
        if (case r of Inl p \<Rightarrow> unwinds p | Inr _ \<Rightarrow> True)
        then (case d s' of (Inl p, s'') \<Rightarrow> (Inl p, s'') | (Inr _, s'') \<Rightarrow> (r, s''))
        else (r, s'))"

text \<open>Running one program for each element of a list, collecting the results.\<close>

fun mapM :: "('x \<Rightarrow> ('s, 'a) io) \<Rightarrow> 'x list \<Rightarrow> ('s, 'a list) io" where
  "mapM f [] = ret []"
| "mapM f (x # xs) = bnd (f x) (\<lambda>y. bnd (mapM f xs) (\<lambda>ys. ret (y # ys)))"

fun forM :: "('x \<Rightarrow> ('s, unit) io) \<Rightarrow> 'x list \<Rightarrow> ('s, unit) io" where
  "forM f [] = ret ()"
| "forM f (x # xs) = thn (f x) (forM f xs)"

section \<open>Signed integers\<close>

text \<open>The value a \<open>w\<close>-bit two's complement integer keeps of \<open>x\<close>.\<close>

definition wrap :: "nat \<Rightarrow> int \<Rightarrow> int" where
  "wrap w x = signed_take_bit (w - 1) x"

section \<open>Bytes\<close>

definition le32 :: "u32 \<Rightarrow> u8 list" where
  "le32 v = [ucast v, ucast (drop_bit 8 v), ucast (drop_bit 16 v), ucast (drop_bit 24 v)]"

definition be32 :: "u32 \<Rightarrow> u8 list" where
  "be32 v = rev (le32 v)"

fun of_le32 :: "u8 list \<Rightarrow> u32" where
  "of_le32 [a, b, c, d] =
     ucast a OR push_bit 8 (ucast b) OR push_bit 16 (ucast c) OR push_bit 24 (ucast d)"
| "of_le32 _ = 0"

section \<open>Decimal numbers\<close>

definition digit_char :: "nat \<Rightarrow> char" where
  "digit_char d = char_of (48 + d)"

definition char_digit :: "char \<Rightarrow> nat option" where
  "char_digit c = (let n = of_char c :: nat in if 48 \<le> n \<and> n < 58 then Some (n - 48) else None)"

text \<open>\<^verbatim>\<open>fmt\<close>'s \<^verbatim>\<open>%d\<close> on a natural number.\<close>

fun show_nat :: "nat \<Rightarrow> string" where
  "show_nat n = (if n < 10 then [digit_char n] else show_nat (n div 10) @ [digit_char (n mod 10)])"

declare show_nat.simps [simp del]

fun parse_digits :: "nat \<Rightarrow> string \<Rightarrow> nat option" where
  "parse_digits acc [] = Some acc"
| "parse_digits acc (c # cs) =
     (case char_digit c of None \<Rightarrow> None | Some d \<Rightarrow> parse_digits (acc * 10 + d) cs)"

text \<open>\<^verbatim>\<open>strconv.ParseUint(s, 10, bits)\<close>: a syntax or a range error is \<open>None\<close>.\<close>

definition ParseUint :: "nat \<Rightarrow> string \<Rightarrow> nat option" where
  "ParseUint bits s =
     (if s = [] then None
      else case parse_digits 0 s of
             None \<Rightarrow> None
           | Some n \<Rightarrow> if n < 2 ^ bits then Some n else None)"

section \<open>Lemmas on programs\<close>

lemma ret_run [io_simps]: "ret x s = (Inr x, s)"
  by (simp add: ret_def)

lemma raise_run [io_simps]: "raise p s = (Inl p, s)"
  by (simp add: raise_def)

lemma bnd_run [io_simps]:
  "m s = (Inr x, s') \<Longrightarrow> bnd m f s = f x s'"
  "m s = (Inl p, s') \<Longrightarrow> bnd m f s = (Inl p, s')"
  by (simp_all add: bnd_def)

lemma thn_run [io_simps]:
  "m s = (Inr x, s') \<Longrightarrow> thn m n s = n s'"
  "m s = (Inl p, s') \<Longrightarrow> thn m n s = (Inl p, s')"
  by (simp_all add: thn_def bnd_def)

lemma deferring_run [io_simps]:
  "m s = (Inr x, s') \<Longrightarrow> d s' = (Inr u, s'') \<Longrightarrow> deferring d m s = (Inr x, s'')"
  "m s = (Inl p, s') \<Longrightarrow> unwinds p \<Longrightarrow> d s' = (Inr u, s'') \<Longrightarrow> deferring d m s = (Inl p, s'')"
  "m s = (Inl p, s') \<Longrightarrow> \<not> unwinds p \<Longrightarrow> deferring d m s = (Inl p, s')"
  by (simp_all add: deferring_def)

lemma bnd_ret [simp]: "bnd (ret x) f = f x"
  by (rule ext) (simp add: bnd_def ret_def)

lemma bnd_raise [simp]: "bnd (raise p) f = raise p"
  by (rule ext) (simp add: bnd_def raise_def)

lemma bnd_assoc: "bnd (bnd m f) g = bnd m (\<lambda>x. bnd (f x) g)"
  by (rule ext) (simp add: bnd_def split: prod.split sum.split)

lemma thn_ret [simp]: "thn (ret x) n = n"
  by (simp add: thn_def)

lemma thn_raise [simp]: "thn (raise p) n = raise p"
  by (simp add: thn_def)

lemma bnd_right_ret [simp]: "bnd m ret = m"
  by (rule ext) (simp add: bnd_def ret_def split: prod.split sum.split)

lemma thn_ret_unit [simp]: "thn m (ret ()) = m"
  by (rule ext) (simp add: thn_def bnd_def ret_def split: prod.split sum.split)

lemma bnd_thn: "bnd (thn m n) f = thn m (bnd n f)"
  by (simp add: thn_def bnd_assoc)

lemma thn_bnd: "thn (bnd m f) n = bnd m (\<lambda>x. thn (f x) n)"
  by (simp add: thn_def bnd_assoc)

lemma thn_assoc: "thn (thn m n) k = thn m (thn n k)"
  by (simp add: thn_def bnd_assoc)

lemmas io_assoc = bnd_assoc bnd_thn thn_bnd thn_assoc

lemma mapM_append:
  "mapM f (xs @ ys) = bnd (mapM f xs) (\<lambda>as. bnd (mapM f ys) (\<lambda>bs. ret (as @ bs)))"
  by (induction xs) (simp_all add: bnd_assoc)

lemma forM_append: "forM f (xs @ ys) = thn (forM f xs) (forM f ys)"
  by (induction xs) (simp_all add: thn_assoc)

section \<open>Simulation of programs\<close>

text \<open>
  \<open>sim I av m n\<close>: from a state that satisfies \<open>I\<close>, the program \<open>m\<close> ends as \<open>n\<close> does on the
  abstracted state, in a state that abstracts to the one \<open>n\<close> ends in and satisfies \<open>I\<close>.
\<close>

definition sim :: "('s \<Rightarrow> bool) \<Rightarrow> ('s \<Rightarrow> 't) \<Rightarrow> ('s, 'a) io \<Rightarrow> ('t, 'a) io \<Rightarrow> bool" where
  "sim I av m n \<longleftrightarrow>
     (\<forall>s. I s \<longrightarrow> fst (m s) = fst (n (av s)) \<and> av (snd (m s)) = snd (n (av s)) \<and> I (snd (m s)))"

lemma simI:
  assumes "\<And>s. I s \<Longrightarrow> \<exists>s'. m s = (fst (n (av s)), s') \<and> av s' = snd (n (av s)) \<and> I s'"
  shows "sim I av m n"
  using assms by (fastforce simp: sim_def)

lemma simD:
  assumes "sim I av m n" "I s"
  shows "fst (m s) = fst (n (av s))" "av (snd (m s)) = snd (n (av s))" "I (snd (m s))"
  using assms by (auto simp: sim_def)

lemma sim_ret [sim_rules]: "sim I av (ret x) (ret x)"
  by (simp add: sim_def ret_def)

lemma sim_raise [sim_rules]: "sim I av (raise p) (raise p)"
  by (simp add: sim_def raise_def)

lemma sim_bnd [sim_rules]:
  assumes m: "sim I av m n" and f: "\<And>x. sim I av (f x) (g x)"
  shows "sim I av (bnd m f) (bnd n g)"
proof (rule simI)
  fix s assume s: "I s"
  obtain r s' where ms: "m s = (r, s')" by fastforce
  from simD [OF m s] ms have n: "n (av s) = (r, av s')" and s': "I s'"
    by (simp_all add: prod_eq_iff)
  show "\<exists>t. bnd m f s = (fst (bnd n g (av s)), t) \<and> av t = snd (bnd n g (av s)) \<and> I t"
  proof (cases r)
    case (Inl p)
    with ms n s' show ?thesis by (simp add: bnd_def)
  next
    case (Inr x)
    with ms n simD [OF f s', of x] show ?thesis
      by (cases "f x s'"; cases "g x (av s')") (simp add: bnd_def)
  qed
qed

lemma sim_thn [sim_rules]:
  "sim I av m n \<Longrightarrow> sim I av m' n' \<Longrightarrow> sim I av (thn m m') (thn n n')"
  unfolding thn_def by (rule sim_bnd)

lemma sim_deferring [sim_rules]:
  assumes d: "sim I av d e" and m: "sim I av m n"
  shows "sim I av (deferring d m) (deferring e n)"
proof (rule simI)
  fix s assume s: "I s"
  obtain r s' where ms: "m s = (r, s')" by fastforce
  from simD [OF m s] ms have n: "n (av s) = (r, av s')" and s': "I s'"
    by (simp_all add: prod_eq_iff)
  obtain q s'' where ds: "d s' = (q, s'')" by fastforce
  from simD [OF d s'] ds have e: "e (av s') = (q, av s'')" and s'': "I s''"
    by (simp_all add: prod_eq_iff)
  show "\<exists>t. deferring d m s = (fst (deferring e n (av s)), t) \<and>
            av t = snd (deferring e n (av s)) \<and> I t"
    using ms n s' ds e s'' by (cases r; cases q) (auto simp: deferring_def)
qed

lemma sim_if [sim_rules]:
  "(b \<Longrightarrow> sim I av m n) \<Longrightarrow> (\<not> b \<Longrightarrow> sim I av m' n') \<Longrightarrow>
   sim I av (if b then m else m') (if b then n else n')"
  by simp

lemma sim_mapM [sim_rules]:
  "(\<And>x. x \<in> set xs \<Longrightarrow> sim I av (f x) (g x)) \<Longrightarrow> sim I av (mapM f xs) (mapM g xs)"
  by (induction xs) (auto intro!: sim_rules)

lemma sim_forM [sim_rules]:
  "(\<And>x. x \<in> set xs \<Longrightarrow> sim I av (f x) (g x)) \<Longrightarrow> sim I av (forM f xs) (forM g xs)"
  by (induction xs) (auto intro!: sim_rules)

section \<open>Lemmas on integers and bytes\<close>

lemma wrap_id:
  assumes "- (2 ^ (w - 1)) \<le> x" "x < 2 ^ (w - 1)"
  shows "wrap w x = x"
  using assms by (simp add: wrap_def signed_take_bit_int_eq_self)

lemma wrap_over:
  assumes "0 < w" "2 ^ (w - 1) \<le> x" "x < 2 ^ w"
  shows "wrap w x = x - 2 ^ w"
proof -
  obtain n where w: "w = Suc n" using assms(1) by (cases w) auto
  have "(x + 2 ^ n) mod (2 * 2 ^ n) = (x - 2 ^ n + 2 * 2 ^ n) mod (2 * 2 ^ n)" by (simp add: add.commute)
  also have "\<dots> = x - 2 ^ n"
    using assms by (simp only: mod_add_self2) (simp add: w mod_pos_pos_trivial)
  finally have "(x + 2 ^ n) mod (2 * 2 ^ n) = x - 2 ^ n" .
  then show ?thesis
    by (simp add: w wrap_def signed_take_bit_eq_take_bit_shift take_bit_eq_mod)
qed

lemma wrap_range: "- (2 ^ (w - 1)) \<le> wrap w x \<and> wrap w x < 2 ^ (w - 1)"
  by (simp add: wrap_def signed_take_bit_int_greater_eq_minus_exp signed_take_bit_int_less_exp)

lemma bit_ff: "bit (0xff :: 'a :: len word) n \<longleftrightarrow> n < 8 \<and> n < LENGTH('a)"
proof -
  have "(0xff :: 'a word) = mask 8" by (simp add: mask_eq_exp_minus_1)
  then show ?thesis by (simp only: bit_mask_iff) auto
qed

lemma ucast_and_ff [simp, byte_simps]: "(ucast (x AND 0xff) :: u8) = ucast (x :: 'a :: len word)"
proof -
  have "x AND 0xff = take_bit 8 x" by (simp add: take_bit_eq_mask mask_eq_exp_minus_1)
  then show ?thesis by (intro bit_word_eqI) (simp add: bit_simps)
qed

lemma u8_and_ff [simp, byte_simps]: "(x :: u8) AND 0xff = x"
proof -
  have "(0xff :: u8) = - 1" by simp
  then show ?thesis by (simp only: and.right_neutral)
qed

lemma length_le32 [simp]: "length (le32 v) = 4"
  by (simp add: le32_def)

lemma of_le32_le32 [simp, byte_simps]: "of_le32 (le32 v) = v"
proof (rule bit_word_eqI)
  fix n assume "n < LENGTH(32)"
  then show "bit (of_le32 (le32 v)) n = bit v n"
    by (cases "n < 8"; cases "n < 16"; cases "n < 24") (auto simp: le32_def bit_simps)
qed

lemma u8_bit_high [simp]: "8 \<le> n \<Longrightarrow> \<not> bit (a :: u8) n"
  using bit_imp_le_length [of a n] by auto

lemma le32_of_le32 [byte_simps]: "le32 (of_le32 [a, b, c, d]) = [a, b, c, d]"
  by (auto simp: le32_def bit_simps intro!: bit_word_eqI)

section \<open>Lemmas on decimal numbers\<close>

lemma char_digit_digit_char [simp]: "d < 10 \<Longrightarrow> char_digit (digit_char d) = Some d"
  by (simp add: char_digit_def digit_char_def)

lemma show_nat_small [simp]: "n < 10 \<Longrightarrow> show_nat n = [digit_char n]"
  by (simp add: show_nat.simps)

lemma show_nat_nonempty [simp]: "show_nat n \<noteq> []"
  by (subst show_nat.simps) simp

lemma parse_digits_append:
  "parse_digits acc (xs @ ys) =
     (case parse_digits acc xs of None \<Rightarrow> None | Some a \<Rightarrow> parse_digits a ys)"
  by (induction acc xs rule: parse_digits.induct) (auto split: option.splits)

lemma parse_digits_show: "parse_digits 0 (show_nat n) = Some n"
proof (induction n rule: show_nat.induct)
  case (1 n)
  show ?case
  proof (cases "n < 10")
    case True
    then show ?thesis by simp
  next
    case False
    with "1.IH" show ?thesis
      by (subst show_nat.simps) (simp add: parse_digits_append)
  qed
qed

lemma ParseUint_show: "n < 2 ^ bits \<Longrightarrow> ParseUint bits (show_nat n) = Some n"
  by (simp add: ParseUint_def parse_digits_show)

end
