(* ===== verification/Mem.thy ===== *)
theory Mem
  imports Go_Prelude
begin

text \<open>
  The memory interface of the ASPEED library (\<^verbatim>\<open>pkg/aspeed/mem.go\<close>, \<^verbatim>\<open>ast.go\<close>): the provider
  record, the handle \<open>Ast\<close> that the register operations take, and two contracts as locales.
  \<open>mem_contract\<close> is what an implementation of the interface promises (each call does what the
  bus it stands for would do); \<open>register_bus\<close> is a bus whose words at the addresses \<open>plain\<close> behave
  as registers that keep what is written. A byte-addressed memory is the bus that \<open>/dev/mem\<close> gives.
\<close>

unbundle bit_operations_syntax

section \<open>The provider interface\<close>

record 's memProvider =
  MustRead32 :: "uintptr \<Rightarrow> ('s, u32) io"
  MustRead8 :: "uintptr \<Rightarrow> ('s, u8) io"
  MustWrite32 :: "uintptr \<Rightarrow> u32 \<Rightarrow> ('s, unit) io"
  MustWrite8 :: "uintptr \<Rightarrow> u8 \<Rightarrow> ('s, unit) io"
  CloseMem :: "('s, unit) io"

record 's Ast =
  ast_mem :: "'s memProvider"

definition Mem :: "'s Ast \<Rightarrow> 's memProvider" where
  "Mem a = ast_mem a"

definition OpenWithMemory :: "'s memProvider \<Rightarrow> 's Ast" where
  "OpenWithMemory m = \<lparr>ast_mem = m\<rparr>"

definition Close :: "'s Ast \<Rightarrow> ('s, unit) io" where
  "Close a = CloseMem (ast_mem a)"

section \<open>Byte-addressed memory\<close>

type_synonym bytes = "uintptr \<Rightarrow> u8"

definition ram_read32 :: "bytes \<Rightarrow> uintptr \<Rightarrow> u32" where
  "ram_read32 m a = of_le32 (map (\<lambda>i. m (a + of_nat i)) [0..<4])"

definition ram_write32 :: "bytes \<Rightarrow> uintptr \<Rightarrow> u32 \<Rightarrow> bytes" where
  "ram_write32 m a v = (\<lambda>x. if x - a < 4 then le32 v ! unat (x - a) else m x)"

text \<open>A bus is its four accesses, none of which fails; \<open>ahb_provider\<close> is direct access to it.\<close>

record 'b ahb =
  ahb_read32 :: "uintptr \<Rightarrow> 'b \<Rightarrow> u32 \<times> 'b"
  ahb_read8 :: "uintptr \<Rightarrow> 'b \<Rightarrow> u8 \<times> 'b"
  ahb_write32 :: "uintptr \<Rightarrow> u32 \<Rightarrow> 'b \<Rightarrow> 'b"
  ahb_write8 :: "uintptr \<Rightarrow> u8 \<Rightarrow> 'b \<Rightarrow> 'b"

definition ahb_provider :: "'b ahb \<Rightarrow> 'b memProvider" where
  "ahb_provider b =
     \<lparr>MustRead32 = (\<lambda>a s. case ahb_read32 b a s of (v, s') \<Rightarrow> (Inr v, s')),
      MustRead8 = (\<lambda>a s. case ahb_read8 b a s of (v, s') \<Rightarrow> (Inr v, s')),
      MustWrite32 = (\<lambda>a v s. (Inr (), ahb_write32 b a v s)),
      MustWrite8 = (\<lambda>a v s. (Inr (), ahb_write8 b a v s)),
      CloseMem = ret ()\<rparr>"

definition ram_ahb :: "bytes ahb" where
  "ram_ahb =
     \<lparr>ahb_read32 = (\<lambda>a m. (ram_read32 m a, m)), ahb_read8 = (\<lambda>a m. (m a, m)),
      ahb_write32 = (\<lambda>a v m. ram_write32 m a v), ahb_write8 = (\<lambda>a v m. m(a := v))\<rparr>"

definition ram_provider :: "bytes memProvider" where
  "ram_provider = ahb_provider ram_ahb"

text \<open>The addresses of the SoC's registers: below 4 GiB and word aligned.\<close>

definition soc_addr :: "uintptr \<Rightarrow> bool" where
  "soc_addr a \<longleftrightarrow> unat a < 2 ^ 32 \<and> unat a mod 4 = 0"

section \<open>What an implementation of the interface promises\<close>

locale mem_contract =
  fixes P :: "'s memProvider"
    and inv :: "'s \<Rightarrow> bool"
    and bus :: "'s \<Rightarrow> 'b"
    and B :: "'b memProvider"
  assumes sim_read32: "soc_addr a \<Longrightarrow> sim inv bus (MustRead32 P a) (MustRead32 B a)"
    and sim_read8: "soc_addr a \<Longrightarrow> sim inv bus (MustRead8 P a) (MustRead8 B a)"
    and sim_write32: "soc_addr a \<Longrightarrow> sim inv bus (MustWrite32 P a v) (MustWrite32 B a v)"
    and sim_write8: "soc_addr a \<Longrightarrow> sim inv bus (MustWrite8 P a b) (MustWrite8 B a b)"
begin

lemmas sim_calls = sim_read32 sim_read8 sim_write32 sim_write8

end

section \<open>A bus of registers\<close>

locale register_bus =
  fixes B :: "'b memProvider"
    and plain :: "uintptr \<Rightarrow> bool"
    and reg :: "'b \<Rightarrow> uintptr \<Rightarrow> u32"
    and setreg :: "'b \<Rightarrow> uintptr \<Rightarrow> u32 \<Rightarrow> 'b"
  assumes read_reg: "plain a \<Longrightarrow> MustRead32 B a s = (Inr (reg s a), s)"
    and write_reg: "plain a \<Longrightarrow> MustWrite32 B a v s = (Inr (), setreg s a v)"
    and reg_setreg: "plain a \<Longrightarrow> plain b \<Longrightarrow>
          reg (setreg s a v) b = (if b = a then v else reg s b)"

section \<open>Byte-addressed memory is a bus of registers\<close>

lemma unat_add_small: "unat (a :: uintptr) < 2 ^ 32 \<Longrightarrow> i < 4 \<Longrightarrow> unat (a + of_nat i) = unat a + i"
  by (simp add: unat_word_ariths unat_of_nat take_bit_eq_mod)

lemma aligned_apart:
  assumes "soc_addr a" "soc_addr b" "i < 4" "j < 4" "a + of_nat i = b + of_nat j"
  shows "a = b \<and> i = j"
proof -
  have "unat a + i = unat b + j"
    using assms unat_add_small [of a i] unat_add_small [of b j] by (simp add: soc_addr_def)
  moreover have "unat a mod 4 = 0" "unat b mod 4 = 0"
    using assms by (simp_all add: soc_addr_def)
  ultimately have "unat a = unat b" "i = j"
    using assms by presburger+
  then show ?thesis by (simp add: word_unat_eq_iff)
qed

lemma ram_write32_at:
  assumes "soc_addr a" "soc_addr b" "i < 4"
  shows "ram_write32 m a v (b + of_nat i) = (if b = a then le32 v ! i else m (b + of_nat i))"
proof (cases "b = a")
  case True
  with assms show ?thesis
    by (simp add: ram_write32_def unat_of_nat take_bit_eq_mod word_less_nat_alt)
next
  case False
  have "\<not> b + of_nat i - a < 4"
  proof
    assume lt: "b + of_nat i - a < 4"
    define j where "j = unat (b + of_nat i - a)"
    from lt have "j < 4" by (simp add: j_def word_less_nat_alt)
    moreover have "b + of_nat i = a + of_nat j" by (simp add: j_def)
    ultimately show False using aligned_apart [OF assms(2,1,3), of j] False by simp
  qed
  with False show ?thesis by (simp add: ram_write32_def)
qed

lemma ram_read_write32:
  assumes "soc_addr a" "soc_addr b"
  shows "ram_read32 (ram_write32 m a v) b = (if b = a then v else ram_read32 m b)"
proof -
  have "map (\<lambda>i. ram_write32 m a v (b + of_nat i)) [0..<4] =
        map (\<lambda>i. if b = a then le32 v ! i else m (b + of_nat i)) [0..<4]"
    using ram_write32_at [OF assms] by (intro map_cong) auto
  moreover have "map ((!) (le32 v)) [0..<4] = le32 v"
    by (simp add: list_eq_iff_nth_eq)
  ultimately show ?thesis
    by (cases "b = a") (simp_all add: ram_read32_def del: map_eq_conv)
qed

lemma ahb_provider_runs [io_simps]:
  "MustRead32 (ahb_provider b) a s = (Inr (fst (ahb_read32 b a s)), snd (ahb_read32 b a s))"
  "MustRead8 (ahb_provider b) a s = (Inr (fst (ahb_read8 b a s)), snd (ahb_read8 b a s))"
  "MustWrite32 (ahb_provider b) a v s = (Inr (), ahb_write32 b a v s)"
  "MustWrite8 (ahb_provider b) a c s = (Inr (), ahb_write8 b a c s)"
  by (simp_all add: ahb_provider_def split: prod.split)

lemma ram_provider_runs [io_simps]:
  "MustRead32 ram_provider a m = (Inr (ram_read32 m a), m)"
  "MustRead8 ram_provider a m = (Inr (m a), m)"
  "MustWrite32 ram_provider a v m = (Inr (), ram_write32 m a v)"
  "MustWrite8 ram_provider a b m = (Inr (), m(a := b))"
  by (simp_all add: ram_provider_def ahb_provider_runs ram_ahb_def)

interpretation ram: register_bus ram_provider soc_addr ram_read32 ram_write32
  by unfold_locales (simp_all add: ram_provider_runs ram_read_write32)

end
