(* ===== verification/Host_Mem.thy ===== *)
theory Host_Mem
  imports Mem
begin

text \<open>
  The provider that runs on the BMC (\<^verbatim>\<open>pkg/aspeed/host_mem.go\<close>): every access maps the page of
  \<^verbatim>\<open>/dev/mem\<close> that holds the address, touches the word or byte at its offset in the mapping and
  unmaps the page. The kernel is what the record \<open>hostWorld\<close> says: the page size, the physical
  memory, and which of the mappings it grants and releases. The provider keeps the contract
  \<open>mem_contract\<close> with the physical memory as its bus.
\<close>

unbundle bit_operations_syntax

section \<open>The provider\<close>

record hostWorld =
  pageSize :: uintptr
  physMem :: bytes
  devMemOk :: bool
  mmapOk :: "uintptr \<Rightarrow> bool"
  munmapOk :: "uintptr \<Rightarrow> bool"

text \<open>
  The common part of the four calls: the page and the offset of the address, the mapping, the
  bounds check of \<^verbatim>\<open>mem[offset]\<close>, and the fault of an access that leaves the mapping. \<open>body\<close>
  gets the physical address of the first byte; the mapping is released after it.
\<close>

definition hostMem_access ::
  "nat \<Rightarrow> uintptr \<Rightarrow> (uintptr \<Rightarrow> (hostWorld, 'a) io) \<Rightarrow> (hostWorld, 'a) io" where
  "hostMem_access sz address body w =
     (let ps = pageSize w;
          page = address AND NOT (ps - 1);
          offset = address - page
      in if \<not> mmapOk w page then (Inl (LogPanic ''mmap''), w)
         else if \<not> offset < ps then (Inl IndexPanic, w)
         else if unat ps < unat offset + sz then (Inl SegFault, w)
         else bnd (body (page + offset))
                (\<lambda>v w'. if munmapOk w' page then (Inr v, w') else (Inl (LogPanic ''munmap''), w')) w)"

definition hostMem_MustRead32 :: "uintptr \<Rightarrow> (hostWorld, u32) io" where
  "hostMem_MustRead32 address =
     hostMem_access 4 address (\<lambda>p w. (Inr (ram_read32 (physMem w) p), w))"

definition hostMem_MustRead8 :: "uintptr \<Rightarrow> (hostWorld, u8) io" where
  "hostMem_MustRead8 address =
     hostMem_access 1 address (\<lambda>p w. (Inr (physMem w p), w))"

definition hostMem_MustWrite32 :: "uintptr \<Rightarrow> u32 \<Rightarrow> (hostWorld, unit) io" where
  "hostMem_MustWrite32 address data =
     hostMem_access 4 address (\<lambda>p w. (Inr (), w\<lparr>physMem := ram_write32 (physMem w) p data\<rparr>))"

definition hostMem_MustWrite8 :: "uintptr \<Rightarrow> u8 \<Rightarrow> (hostWorld, unit) io" where
  "hostMem_MustWrite8 address data =
     hostMem_access 1 address (\<lambda>p w. (Inr (), w\<lparr>physMem := (physMem w)(p := data)\<rparr>))"

definition hostMem :: "hostWorld memProvider" where
  "hostMem =
     \<lparr>MustRead32 = hostMem_MustRead32, MustRead8 = hostMem_MustRead8,
      MustWrite32 = hostMem_MustWrite32, MustWrite8 = hostMem_MustWrite8, CloseMem = ret ()\<rparr>"

definition openHostMemory :: "(hostWorld, hostWorld memProvider) io" where
  "openHostMemory w =
     (if devMemOk w then (Inr hostMem, w) else (Inl (LogPanic ''open /dev/mem''), w))"

text \<open>\<^verbatim>\<open>openMem\<close> of the build for the BMC.\<close>

definition openMem_arm :: "(hostWorld, hostWorld memProvider) io" where
  "openMem_arm = openHostMemory"

text \<open>The kernel a running BMC has: a page size that is a power of two, and no refused page.\<close>

definition host_ok :: "hostWorld \<Rightarrow> bool" where
  "host_ok w \<longleftrightarrow>
     (\<exists>k < 32. 2 \<le> k \<and> pageSize w = 2 ^ k) \<and> (\<forall>p. mmapOk w p) \<and> (\<forall>p. munmapOk w p)"

section \<open>Pages and offsets\<close>

lemma minus_and_not: "x - (x AND NOT m) = x AND (m :: 'a :: len word)"
proof -
  have "NOT x AND (x AND NOT m) = 0"
    by (rule bit_word_eqI) (auto simp: bit_simps)
  then have "x - (x AND NOT m) = x AND NOT (x AND NOT m)"
    by (rule disjunctive_diff_eq_and_not)
  also have "\<dots> = x AND m"
    by (rule bit_word_eqI) (auto simp: bit_simps)
  finally show ?thesis .
qed

lemma page_offset:
  fixes a :: uintptr
  assumes "k < 32" "ps = 2 ^ k"
  shows "unat (a - (a AND NOT (ps - 1))) = unat a mod 2 ^ k"
proof -
  have "ps - 1 = mask k" using assms by (simp add: mask_eq_exp_minus_1)
  then have "a - (a AND NOT (ps - 1)) = take_bit k a"
    by (simp add: minus_and_not take_bit_eq_mask)
  then show ?thesis by (simp only: unsigned_take_bit_eq) (simp add: take_bit_eq_mod)
qed

lemma aligned_in_page:
  fixes n :: nat
  assumes "n mod 4 = 0" "2 \<le> k"
  shows "n mod 2 ^ k + 4 \<le> 2 ^ k"
proof -
  obtain e where "k = 2 + e" using assms(2) by (auto simp: le_iff_add)
  then obtain j :: nat where k: "2 ^ k = 4 * j" "0 < j" by (simp add: power_add)
  obtain i where n: "n = 4 * i" using assms(1) by (auto simp: mod_eq_0_iff_dvd)
  have "n mod 2 ^ k = 4 * (i mod j)"
    unfolding k(1) n by (rule mod_mult_mult1)
  moreover have "i mod j < j" using k(2) by simp
  ultimately show ?thesis using k(1) by linarith
qed

lemma hostMem_access_ok:
  assumes "host_ok w" "soc_addr a" "sz \<le> 4"
    and body: "body a w = (Inr v, w')" "munmapOk w' = munmapOk w"
  shows "hostMem_access sz a body w = (Inr v, w')"
proof -
  from assms(1) obtain k where k: "k < 32" "2 \<le> k" "pageSize w = 2 ^ k"
    and ok: "\<And>p. mmapOk w p" "\<And>p. munmapOk w p"
    by (auto simp: host_ok_def)
  define page where "page = a AND NOT (pageSize w - 1)"
  have off: "unat (a - page) = unat a mod 2 ^ k"
    unfolding page_def using k by (intro page_offset) auto
  have "(2 :: nat) ^ k < 2 ^ 64" using k(1) by (intro power_strict_increasing) auto
  then have ps: "unat (pageSize w) = 2 ^ k"
    using k(3) unat_of_nat [of "2 ^ k", where 'a = 64] by (simp add: take_bit_eq_mod)
  have "unat a mod 2 ^ k + 4 \<le> 2 ^ k"
    using assms(2) k(2) by (intro aligned_in_page) (simp add: soc_addr_def)
  then have "a - page < pageSize w" "unat (a - page) + sz \<le> unat (pageSize w)"
    using off ps assms(3) by (simp_all add: word_less_nat_alt)
  then show ?thesis
    using ok body by (simp add: hostMem_access_def Let_def bnd_def flip: page_def)
qed

section \<open>The contract\<close>

lemmas hostMem_calls =
  hostMem_MustRead32_def hostMem_MustRead8_def hostMem_MustWrite32_def hostMem_MustWrite8_def

lemma hostMem_runs:
  assumes "host_ok w" "soc_addr a"
  shows "MustRead32 hostMem a w = (Inr (ram_read32 (physMem w) a), w)"
    and "MustRead8 hostMem a w = (Inr (physMem w a), w)"
    and "MustWrite32 hostMem a v w = (Inr (), w\<lparr>physMem := ram_write32 (physMem w) a v\<rparr>)"
    and "MustWrite8 hostMem a b w = (Inr (), w\<lparr>physMem := (physMem w)(a := b)\<rparr>)"
  using assms by (simp_all add: hostMem_def hostMem_calls hostMem_access_ok)

lemma host_ok_physMem [simp]: "host_ok (w\<lparr>physMem := m\<rparr>) = host_ok w"
  by (simp add: host_ok_def)

interpretation host: mem_contract hostMem host_ok physMem ram_provider
  by unfold_locales (auto intro!: simI simp: hostMem_runs ram_provider_runs)

text \<open>On a BMC whose kernel grants the mappings, \<^verbatim>\<open>openMem\<close> gives a provider whose word accesses at
  aligned addresses below 4 GiB read and write the little-endian word of physical memory at that
  address: a read after a write returns what was written there, and no other aligned word changes.
\<close>

theorem openHostMemory_read_write:
  assumes "host_ok w" "devMemOk w" "soc_addr a" "soc_addr b"
  shows "\<exists>P w'. openMem_arm w = (Inr P, w) \<and> MustWrite32 P a v w = (Inr (), w') \<and> host_ok w' \<and>
     MustRead32 P b w' = (Inr (if b = a then v else ram_read32 (physMem w) b), w')"
  using assms
  by (simp add: openMem_arm_def openHostMemory_def hostMem_runs ram_read_write32)

theorem openHostMemory_read_write_witness:
  "\<exists>P w'. openMem_arm \<lparr>pageSize = 4096, physMem = (\<lambda>_. 1), devMemOk = True,
       mmapOk = (\<lambda>_. True), munmapOk = (\<lambda>_. True)\<rparr> =
     (Inr P, \<lparr>pageSize = 4096, physMem = (\<lambda>_. 1), devMemOk = True,
       mmapOk = (\<lambda>_. True), munmapOk = (\<lambda>_. True)\<rparr>) \<and>
     MustWrite32 P 0x1e785004 16 \<lparr>pageSize = 4096, physMem = (\<lambda>_. 1), devMemOk = True,
       mmapOk = (\<lambda>_. True), munmapOk = (\<lambda>_. True)\<rparr> = (Inr (), w') \<and>
     MustRead32 P 0x1e785004 w' = (Inr 16, w')"
proof -
  let ?w = "\<lparr>pageSize = 4096, physMem = (\<lambda>_. 1), devMemOk = True,
       mmapOk = (\<lambda>_. True), munmapOk = (\<lambda>_. True)\<rparr>"
  have "host_ok ?w" by (auto simp: host_ok_def intro: exI [of _ 12])
  moreover have "soc_addr 0x1e785004" by (simp add: soc_addr_def)
  ultimately show ?thesis
    using openHostMemory_read_write [of ?w "0x1e785004" "0x1e785004" 16] by auto
qed

end
