(* ===== verification/Lpc_Mem.thy ===== *)
theory Lpc_Mem
  imports Mem
begin

text \<open>
  The provider that runs on the host CPU (\<^verbatim>\<open>pkg/aspeed/lpc_mem.go\<close>): it reaches the SoC's bus
  through the iLPC2AHB function of the SuperIO, an index port and a data port of \<^verbatim>\<open>/dev/port\<close>,
  and keeps a cache of the registers F0 to F8. The record \<open>lpc\<close> is the Go struct without its
  two time counters. The ports are a parameter (\<open>portDev\<close>); \<open>sio_device\<close> says what is relied on:
  seen through some abstraction, the ports behave as the SuperIO machine below. Under that
  hypothesis the provider keeps the contract \<open>mem_contract\<close>, with or without the cache.
\<close>

unbundle bit_operations_syntax

section \<open>The provider\<close>

record lpc =
  lpc_off :: int
  lpc_f :: "u8 list"
  wr_count :: int
  rd_count :: int
  cached_wr_count :: int

text \<open>
  The ports: whether \<^verbatim>\<open>/dev/port\<close> opens, a write (a failing one is only logged, so it is one that changes nothing), and a
  read, which gives no byte when it fails.
\<close>

record 'd portDev =
  portOk :: bool
  portWrite :: "int \<Rightarrow> u8 \<Rightarrow> 'd \<Rightarrow> 'd"
  portRead :: "int \<Rightarrow> 'd \<Rightarrow> u8 option \<times> 'd"

type_synonym 'd lpcState = "lpc \<times> 'd"

definition lpc_ctrl :: "'d portDev \<Rightarrow> u8 \<Rightarrow> ('d lpcState, unit) io" where
  "lpc_ctrl dev d = (\<lambda>(l, p).
     (Inr (), (l\<lparr>wr_count := wr_count l + 1\<rparr>, portWrite dev (lpc_off l) d p)))"

definition lpc_w :: "'d portDev \<Rightarrow> u8 \<Rightarrow> ('d lpcState, unit) io" where
  "lpc_w dev d = (\<lambda>(l, p).
     (Inr (), (l\<lparr>wr_count := wr_count l + 1\<rparr>, portWrite dev (lpc_off l + 1) d p)))"

definition lpc_r :: "'d portDev \<Rightarrow> ('d lpcState, u8) io" where
  "lpc_r dev = (\<lambda>(l, p).
     case portRead dev (lpc_off l + 1) p of (b, p') \<Rightarrow>
       (Inr (case b of None \<Rightarrow> 0 | Some v \<Rightarrow> v), (l\<lparr>rd_count := rd_count l + 1\<rparr>, p')))"

text \<open>The assignment \<^verbatim>\<open>l.f[i] = v\<close>.\<close>

definition lpc_setf :: "int \<Rightarrow> u8 \<Rightarrow> ('d lpcState, unit) io" where
  "lpc_setf i v = (\<lambda>(l, p).
     if 0 \<le> i \<and> i < int (length (lpc_f l))
     then (Inr (), (l\<lparr>lpc_f := (lpc_f l)[nat i := v]\<rparr>, p))
     else (Inl IndexPanic, (l, p)))"

definition lpc_wf :: "bool \<Rightarrow> 'd portDev \<Rightarrow> int \<Rightarrow> u8 \<Rightarrow> ('d lpcState, unit) io" where
  "lpc_wf lpcCache dev f d = (\<lambda>(l, p).
     let i = f - 0xf0 in
     if \<not> (0 \<le> i \<and> i < int (length (lpc_f l))) then (Inl IndexPanic, (l, p))
     else if lpc_f l ! nat i \<noteq> d \<or> \<not> lpcCache
     then thn (lpc_ctrl dev (word_of_int f)) (thn (lpc_w dev d) (lpc_setf i d)) (l, p)
     else (Inr (), (l\<lparr>cached_wr_count := cached_wr_count l + 1\<rparr>, p)))"

definition lpc_enable :: "'d portDev \<Rightarrow> ('d lpcState, unit) io" where
  "lpc_enable dev = thn (lpc_ctrl dev 0x30) (lpc_w dev 0x1)"

definition lpc_unlock :: "'d portDev \<Rightarrow> ('d lpcState, unit) io" where
  "lpc_unlock dev = thn (lpc_ctrl dev 0xa5) (lpc_ctrl dev 0xa5)"

definition lpc_Close :: "'d portDev \<Rightarrow> ('d lpcState, unit) io" where
  "lpc_Close dev = lpc_ctrl dev 0xaa"

definition lpc_selectDevice :: "'d portDev \<Rightarrow> int \<Rightarrow> ('d lpcState, unit) io" where
  "lpc_selectDevice dev d = thn (lpc_ctrl dev 0x07) (lpc_w dev (word_of_int d))"

definition lpc_addr :: "bool \<Rightarrow> 'd portDev \<Rightarrow> uintptr \<Rightarrow> ('d lpcState, unit) io" where
  "lpc_addr c dev a =
     thn (lpc_wf c dev 0xf0 (ucast (drop_bit 24 a AND 0xff)))
    (thn (lpc_wf c dev 0xf1 (ucast (drop_bit 16 a AND 0xff)))
    (thn (lpc_wf c dev 0xf2 (ucast (drop_bit 8 a AND 0xff)))
         (lpc_wf c dev 0xf3 (ucast (a AND 0xff)))))"

text \<open>\<^verbatim>\<open>l.ctrl(reg); f = l.r(); l.f[i] = f\<close>, three lines that the reads repeat.\<close>

definition lpc_readReg :: "'d portDev \<Rightarrow> u8 \<Rightarrow> int \<Rightarrow> ('d lpcState, u8) io" where
  "lpc_readReg dev reg i =
     thn (lpc_ctrl dev reg) (bnd (lpc_r dev) (\<lambda>f. thn (lpc_setf i f) (ret f)))"

definition lpc_MustRead32 :: "bool \<Rightarrow> 'd portDev \<Rightarrow> uintptr \<Rightarrow> ('d lpcState, u32) io" where
  "lpc_MustRead32 c dev a =
     thn (lpc_addr c dev a)
    (thn (lpc_wf c dev 0xf8 0x2)
    (thn (lpc_ctrl dev 0xfe)
    (thn (lpc_r dev)
    (bnd (lpc_readReg dev 0xf4 4) (\<lambda>f4.
     bnd (lpc_readReg dev 0xf5 5) (\<lambda>f5.
     bnd (lpc_readReg dev 0xf6 6) (\<lambda>f6.
     bnd (lpc_readReg dev 0xf7 7) (\<lambda>f7.
       ret (push_bit 24 (ucast f4) OR push_bit 16 (ucast f5) OR push_bit 8 (ucast f6) OR ucast f7)))))))))"

definition lpc_MustRead8 :: "bool \<Rightarrow> 'd portDev \<Rightarrow> uintptr \<Rightarrow> ('d lpcState, u8) io" where
  "lpc_MustRead8 c dev a =
     thn (lpc_addr c dev a)
    (thn (lpc_wf c dev 0xf8 0)
    (thn (lpc_ctrl dev 0xfe)
    (thn (lpc_r dev)
         (lpc_readReg dev 0xf7 7))))"

definition lpc_MustWrite32 :: "bool \<Rightarrow> 'd portDev \<Rightarrow> uintptr \<Rightarrow> u32 \<Rightarrow> ('d lpcState, unit) io" where
  "lpc_MustWrite32 c dev a d =
     thn (lpc_addr c dev a)
    (thn (lpc_wf c dev 0xf8 0x2)
    (thn (lpc_wf c dev 0xf4 (ucast (drop_bit 24 d AND 0xff)))
    (thn (lpc_wf c dev 0xf5 (ucast (drop_bit 16 d AND 0xff)))
    (thn (lpc_wf c dev 0xf6 (ucast (drop_bit 8 d AND 0xff)))
    (thn (lpc_wf c dev 0xf7 (ucast (d AND 0xff)))
    (thn (lpc_ctrl dev 0xfe)
         (lpc_w dev 0xcf)))))))"

definition lpc_MustWrite8 :: "bool \<Rightarrow> 'd portDev \<Rightarrow> uintptr \<Rightarrow> u8 \<Rightarrow> ('d lpcState, unit) io" where
  "lpc_MustWrite8 c dev a d =
     thn (lpc_addr c dev a)
    (thn (lpc_wf c dev 0xf8 0)
    (thn (lpc_wf c dev 0xf7 (d AND 0xff))
    (thn (lpc_ctrl dev 0xfe)
         (lpc_w dev 0xcf))))"

definition lpcMem :: "bool \<Rightarrow> 'd portDev \<Rightarrow> 'd lpcState memProvider" where
  "lpcMem c dev =
     \<lparr>MustRead32 = lpc_MustRead32 c dev, MustRead8 = lpc_MustRead8 c dev,
      MustWrite32 = lpc_MustWrite32 c dev, MustWrite8 = lpc_MustWrite8 c dev,
      CloseMem = lpc_Close dev\<rparr>"

text \<open>
  \<^verbatim>\<open>openLpcMemory\<close>: a fresh \<open>lpc\<close> with a zero cache (whatever the world held in its place), then
  the loop that makes the controller match it.
\<close>

definition openLpcMemory ::
  "bool \<Rightarrow> 'd portDev \<Rightarrow> int \<Rightarrow> ('d lpcState, 'd lpcState memProvider) io" where
  "openLpcMemory c dev port = (\<lambda>(_, p).
     if \<not> portOk dev then (Inl (LogPanic ''open /dev/port''),
        (\<lparr>lpc_off = 0, lpc_f = [], wr_count = 0, rd_count = 0, cached_wr_count = 0\<rparr>, p))
     else
       thn (lpc_unlock dev)
      (thn (lpc_selectDevice dev 0xd)
      (thn (forM (\<lambda>i. thn (lpc_ctrl dev (word_of_int (0xf0 + i))) (lpc_w dev 0)) [0..8])
      (thn (lpc_enable dev)
           (ret (lpcMem c dev)))))
       (\<lparr>lpc_off = port, lpc_f = replicate 9 0, wr_count = 0, rd_count = 0, cached_wr_count = 0\<rparr>, p))"

text \<open>\<^verbatim>\<open>openMem\<close> of the builds that are not for the BMC.\<close>

definition openMem_default :: "bool \<Rightarrow> 'd portDev \<Rightarrow> ('d lpcState, 'd lpcState memProvider) io" where
  "openMem_default c dev = openLpcMemory c dev 0x2e"

section \<open>The SuperIO machine\<close>

text \<open>
  The documented behaviour the provider relies on. Two writes of A5 to the index port unlock the
  SuperIO, AA locks it, any other value selects a register; register 07 selects the logical
  device. In device 0D, F0 to F3 hold the bus address and F4 to F7 the data, most significant
  byte first, F8 the access size (0 for a byte, 2 for a word), and an enabled device does a bus
  read when FE is read and a bus write when CF is written to FE.
\<close>

record 'b sio =
  sio_key :: nat
  sio_idx :: u8
  sio_ldn :: u8
  sio_reg :: "u8 \<Rightarrow> u8"
  sio_bus :: 'b

definition sio_open :: "'b sio \<Rightarrow> bool" where
  "sio_open m \<longleftrightarrow> 2 \<le> sio_key m"

definition sio_address :: "'b sio \<Rightarrow> uintptr" where
  "sio_address m = ucast (of_le32 (map (sio_reg m) [0xf3, 0xf2, 0xf1, 0xf0]))"

definition sio_index :: "u8 \<Rightarrow> 'b sio \<Rightarrow> 'b sio" where
  "sio_index v m =
     (if sio_open m then (if v = 0xaa then m\<lparr>sio_key := 0\<rparr> else m\<lparr>sio_idx := v\<rparr>)
      else if v = 0xa5 then m\<lparr>sio_key := sio_key m + 1\<rparr> else m\<lparr>sio_key := 0\<rparr>)"

definition sio_put :: "'b ahb \<Rightarrow> u8 \<Rightarrow> 'b sio \<Rightarrow> 'b sio" where
  "sio_put B v m =
     (if \<not> sio_open m then m
      else if sio_idx m = 0x07 then m\<lparr>sio_ldn := v\<rparr>
      else if sio_ldn m \<noteq> 0x0d then m
      else if sio_idx m \<noteq> 0xfe then m\<lparr>sio_reg := (sio_reg m)(sio_idx m := v)\<rparr>
      else if v \<noteq> 0xcf \<or> sio_reg m 0x30 \<noteq> 1 then m
      else if sio_reg m 0xf8 = 2
      then m\<lparr>sio_bus := ahb_write32 B (sio_address m)
               (of_le32 (map (sio_reg m) [0xf7, 0xf6, 0xf5, 0xf4])) (sio_bus m)\<rparr>
      else m\<lparr>sio_bus := ahb_write8 B (sio_address m) (sio_reg m 0xf7) (sio_bus m)\<rparr>)"

definition sio_get :: "'b ahb \<Rightarrow> 'b sio \<Rightarrow> 'b sio" where
  "sio_get B m =
     (if \<not> sio_open m \<or> sio_ldn m \<noteq> 0x0d \<or> sio_idx m \<noteq> 0xfe \<or> sio_reg m 0x30 \<noteq> 1 then m
      else if sio_reg m 0xf8 = 2
      then (case ahb_read32 B (sio_address m) (sio_bus m) of (v, b) \<Rightarrow>
              m\<lparr>sio_bus := b,
                sio_reg := (sio_reg m)(0xf4 := ucast (drop_bit 24 v), 0xf5 := ucast (drop_bit 16 v),
                                       0xf6 := ucast (drop_bit 8 v), 0xf7 := ucast v)\<rparr>)
      else (case ahb_read8 B (sio_address m) (sio_bus m) of (v, b) \<Rightarrow>
              m\<lparr>sio_bus := b, sio_reg := (sio_reg m)(0xf7 := v)\<rparr>))"

text \<open>Ports that behave as this machine, seen through \<open>view\<close>.\<close>

definition sio_device :: "'d portDev \<Rightarrow> int \<Rightarrow> ('d \<Rightarrow> 'b sio) \<Rightarrow> 'b ahb \<Rightarrow> bool" where
  "sio_device dev port view B \<longleftrightarrow> portOk dev \<and>
     (\<forall>v d. view (portWrite dev port v d) = sio_index v (view d)) \<and>
     (\<forall>v d. view (portWrite dev (port + 1) v d) = sio_put B v (view d)) \<and>
     (\<forall>d. view (snd (portRead dev (port + 1) d)) = sio_get B (view d)) \<and>
     (\<forall>d. sio_open (view d) \<longrightarrow> sio_ldn (view d) = 0x0d \<longrightarrow> sio_idx (view d) \<noteq> 0xfe \<longrightarrow>
        fst (portRead dev (port + 1) d) = Some (sio_reg (view d) (sio_idx (view d))))"

text \<open>The SuperIO itself as such ports, at the index port \<open>port\<close>.\<close>

definition sio_ports :: "int \<Rightarrow> 'b ahb \<Rightarrow> 'b sio portDev" where
  "sio_ports port B =
     \<lparr>portOk = True,
      portWrite = (\<lambda>p v m. if p = port then sio_index v m else if p = port + 1 then sio_put B v m else m),
      portRead = (\<lambda>p m. if p = port + 1 then (Some (sio_reg m (sio_idx m)), sio_get B m) else (None, m))\<rparr>"

definition sio_active :: "'b sio \<Rightarrow> bool" where
  "sio_active m \<longleftrightarrow> sio_open m \<and> sio_ldn m = 0x0d \<and> sio_reg m 0x30 = 1"

text \<open>The cache agrees with the registers of an open and enabled device.\<close>

definition lpc_inv :: "int \<Rightarrow> ('d \<Rightarrow> 'b sio) \<Rightarrow> 'd lpcState \<Rightarrow> bool" where
  "lpc_inv port view = (\<lambda>(l, p).
     lpc_off l = port \<and> sio_active (view p) \<and>
     lpc_f l = map (\<lambda>i. sio_reg (view p) (0xf0 + of_nat i)) [0..<9])"

definition lpc_bus :: "('d \<Rightarrow> 'b sio) \<Rightarrow> 'd lpcState \<Rightarrow> 'b" where
  "lpc_bus view = (\<lambda>(l, p). sio_bus (view p))"

section \<open>Running the provider on such ports\<close>

lemma sio_deviceD:
  assumes "sio_device dev port view B"
  shows "view (portWrite dev port v d) = sio_index v (view d)"
    and "view (portWrite dev (port + 1) v d) = sio_put B v (view d)"
    and "view (snd (portRead dev (port + 1) d)) = sio_get B (view d)"
    and "sio_open (view d) \<Longrightarrow> sio_ldn (view d) = 0x0d \<Longrightarrow> sio_idx (view d) \<noteq> 0xfe \<Longrightarrow>
         fst (portRead dev (port + 1) d) = Some (sio_reg (view d) (sio_idx (view d)))"
    and "portOk dev"
  using assms by (auto simp: sio_device_def)

lemma unat_freg: "i < 9 \<Longrightarrow> unat (0xf0 + of_nat i :: u8) = 240 + i"
  by (simp add: unat_word_ariths unat_of_nat take_bit_eq_mod)

lemma freg_inj: "i < 9 \<Longrightarrow> j < 9 \<Longrightarrow> (of_nat i :: u8) = of_nat j \<longleftrightarrow> i = j"
  by (metis add_left_cancel unat_freg)

lemma freg_neq:
  assumes "i < 9" and "n < 240 \<or> 248 < n" and "n < 256"
  shows "(0xf0 + of_nat i :: u8) \<noteq> of_nat n"
proof
  assume "(0xf0 + of_nat i :: u8) = of_nat n"
  then have "240 + i = unat (of_nat n :: u8)" using unat_freg [OF assms(1)] by simp
  then show False using assms by (simp add: unat_of_nat take_bit_eq_mod)
qed

lemma freg_neqs [simp]:
  assumes "i < 9"
  shows "(0xf0 + of_nat i :: u8) \<noteq> 0xaa" "(0xf0 + of_nat i :: u8) \<noteq> 0x07"
    "(0xf0 + of_nat i :: u8) \<noteq> 0xfe" "(0xf0 + of_nat i :: u8) \<noteq> 0x30"
  using freg_neq [OF assms, where n = "0xaa"] freg_neq [OF assms, where n = "0x07"]
    freg_neq [OF assms, where n = "0xfe"] freg_neq [OF assms, where n = "0x30"] by simp_all

lemma freg_update:
  assumes "i < 9"
  shows "(map (\<lambda>j. g (0xf0 + of_nat j :: u8)) [0..<9])[i := v] =
         map (\<lambda>j. (g(0xf0 + of_nat i := v)) (0xf0 + of_nat j)) [0..<9]"
  using assms by (auto simp: list_eq_iff_nth_eq nth_list_update freg_inj)

lemma freg_numerals:
  "(0xf0 + of_nat 4 :: u8) = 0xf4" "(0xf0 + of_nat 5 :: u8) = 0xf5"
  "(0xf0 + of_nat 6 :: u8) = 0xf6" "(0xf0 + of_nat 7 :: u8) = 0xf7"
  by simp_all

lemma freg_less: "(4::nat) < 9" "(5::nat) < 9" "(6::nat) < 9" "(7::nat) < 9"
  by simp_all

lemmas freg_updates =
  freg_update [where i = 4, unfolded freg_numerals, OF freg_less(1)]
  freg_update [where i = 5, unfolded freg_numerals, OF freg_less(2)]
  freg_update [where i = 6, unfolded freg_numerals, OF freg_less(3)]
  freg_update [where i = 7, unfolded freg_numerals, OF freg_less(4)]

lemma lpc_wf_run:
  assumes dev: "sio_device dev port view B" and inv: "lpc_inv port view (l, p)"
    and i: "i < 9" "f = 0xf0 + int i"
  shows "\<exists>l' p'. lpc_wf c dev f v (l, p) = (Inr (), (l', p')) \<and> lpc_inv port view (l', p') \<and>
           sio_reg (view p') = (sio_reg (view p))(0xf0 + of_nat i := v) \<and>
           sio_bus (view p') = sio_bus (view p)"
proof -
  have w: "word_of_int f = (0xf0 + of_nat i :: u8)" using i(2) by simp
  have fi: "lpc_f l ! i = sio_reg (view p) (0xf0 + of_nat i)" "length (lpc_f l) = 9"
    using inv i(1) by (auto simp: lpc_inv_def)
  show ?thesis
  proof (cases "lpc_f l ! i \<noteq> v \<or> \<not> c")
    case True
    with inv i(1) show ?thesis
      by (simp add: lpc_wf_def lpc_ctrl_def lpc_w_def lpc_setf_def thn_def bnd_def lpc_inv_def i(2)
          w sio_deviceD [OF dev] sio_active_def sio_index_def sio_put_def sio_open_def freg_update)
  next
    case False
    with inv i fi show ?thesis
      by (auto simp: lpc_wf_def lpc_inv_def)
  qed
qed

text \<open>A run of cached register writes, as the address and the data are sent.\<close>

definition lpc_wfs :: "bool \<Rightarrow> 'd portDev \<Rightarrow> (nat \<times> u8) list \<Rightarrow> ('d lpcState, unit) io" where
  "lpc_wfs c dev = forM (\<lambda>(i, v). lpc_wf c dev (0xf0 + int i) v)"

lemma lpc_wfs_run:
  assumes dev: "sio_device dev port view B" and inv: "lpc_inv port view (l, p)"
    and xs: "\<forall>x \<in> set xs. fst x < 9"
  shows "\<exists>l' p'. lpc_wfs c dev xs (l, p) = (Inr (), (l', p')) \<and> lpc_inv port view (l', p') \<and>
           sio_reg (view p') = fold (\<lambda>(i, v) r. r(0xf0 + of_nat i := v)) xs (sio_reg (view p)) \<and>
           sio_bus (view p') = sio_bus (view p)"
  using inv xs
proof (induction xs arbitrary: l p)
  case Nil
  then show ?case by (simp add: lpc_wfs_def ret_def)
next
  case (Cons x xs)
  obtain i v where x: "x = (i, v)" by fastforce
  with Cons.prems(2) have "i < 9" by auto
  from lpc_wf_run [OF dev Cons.prems(1) this refl, of c v] obtain l1 p1 where
    wf: "lpc_wf c dev (0xf0 + int i) v (l, p) = (Inr (), (l1, p1))" "lpc_inv port view (l1, p1)"
      "sio_reg (view p1) = (sio_reg (view p))(0xf0 + of_nat i := v)"
      "sio_bus (view p1) = sio_bus (view p)" by auto
  have "\<forall>x \<in> set xs. fst x < 9" using Cons.prems(2) by simp
  from Cons.IH [OF wf(2) this] wf(3,4) show ?case
    by (simp add: x lpc_wfs_def thn_def bnd_def wf(1))
qed

lemma lpc_addr_wfs:
  "lpc_addr c dev a = lpc_wfs c dev (zip [0, 1, 2, 3] (be32 (ucast a)))"
proof -
  have "ucast (drop_bit k a AND 0xff) = (ucast (drop_bit k (ucast a :: u32)) :: u8)"
    if "k \<le> 24" for k
    using that by (intro bit_word_eqI) (auto simp: bit_simps bit_ff)
  from this [of 0] this [of 8] this [of 16] this [of 24] show ?thesis
    by (simp add: lpc_addr_def lpc_wfs_def be32_def le32_def)
qed

lemma ucast_ucast_id_small: "unat (a :: uintptr) < 2 ^ 32 \<Longrightarrow> ucast (ucast a :: u32) = a"
  by (simp add: word_unat_eq_iff take_bit_eq_mod unsigned_ucast_eq unat_mod)

lemma lpc_wfs_append: "lpc_wfs c dev (xs @ ys) = thn (lpc_wfs c dev xs) (lpc_wfs c dev ys)"
  by (simp add: lpc_wfs_def forM_append)

lemma lpc_wfs_1: "lpc_wf c dev 0xf8 v = lpc_wfs c dev [(8, v)]"
  by (simp add: lpc_wfs_def)

text \<open>What the registers hold once the address, the size and the data have been sent.\<close>

definition lpc_sent :: "uintptr \<Rightarrow> u8 \<Rightarrow> (nat \<times> u8) list" where
  "lpc_sent a sz = zip [0, 1, 2, 3] (be32 (ucast a)) @ [(8, sz)]"

lemma lpc_sent_run:
  assumes dev: "sio_device dev port view B" and inv: "lpc_inv port view (l, p)"
    and a: "soc_addr a" and ys: "ys = [] \<or> (\<exists>v. ys = zip [4, 5, 6, 7] (be32 v)) \<or> (\<exists>v. ys = [(7, v)])"
  shows "\<exists>l' p'. lpc_wfs c dev (lpc_sent a sz @ ys) (l, p) = (Inr (), (l', p')) \<and>
           lpc_inv port view (l', p') \<and> sio_bus (view p') = sio_bus (view p) \<and>
           sio_address (view p') = a \<and> sio_reg (view p') 0xf8 = sz \<and>
           (\<forall>v. ys = zip [4, 5, 6, 7] (be32 v) \<longrightarrow>
              of_le32 (map (sio_reg (view p')) [0xf7, 0xf6, 0xf5, 0xf4]) = v) \<and>
           (\<forall>v. ys = [(7, v)] \<longrightarrow> sio_reg (view p') 0xf7 = v)"
proof -
  have "\<forall>x \<in> set (lpc_sent a sz @ ys). fst x < 9"
    using ys by (auto simp: lpc_sent_def be32_def le32_def)
  from lpc_wfs_run [OF dev inv this, of c] obtain l' p' where
    run: "lpc_wfs c dev (lpc_sent a sz @ ys) (l, p) = (Inr (), (l', p'))" "lpc_inv port view (l', p')"
      "sio_bus (view p') = sio_bus (view p)" and
    regs: "sio_reg (view p') = fold (\<lambda>(i, v) r. r(0xf0 + of_nat i := v)) (lpc_sent a sz @ ys) (sio_reg (view p))"
    by blast
  have "of_le32 (map (sio_reg (view p')) [0xf3, 0xf2, 0xf1, 0xf0]) = of_le32 (le32 (ucast a))"
    using ys by (auto simp: regs lpc_sent_def be32_def le32_def)
  then have "sio_address (view p') = a"
    using a by (simp add: sio_address_def soc_addr_def ucast_ucast_id_small)
  moreover have "sio_reg (view p') 0xf8 = sz"
    using ys by (auto simp: regs lpc_sent_def be32_def le32_def)
  moreover have "of_le32 (map (sio_reg (view p')) [0xf7, 0xf6, 0xf5, 0xf4]) = of_le32 (le32 v)"
    if "ys = zip [4, 5, 6, 7] (be32 v)" for v
    by (simp add: regs that lpc_sent_def be32_def le32_def)
  moreover have "sio_reg (view p') 0xf7 = v" if "ys = [(7, v)]" for v
    by (simp add: regs that)
  ultimately show ?thesis using run by simp
qed

lemmas lpc_steps =
  lpc_ctrl_def lpc_w_def lpc_r_def lpc_setf_def lpc_readReg_def thn_def bnd_def ret_def

lemma lpc_MustWrite32_run:
  assumes dev: "sio_device dev port view B" and inv: "lpc_inv port view (l, p)" and a: "soc_addr a"
  shows "\<exists>l' p'. lpc_MustWrite32 c dev a d (l, p) = (Inr (), (l', p')) \<and> lpc_inv port view (l', p') \<and>
           sio_bus (view p') = ahb_write32 B a d (sio_bus (view p))"
proof -
  let ?ys = "zip [4, 5, 6, 7] (be32 d)"
  have eq: "lpc_MustWrite32 c dev a d =
      thn (lpc_wfs c dev (lpc_sent a 2 @ ?ys)) (thn (lpc_ctrl dev 0xfe) (lpc_w dev 0xcf))"
    by (simp add: lpc_MustWrite32_def lpc_addr_wfs lpc_sent_def lpc_wfs_1 lpc_wfs_append thn_assoc)
      (simp add: lpc_wfs_def be32_def le32_def thn_assoc)
  from lpc_sent_run [OF dev inv a, of ?ys c 2] obtain l1 p1 where
    s: "lpc_wfs c dev (lpc_sent a 2 @ ?ys) (l, p) = (Inr (), (l1, p1))" "lpc_inv port view (l1, p1)"
      "sio_bus (view p1) = sio_bus (view p)" "sio_address (view p1) = a"
      "sio_reg (view p1) 0xf8 = 2" "of_le32 (map (sio_reg (view p1)) [0xf7, 0xf6, 0xf5, 0xf4]) = d"
    by auto
  then show ?thesis
    by (simp add: eq thn_def bnd_def lpc_ctrl_def lpc_w_def lpc_inv_def sio_deviceD [OF dev]
        sio_active_def sio_index_def sio_put_def sio_open_def sio_address_def)
qed

lemma lpc_MustWrite8_run:
  assumes dev: "sio_device dev port view B" and inv: "lpc_inv port view (l, p)" and a: "soc_addr a"
  shows "\<exists>l' p'. lpc_MustWrite8 c dev a d (l, p) = (Inr (), (l', p')) \<and> lpc_inv port view (l', p') \<and>
           sio_bus (view p') = ahb_write8 B a d (sio_bus (view p))"
proof -
  have eq: "lpc_MustWrite8 c dev a d =
      thn (lpc_wfs c dev (lpc_sent a 0 @ [(7, d)])) (thn (lpc_ctrl dev 0xfe) (lpc_w dev 0xcf))"
    by (simp add: lpc_MustWrite8_def lpc_addr_wfs lpc_sent_def lpc_wfs_1 lpc_wfs_append thn_assoc)
      (simp add: lpc_wfs_def thn_assoc)
  from lpc_sent_run [OF dev inv a, of "[(7, d)]" c 0] obtain l1 p1 where
    "lpc_wfs c dev (lpc_sent a 0 @ [(7, d)]) (l, p) = (Inr (), (l1, p1))" "lpc_inv port view (l1, p1)"
    "sio_bus (view p1) = sio_bus (view p)" "sio_address (view p1) = a"
    "sio_reg (view p1) 0xf8 = 0" "sio_reg (view p1) 0xf7 = d"
    by auto
  then show ?thesis
    by (simp add: eq thn_def bnd_def lpc_ctrl_def lpc_w_def lpc_inv_def sio_deviceD [OF dev]
        sio_active_def sio_index_def sio_put_def sio_open_def sio_address_def)
qed

text \<open>Reading a register back: its value, kept in the cache, and no change the bus can see.\<close>

lemma lpc_readReg_run:
  assumes dev: "sio_device dev port view B" and i: "i < 9" "j = int i" "w = 0xf0 + of_nat i"
    and off: "lpc_off l = port" "length (lpc_f l) = 9" and act: "sio_active (view p)"
  shows "\<exists>l' p'. lpc_readReg dev w j (l, p) = (Inr (sio_reg (view p) w), (l', p')) \<and>
           lpc_off l' = port \<and> lpc_f l' = (lpc_f l)[i := sio_reg (view p) w] \<and>
           sio_reg (view p') = sio_reg (view p) \<and> sio_bus (view p') = sio_bus (view p) \<and>
           sio_active (view p')"
proof -
  let ?p = "portWrite dev port w p"
  have v: "view ?p = (view p)\<lparr>sio_idx := w\<rparr>"
    using act i by (simp add: sio_deviceD [OF dev] sio_index_def sio_active_def)
  then have "fst (portRead dev (port + 1) ?p) = Some (sio_reg (view p) w)"
    and "view (snd (portRead dev (port + 1) ?p)) = (view p)\<lparr>sio_idx := w\<rparr>"
    using act i by (simp_all add: sio_deviceD [OF dev] sio_get_def sio_active_def sio_open_def)
  then show ?thesis
    using act i off
    by (cases "portRead dev (port + 1) ?p")
      (simp add: lpc_steps sio_active_def sio_open_def)
qed

lemma lpc_trigger_run:
  assumes dev: "sio_device dev port view B" and inv: "lpc_inv port view (l, p)"
  shows "\<exists>v l' p'. thn (lpc_ctrl dev 0xfe) (lpc_r dev) (l, p) = (Inr v, (l', p')) \<and>
           lpc_off l' = port \<and> lpc_f l' = lpc_f l \<and>
           view p' = sio_get B ((view p)\<lparr>sio_idx := 0xfe\<rparr>)"
proof -
  let ?p = "portWrite dev port 0xfe p"
  have "view ?p = (view p)\<lparr>sio_idx := 0xfe\<rparr>"
    using inv by (simp add: sio_deviceD [OF dev] sio_index_def lpc_inv_def sio_active_def)
  then show ?thesis
    using inv sio_deviceD(3) [OF dev, of ?p]
    by (cases "portRead dev (port + 1) ?p") (simp add: lpc_steps lpc_inv_def)
qed

lemma lpc_MustRead32_run:
  assumes dev: "sio_device dev port view B" and inv: "lpc_inv port view (l, p)" and a: "soc_addr a"
    and bus: "ahb_read32 B a (sio_bus (view p)) = (v, b)"
  shows "\<exists>l' p'. lpc_MustRead32 c dev a (l, p) = (Inr v, (l', p')) \<and> lpc_inv port view (l', p') \<and>
           sio_bus (view p') = b"
proof -
  define rest where "rest =
    bnd (lpc_readReg dev 0xf4 4) (\<lambda>f4. bnd (lpc_readReg dev 0xf5 5) (\<lambda>f5.
    bnd (lpc_readReg dev 0xf6 6) (\<lambda>f6. bnd (lpc_readReg dev 0xf7 7) (\<lambda>f7.
      ret (push_bit 24 (ucast f4) OR push_bit 16 (ucast f5) OR push_bit 8 (ucast f6) OR ucast f7 :: u32)))))"
  have eq: "lpc_MustRead32 c dev a =
      thn (lpc_wfs c dev (lpc_sent a 2 @ [])) (thn (thn (lpc_ctrl dev 0xfe) (lpc_r dev)) rest)"
    by (simp add: lpc_MustRead32_def rest_def lpc_addr_wfs lpc_sent_def lpc_wfs_1 lpc_wfs_append thn_assoc)
  from lpc_sent_run [OF dev inv a, of "[]" c 2] obtain l1 p1 where
    s1: "lpc_wfs c dev (lpc_sent a 2 @ []) (l, p) = (Inr (), (l1, p1))" "lpc_inv port view (l1, p1)"
      "sio_bus (view p1) = sio_bus (view p)" "sio_address (view p1) = a" "sio_reg (view p1) 0xf8 = 2"
    by auto
  from lpc_trigger_run [OF dev s1(2)] obtain u l2 p2 where
    s2: "thn (lpc_ctrl dev 0xfe) (lpc_r dev) (l1, p1) = (Inr u, (l2, p2))" "lpc_off l2 = port"
      "lpc_f l2 = lpc_f l1" and v2: "view p2 = sio_get B ((view p1)\<lparr>sio_idx := 0xfe\<rparr>)" by blast
  let ?r = "(sio_reg (view p1))(0xf4 := ucast (drop_bit 24 v), 0xf5 := ucast (drop_bit 16 v),
                                0xf6 := ucast (drop_bit 8 v), 0xf7 := ucast v)"
  have r2: "sio_reg (view p2) = ?r" "sio_bus (view p2) = b" "sio_active (view p2)"
    using v2 s1 bus
    by (auto simp: sio_get_def lpc_inv_def sio_active_def sio_open_def sio_address_def)
  have f2: "length (lpc_f l2) = 9" using s1(2) s2(3) by (simp add: lpc_inv_def)
  from lpc_readReg_run [OF dev _ _ _ s2(2) f2 r2(3), of 4 4 "0xf4"] obtain l4 p4 where
    s4: "lpc_readReg dev 0xf4 4 (l2, p2) = (Inr (ucast (drop_bit 24 v)), (l4, p4))" "lpc_off l4 = port"
      "lpc_f l4 = (lpc_f l2)[4 := ucast (drop_bit 24 v)]" "sio_reg (view p4) = ?r"
      "sio_bus (view p4) = b" "sio_active (view p4)"
    by (auto simp: r2)
  from lpc_readReg_run [OF dev _ _ _ s4(2) _ s4(6), of 5 5 "0xf5"] obtain l5 p5 where
    s5: "lpc_readReg dev 0xf5 5 (l4, p4) = (Inr (ucast (drop_bit 16 v)), (l5, p5))" "lpc_off l5 = port"
      "lpc_f l5 = (lpc_f l4)[5 := ucast (drop_bit 16 v)]" "sio_reg (view p5) = ?r"
      "sio_bus (view p5) = b" "sio_active (view p5)"
    by (auto simp: s4 f2)
  from lpc_readReg_run [OF dev _ _ _ s5(2) _ s5(6), of 6 6 "0xf6"] obtain l6 p6 where
    s6: "lpc_readReg dev 0xf6 6 (l5, p5) = (Inr (ucast (drop_bit 8 v)), (l6, p6))" "lpc_off l6 = port"
      "lpc_f l6 = (lpc_f l5)[6 := ucast (drop_bit 8 v)]" "sio_reg (view p6) = ?r"
      "sio_bus (view p6) = b" "sio_active (view p6)"
    by (auto simp: s5 s4 f2)
  from lpc_readReg_run [OF dev _ _ _ s6(2) _ s6(6), of 7 7 "0xf7"] obtain l7 p7 where
    s7: "lpc_readReg dev 0xf7 7 (l6, p6) = (Inr (ucast v), (l7, p7))" "lpc_off l7 = port"
      "lpc_f l7 = (lpc_f l6)[7 := ucast v]" "sio_reg (view p7) = ?r"
      "sio_bus (view p7) = b" "sio_active (view p7)"
    by (auto simp: s6 s5 s4 f2)
  have "rest (l2, p2) = (Inr v, (l7, p7))"
    using of_le32_le32 [of v]
    by (simp add: rest_def bnd_def s4(1) s5(1) s6(1) s7(1) ret_def le32_def ac_simps)
  moreover have "lpc_inv port view (l7, p7)"
    using s1(2) s7 s6 s5 s4 s2
    by (simp add: lpc_inv_def freg_updates del: map_eq_conv fun_upd_apply)
  ultimately show ?thesis
    using s1(1) s2(1) s7(5) by (simp add: eq thn_def bnd_def)
qed

lemma lpc_MustRead8_run:
  assumes dev: "sio_device dev port view B" and inv: "lpc_inv port view (l, p)" and a: "soc_addr a"
    and bus: "ahb_read8 B a (sio_bus (view p)) = (v, b)"
  shows "\<exists>l' p'. lpc_MustRead8 c dev a (l, p) = (Inr v, (l', p')) \<and> lpc_inv port view (l', p') \<and>
           sio_bus (view p') = b"
proof -
  have eq: "lpc_MustRead8 c dev a =
      thn (lpc_wfs c dev (lpc_sent a 0 @ []))
        (thn (thn (lpc_ctrl dev 0xfe) (lpc_r dev)) (lpc_readReg dev 0xf7 7))"
    by (simp add: lpc_MustRead8_def lpc_addr_wfs lpc_sent_def lpc_wfs_1 lpc_wfs_append thn_assoc)
  from lpc_sent_run [OF dev inv a, of "[]" c 0] obtain l1 p1 where
    s1: "lpc_wfs c dev (lpc_sent a 0 @ []) (l, p) = (Inr (), (l1, p1))" "lpc_inv port view (l1, p1)"
      "sio_bus (view p1) = sio_bus (view p)" "sio_address (view p1) = a" "sio_reg (view p1) 0xf8 = 0"
    by auto
  from lpc_trigger_run [OF dev s1(2)] obtain u l2 p2 where
    s2: "thn (lpc_ctrl dev 0xfe) (lpc_r dev) (l1, p1) = (Inr u, (l2, p2))" "lpc_off l2 = port"
      "lpc_f l2 = lpc_f l1" and v2: "view p2 = sio_get B ((view p1)\<lparr>sio_idx := 0xfe\<rparr>)" by blast
  let ?r = "(sio_reg (view p1))(0xf7 := v)"
  have r2: "sio_reg (view p2) = ?r" "sio_bus (view p2) = b" "sio_active (view p2)"
    using v2 s1 bus
    by (auto simp: sio_get_def lpc_inv_def sio_active_def sio_open_def sio_address_def)
  have f2: "length (lpc_f l2) = 9" using s1(2) s2(3) by (simp add: lpc_inv_def)
  from lpc_readReg_run [OF dev _ _ _ s2(2) f2 r2(3), of 7 7 "0xf7"] obtain l7 p7 where
    s7: "lpc_readReg dev 0xf7 7 (l2, p2) = (Inr v, (l7, p7))" "lpc_off l7 = port"
      "lpc_f l7 = (lpc_f l2)[7 := v]" "sio_reg (view p7) = ?r"
      "sio_bus (view p7) = b" "sio_active (view p7)"
    by (auto simp: r2)
  moreover have "lpc_inv port view (l7, p7)"
    using s1(2) s7 s2 by (simp add: lpc_inv_def freg_updates del: map_eq_conv fun_upd_apply)
  ultimately show ?thesis
    using s1(1) s2(1) by (simp add: eq thn_def bnd_def)
qed

section \<open>The contract\<close>

theorem lpc_mem_contract:
  assumes dev: "sio_device dev port view B"
  shows "mem_contract (lpcMem c dev) (lpc_inv port view) (lpc_bus view) (ahb_provider B)"
proof
  fix a :: uintptr and v :: u32 and b :: u8
  assume a: "soc_addr a"
  show "sim (lpc_inv port view) (lpc_bus view) (MustRead32 (lpcMem c dev) a) (MustRead32 (ahb_provider B) a)"
  proof (rule simI)
    fix s :: "'a lpcState" assume "lpc_inv port view s"
    with lpc_MustRead32_run [OF dev _ a surjective_pairing, of "fst s" "snd s" c] show
      "\<exists>s'. MustRead32 (lpcMem c dev) a s = (fst (MustRead32 (ahb_provider B) a (lpc_bus view s)), s') \<and>
        lpc_bus view s' = snd (MustRead32 (ahb_provider B) a (lpc_bus view s)) \<and> lpc_inv port view s'"
      by (fastforce simp: lpcMem_def ahb_provider_runs lpc_bus_def split: prod.splits)
  qed
  show "sim (lpc_inv port view) (lpc_bus view) (MustRead8 (lpcMem c dev) a) (MustRead8 (ahb_provider B) a)"
  proof (rule simI)
    fix s :: "'a lpcState" assume "lpc_inv port view s"
    with lpc_MustRead8_run [OF dev _ a surjective_pairing, of "fst s" "snd s" c] show
      "\<exists>s'. MustRead8 (lpcMem c dev) a s = (fst (MustRead8 (ahb_provider B) a (lpc_bus view s)), s') \<and>
        lpc_bus view s' = snd (MustRead8 (ahb_provider B) a (lpc_bus view s)) \<and> lpc_inv port view s'"
      by (fastforce simp: lpcMem_def ahb_provider_runs lpc_bus_def split: prod.splits)
  qed
  show "sim (lpc_inv port view) (lpc_bus view) (MustWrite32 (lpcMem c dev) a v) (MustWrite32 (ahb_provider B) a v)"
  proof (rule simI)
    fix s :: "'a lpcState" assume "lpc_inv port view s"
    with lpc_MustWrite32_run [OF dev _ a, of "fst s" "snd s" c v] show
      "\<exists>s'. MustWrite32 (lpcMem c dev) a v s = (fst (MustWrite32 (ahb_provider B) a v (lpc_bus view s)), s') \<and>
        lpc_bus view s' = snd (MustWrite32 (ahb_provider B) a v (lpc_bus view s)) \<and> lpc_inv port view s'"
      by (fastforce simp: lpcMem_def ahb_provider_runs lpc_bus_def split: prod.splits)
  qed
  show "sim (lpc_inv port view) (lpc_bus view) (MustWrite8 (lpcMem c dev) a b) (MustWrite8 (ahb_provider B) a b)"
  proof (rule simI)
    fix s :: "'a lpcState" assume "lpc_inv port view s"
    with lpc_MustWrite8_run [OF dev _ a, of "fst s" "snd s" c b] show
      "\<exists>s'. MustWrite8 (lpcMem c dev) a b s = (fst (MustWrite8 (ahb_provider B) a b (lpc_bus view s)), s') \<and>
        lpc_bus view s' = snd (MustWrite8 (ahb_provider B) a b (lpc_bus view s)) \<and> lpc_inv port view s'"
      by (fastforce simp: lpcMem_def ahb_provider_runs lpc_bus_def split: prod.splits)
  qed
qed

lemma sio_ports_device: "sio_device (sio_ports port B) port (\<lambda>m. m) B"
  by (simp add: sio_device_def sio_ports_def)

interpretation lpc: mem_contract "lpcMem c (sio_ports port B)" "lpc_inv port (\<lambda>m. m)"
    "lpc_bus (\<lambda>m. m)" "ahb_provider B" for c port B
  by (rule lpc_mem_contract [OF sio_ports_device])

section \<open>Opening the provider\<close>

lemma lpc_clear_run:
  assumes dev: "sio_device dev port view B" and i: "0 \<le> i" "i < 9"
    and m: "lpc_off l = port" "sio_open (view p)" "sio_ldn (view p) = 0x0d"
  shows "\<exists>l' p'. thn (lpc_ctrl dev (word_of_int (0xf0 + i))) (lpc_w dev 0) (l, p) = (Inr (), (l', p')) \<and>
           lpc_off l' = port \<and> lpc_f l' = lpc_f l \<and> sio_open (view p') \<and> sio_ldn (view p') = 0x0d \<and>
           sio_reg (view p') = (sio_reg (view p))(0xf0 + of_nat (nat i) := 0) \<and>
           sio_bus (view p') = sio_bus (view p)"
proof -
  obtain n where n: "i = int n" "n < 9" using i by (metis nonneg_int_cases of_nat_less_iff of_nat_numeral)
  then show ?thesis
    using m by (simp add: thn_def bnd_def lpc_ctrl_def lpc_w_def sio_deviceD [OF dev] sio_index_def
        sio_put_def sio_open_def)
qed

lemma lpc_clears_run:
  assumes dev: "sio_device dev port view B" and xs: "\<forall>i \<in> set xs. 0 \<le> i \<and> i < 9"
    and m: "lpc_off l = port" "sio_open (view p)" "sio_ldn (view p) = 0x0d"
  shows "\<exists>l' p'. forM (\<lambda>i. thn (lpc_ctrl dev (word_of_int (0xf0 + i))) (lpc_w dev 0)) xs (l, p) =
             (Inr (), (l', p')) \<and>
           lpc_off l' = port \<and> lpc_f l' = lpc_f l \<and> sio_open (view p') \<and> sio_ldn (view p') = 0x0d \<and>
           sio_reg (view p') = fold (\<lambda>i r. r(0xf0 + of_nat (nat i) := 0)) xs (sio_reg (view p)) \<and>
           sio_bus (view p') = sio_bus (view p)"
  using xs m
proof (induction xs arbitrary: l p)
  case Nil
  then show ?case by (simp add: ret_def)
next
  case (Cons i xs)
  then have i: "0 \<le> i" "i < 9" by simp_all
  from lpc_clear_run [OF dev i Cons.prems(2,3,4)] obtain l1 p1 where
    c: "thn (lpc_ctrl dev (word_of_int (0xf0 + i))) (lpc_w dev 0) (l, p) = (Inr (), (l1, p1))"
      "lpc_off l1 = port" "lpc_f l1 = lpc_f l" "sio_open (view p1)" "sio_ldn (view p1) = 0x0d"
      "sio_reg (view p1) = (sio_reg (view p))(0xf0 + of_nat (nat i) := 0)"
      "sio_bus (view p1) = sio_bus (view p)" by blast
  have "\<forall>i \<in> set xs. 0 \<le> i \<and> i < 9" using Cons.prems(1) by simp
  from Cons.IH [OF this c(2,4,5)] c(3,6,7) show ?case
    by (simp only: forM.simps fold_simps thn_run(1) [where m = "thn (lpc_ctrl dev (word_of_int (0xf0 + i))) (lpc_w dev 0)", OF c(1)])
qed

lemma lpc_unlock_run:
  assumes dev: "sio_device dev port view B" and l: "lpc_off l = port" and k: "sio_key (view p) = 0"
  shows "\<exists>l' p'. thn (lpc_unlock dev) (lpc_selectDevice dev 0xd) (l, p) = (Inr (), (l', p')) \<and>
           lpc_off l' = port \<and> lpc_f l' = lpc_f l \<and> sio_open (view p') \<and> sio_ldn (view p') = 0x0d \<and>
           sio_bus (view p') = sio_bus (view p)"
  using l k
  by (simp add: lpc_unlock_def lpc_selectDevice_def thn_def bnd_def lpc_ctrl_def lpc_w_def
      sio_deviceD [OF dev] sio_index_def sio_put_def sio_open_def)

lemma openLpcMemory_run:
  assumes dev: "sio_device dev port view B" and k: "sio_key (view p) = 0"
  shows "\<exists>s. openLpcMemory c dev port (l, p) = (Inr (lpcMem c dev), s) \<and> lpc_inv port view s \<and>
           lpc_bus view s = sio_bus (view p)"
proof -
  let ?l = "\<lparr>lpc_off = port, lpc_f = replicate 9 0, wr_count = 0, rd_count = 0, cached_wr_count = 0\<rparr>"
  let ?clear = "forM (\<lambda>i. thn (lpc_ctrl dev (word_of_int (0xf0 + i))) (lpc_w dev 0)) [0..8]"
  from lpc_unlock_run [OF dev, of ?l p] k obtain l1 p1 where
    u: "thn (lpc_unlock dev) (lpc_selectDevice dev 0xd) (?l, p) = (Inr (), (l1, p1))"
      "lpc_off l1 = port" "lpc_f l1 = replicate 9 0" "sio_open (view p1)" "sio_ldn (view p1) = 0x0d"
      "sio_bus (view p1) = sio_bus (view p)" by auto
  from lpc_clears_run [OF dev _ u(2,4,5), of "[0..8]"] obtain l2 p2 where
    c: "?clear (l1, p1) = (Inr (), (l2, p2))" "lpc_off l2 = port" "lpc_f l2 = lpc_f l1"
      "sio_open (view p2)" "sio_ldn (view p2) = 0x0d"
      "sio_reg (view p2) = fold (\<lambda>i r. r(0xf0 + of_nat (nat i) := 0)) [0..8] (sio_reg (view p1))"
      "sio_bus (view p2) = sio_bus (view p1)"
    by auto
  have "[0..8] = [0, 1, 2, 3, 4, 5, 6, 7, 8 :: int]" by (simp add: upto_rec1)
  then have r: "sio_reg (view p2) (0xf0 + of_nat i) = 0" if "i < 9" for i
    using that by (auto simp: c(6) less_Suc_eq numeral_nat simp del: of_nat_Suc)
  have "openLpcMemory c dev port (l, p) =
      thn (thn (lpc_unlock dev) (lpc_selectDevice dev 0xd))
        (thn ?clear (thn (lpc_enable dev) (ret (lpcMem c dev)))) (?l, p)"
    using sio_deviceD(5) [OF dev] by (simp add: openLpcMemory_def thn_assoc)
  also have "\<dots> = thn (lpc_enable dev) (ret (lpcMem c dev)) (l2, p2)"
    by (simp only: thn_run(1) [where m = "thn (lpc_unlock dev) (lpc_selectDevice dev 0xd)", OF u(1)]
        thn_run(1) [where m = ?clear, OF c(1)])
  finally show ?thesis
    using c u r
    by (simp add: lpc_enable_def thn_def bnd_def ret_def lpc_ctrl_def lpc_w_def sio_deviceD [OF dev]
        sio_index_def sio_put_def sio_open_def lpc_inv_def lpc_bus_def sio_active_def
        list_eq_iff_nth_eq)
qed

section \<open>Properties\<close>



end
