(* ===== verification/Scu.thy ===== *)
theory Scu
  imports Mem
begin

text \<open>
  The system control unit and the watchdogs (\<^verbatim>\<open>pkg/aspeed/scu.go\<close>, \<^verbatim>\<open>wdt.go\<close>) and the opening
  of the library (\<^verbatim>\<open>ast.go\<close>). The operations are programs over any memory provider. Their
  effect is stated on \<open>soc_ahb\<close>, a bus with the protection the code's comments describe: the
  registers of the SCU ignore writes unless the last value written to SCU00 was the password.
\<close>

unbundle bit_operations_syntax

section \<open>Registers\<close>

definition scuRegs :: "(u32 \<times> string) list" where
  "scuRegs =
    [(0x00, ''Protection Key Register''),
     (0x04, ''System Reset Control Register''),
     (0x08, ''Clock Selection Register''),
     (0x0C, ''Clock Stop Control Register''),
     (0x10, ''Frequency Counter Control Register''),
     (0x14, ''Frequency Counter Measurement Register''),
     (0x18, ''Interrupt Control and Status Register''),
     (0x1C, ''D2-PLL Parameter Register''),
     (0x20, ''M-PLL Parameter Register''),
     (0x24, ''H-PLL Parameter Register''),
     (0x28, ''Frequency counter comparison range''),
     (0x2C, ''Misc. Control Register''),
     (0x30, ''PCI Configuration Setting Register #1''),
     (0x34, ''PCI Configuration Setting Register #2''),
     (0x38, ''PCI Configuration Setting Register #3''),
     (0x3C, ''System Reset Control/Status Register''),
     (0x40, ''SOC Scratch Register #1''),
     (0x44, ''SOC Scratch Register #2''),
     (0x48, ''MAC Interface Clock Delay Setting''),
     (0x4C, ''Misc. 2 Control Register''),
     (0x50, ''VGA Scratch Register #1''),
     (0x54, ''VGA Scratch Register #2''),
     (0x58, ''VGA Scratch Register #3''),
     (0x5C, ''VGA Scratch Register #4''),
     (0x60, ''VGA Scratch Register #5''),
     (0x64, ''VGA Scratch Register #6''),
     (0x68, ''VGA Scratch Register #7''),
     (0x6C, ''VGA Scratch Register #8''),
     (0x70, ''Hardware Strapping Register''),
     (0x74, ''Random Number Generator Control''),
     (0x78, ''Random Number Generator Data Output''),
     (0x7C, ''Silicon Revision ID Register''),
     (0x80, ''Multi-function Pin Control #1''),
     (0x84, ''Multi-function Pin Control #2''),
     (0x88, ''Multi-function Pin Control #3''),
     (0x8C, ''Multi-function Pin Control #4''),
     (0x90, ''Multi-function Pin Control #5''),
     (0x94, ''Multi-function Pin Control #6''),
     (0x9C, ''Watchdog Reset Selection''),
     (0xA0, ''Multi-function Pin Control #7''),
     (0xA4, ''Multi-function Pin Control #8''),
     (0xA8, ''Multi-function Pin Control #9''),
     (0xC0, ''Power Saving Wakeup Enable Register''),
     (0xC4, ''Power Saving Wakeup Control Register''),
     (0xD0, ''Hardware Strapping Register Set 2''),
     (0xE0, ''SCU Free Run Counter Read Back #4''),
     (0xE4, ''SCU Free Run Counter Extended Read Back #4''),
     (0x100, ''Coprocessor (CPU2) Control Register'')]"

text \<open>A lookup in a Go map gives the zero value when the key is missing.\<close>

definition ScuRegisterToFunction :: "u32 \<Rightarrow> string" where
  "ScuRegisterToFunction r = (case map_of scuRegs r of None \<Rightarrow> [] | Some n \<Rightarrow> n)"

definition SCU_PASSWORD :: u32 where "SCU_PASSWORD = 0x1688A8A8"

definition SCU_BASE :: uintptr where "SCU_BASE = 0x1E6E2000"

definition SCU_DEFAULT_RESET :: u32 where "SCU_DEFAULT_RESET = 0xFFCFFEDC"

section \<open>Watchdogs\<close>

definition WDT1_RLD_CTR :: uintptr where "WDT1_RLD_CTR = 0x1e785004"

definition WDT1_RESTART :: uintptr where "WDT1_RESTART = 0x1e785008"

definition WDT1_CTRL :: uintptr where "WDT1_CTRL = 0x1e78500c"

definition WDT2_CTRL :: uintptr where "WDT2_CTRL = 0x1e78502c"

definition WDT2_TMOUT_CLR :: uintptr where "WDT2_TMOUT_CLR = 0x1e785034"

definition WDT_RESTART_PASSWORD :: u32 where "WDT_RESTART_PASSWORD = 0x4755"

definition DisableWdt :: "'s Ast \<Rightarrow> ('s, unit) io" where
  "DisableWdt a = thn (MustWrite32 (Mem a) WDT1_CTRL 0) (MustWrite32 (Mem a) WDT2_CTRL 0)"

definition EnableWdt :: "'s Ast \<Rightarrow> ('s, unit) io" where
  "EnableWdt a =
     thn (MustWrite32 (Mem a) WDT2_TMOUT_CLR 0x1) (MustWrite32 (Mem a) WDT2_CTRL 0x82)"

definition ResetCpu :: "'s Ast \<Rightarrow> ('s, unit) io" where
  "ResetCpu a =
     thn (MustWrite32 (Mem a) WDT1_RLD_CTR 16)
    (thn (MustWrite32 (Mem a) WDT1_RESTART WDT_RESTART_PASSWORD)
         (MustWrite32 (Mem a) WDT1_CTRL 0x3))"

section \<open>System control unit\<close>

definition unlockScuWriteAccess :: "'s Ast \<Rightarrow> ('s, unit) io" where
  "unlockScuWriteAccess a = MustWrite32 (Mem a) (SCU_BASE + 0) SCU_PASSWORD"

definition lockScuWriteAccess :: "'s Ast \<Rightarrow> ('s, unit) io" where
  "lockScuWriteAccess a = MustWrite32 (Mem a) (SCU_BASE + 0) 0x0"

definition GetHardwareStrapping :: "'s Ast \<Rightarrow> ('s, u32) io" where
  "GetHardwareStrapping a = MustRead32 (Mem a) (SCU_BASE + 0x70)"

definition GetSiliconRevision :: "'s Ast \<Rightarrow> ('s, u32) io" where
  "GetSiliconRevision a = MustRead32 (Mem a) (SCU_BASE + 0x7C)"

definition modelNames :: "(u32 \<times> string) list" where
  "modelNames =
    [(0x00000102, ''AST2200-A0/A1''),
     (0x00000200, ''AST1100-A0 or AST2050-A0''),
     (0x00000201, ''AST1100-A1 or AST2050-A1''),
     (0x00000202, ''AST1100-A2/3 or AST2050-A2/3 or AST2150-A0/1''),
     (0x00000300, ''AST2100-A0''),
     (0x00000301, ''AST2100-A1''),
     (0x00000302, ''AST2100-A2/3''),
     (0x01000003, ''AST2300-A0''),
     (0x01010003, ''AST1300-A1''),
     (0x01010203, ''AST1050-A1''),
     (0x01010303, ''AST2300-A1''),
     (0x02000303, ''AST2400-A0''),
     (0x02010103, ''AST1400-A1''),
     (0x02010303, ''AST1250-A1 or AST2400-A1''),
     (0x04000303, ''AST2500-A0''),
     (0x04000103, ''AST2510-A0''),
     (0x04000203, ''AST2520-A0''),
     (0x04000403, ''AST2530-A0''),
     (0x04010303, ''AST2500-A1''),
     (0x04010103, ''AST2510-A1''),
     (0x04010203, ''AST2520-A1''),
     (0x04010403, ''AST2530-A1''),
     (0x04030303, ''AST2500-A2''),
     (0x04030103, ''AST2510-A2''),
     (0x04030203, ''AST2520-A2''),
     (0x04030403, ''AST2530-A2'')]"

text \<open>The name, or the error that carries the unknown revision.\<close>

definition ModelName :: "'s Ast \<Rightarrow> ('s, u32 + string) io" where
  "ModelName a = bnd (GetSiliconRevision a) (\<lambda>rv.
     case map_of modelNames rv of Some name \<Rightarrow> ret (Inr name) | None \<Rightarrow> ret (Inl rv))"

definition IsSpiMaster :: "'s Ast \<Rightarrow> ('s, bool) io" where
  "IsSpiMaster a = bnd (GetHardwareStrapping a) (\<lambda>v. ret (v AND push_bit 12 1 > 0))"

definition SetSpiMaster :: "'s Ast \<Rightarrow> bool \<Rightarrow> ('s, unit) io" where
  "SetSpiMaster a master =
     thn (unlockScuWriteAccess a)
       (deferring (lockScuWriteAccess a)
         (bnd (GetHardwareStrapping a) (\<lambda>s.
            let v = s AND NOT (push_bit 12 1);
                v = (if master then v OR push_bit 12 1 else v)
            in MustWrite32 (Mem a) (SCU_BASE + 0x70) v)))"

definition setCpuEnable :: "'s Ast \<Rightarrow> bool \<Rightarrow> ('s, unit) io" where
  "setCpuEnable a en =
     thn (unlockScuWriteAccess a)
       (deferring (lockScuWriteAccess a)
         (bnd (GetHardwareStrapping a) (\<lambda>s.
            let v = s AND NOT 3;
                v = (if en then v OR 2 else v OR 3)
            in MustWrite32 (Mem a) (SCU_BASE + 0x70) v)))"

definition FreezeCpu :: "'s Ast \<Rightarrow> ('s, unit) io" where
  "FreezeCpu a = thn (setCpuEnable a False) (DisableWdt a)"

definition UnfreezeCpu :: "'s Ast \<Rightarrow> ('s, unit) io" where
  "UnfreezeCpu a = thn (setCpuEnable a True) (EnableWdt a)"

definition SetResetControl :: "'s Ast \<Rightarrow> u32 \<Rightarrow> ('s, unit) io" where
  "SetResetControl a v =
     thn (unlockScuWriteAccess a)
       (deferring (lockScuWriteAccess a) (MustWrite32 (Mem a) (SCU_BASE + 0x4) v))"

text \<open>\<^verbatim>\<open>Open\<close>, with the provider that \<^verbatim>\<open>openMem\<close> gives on the platform.\<close>

definition Open :: "('s, 's memProvider) io \<Rightarrow> ('s, 's Ast) io" where
  "Open openMem = bnd openMem (\<lambda>mem.
     let a = OpenWithMemory mem in
     bnd (ModelName a) (\<lambda>r.
       case r of Inl rv \<Rightarrow> raise (LogPanic ''could not detect supported SOC'') | Inr name \<Rightarrow> ret a))"

section \<open>A bus with a protected SCU\<close>

record soc =
  soc_unlocked :: bool
  soc_regs :: "uintptr \<Rightarrow> u32"

definition in_scu :: "uintptr \<Rightarrow> bool" where
  "in_scu a \<longleftrightarrow> SCU_BASE \<le> a \<and> a < SCU_BASE + 0x1000"

definition soc_reg :: "soc \<Rightarrow> uintptr \<Rightarrow> u32" where
  "soc_reg s a = (if a = SCU_BASE then (if soc_unlocked s then 1 else 0) else soc_regs s a)"

definition soc_set :: "soc \<Rightarrow> uintptr \<Rightarrow> u32 \<Rightarrow> soc" where
  "soc_set s a v =
     (if a = SCU_BASE then s\<lparr>soc_unlocked := (v = SCU_PASSWORD)\<rparr>
      else if in_scu a \<and> \<not> soc_unlocked s then s
      else s\<lparr>soc_regs := (soc_regs s)(a := v)\<rparr>)"

text \<open>A byte access works on the word that holds the byte.\<close>

definition soc_ahb :: "soc ahb" where
  "soc_ahb =
     \<lparr>ahb_read32 = (\<lambda>a s. (soc_reg s a, s)),
      ahb_read8 = (\<lambda>a s. (le32 (soc_reg s (a AND NOT 3)) ! unat (a AND 3), s)),
      ahb_write32 = (\<lambda>a v s. soc_set s a v),
      ahb_write8 = (\<lambda>a b s.
        soc_set s (a AND NOT 3) (of_le32 ((le32 (soc_reg s (a AND NOT 3)))[unat (a AND 3) := b])))\<rparr>"

abbreviation soc_ast :: "soc Ast" where
  "soc_ast \<equiv> OpenWithMemory (ahb_provider soc_ahb)"

section \<open>The operations through any provider\<close>

lemma Mem_OpenWithMemory [simp]: "Mem (OpenWithMemory m) = m"
  by (simp add: Mem_def OpenWithMemory_def)

lemma scu_addrs [simp]:
  "soc_addr (SCU_BASE + 0)" "soc_addr SCU_BASE" "soc_addr (SCU_BASE + 0x4)" "soc_addr (SCU_BASE + 0x70)"
  "soc_addr (SCU_BASE + 0x7C)"
  "soc_addr WDT1_RLD_CTR" "soc_addr WDT1_RESTART" "soc_addr WDT1_CTRL" "soc_addr WDT2_CTRL"
  "soc_addr WDT2_TMOUT_CLR"
  by (simp_all add: soc_addr_def SCU_BASE_def WDT1_RLD_CTR_def WDT1_RESTART_def WDT1_CTRL_def
      WDT2_CTRL_def WDT2_TMOUT_CLR_def)

lemmas wdt_ops = DisableWdt_def EnableWdt_def ResetCpu_def

lemmas scu_ops =
  unlockScuWriteAccess_def lockScuWriteAccess_def GetHardwareStrapping_def GetSiliconRevision_def
  IsSpiMaster_def SetSpiMaster_def setCpuEnable_def SetResetControl_def

text \<open>Whatever the provider, an operation does to its bus what it does to the bus directly.\<close>

context mem_contract
begin

lemma sim_ModelName: "sim inv bus (ModelName (OpenWithMemory P)) (ModelName (OpenWithMemory B))"
  unfolding ModelName_def scu_ops Mem_OpenWithMemory
  by (intro sim_rules sim_calls) (auto intro!: sim_rules sim_calls split: option.split)

lemma sim_IsSpiMaster: "sim inv bus (IsSpiMaster (OpenWithMemory P)) (IsSpiMaster (OpenWithMemory B))"
  unfolding scu_ops Mem_OpenWithMemory by (intro sim_rules sim_calls) simp

lemma sim_SetSpiMaster:
  "sim inv bus (SetSpiMaster (OpenWithMemory P) m) (SetSpiMaster (OpenWithMemory B) m)"
  unfolding scu_ops Mem_OpenWithMemory Let_def by (intro sim_rules sim_calls) simp_all

lemma sim_setCpuEnable:
  "sim inv bus (setCpuEnable (OpenWithMemory P) e) (setCpuEnable (OpenWithMemory B) e)"
  unfolding scu_ops Mem_OpenWithMemory Let_def by (intro sim_rules sim_calls) simp_all

lemma sim_SetResetControl:
  "sim inv bus (SetResetControl (OpenWithMemory P) v) (SetResetControl (OpenWithMemory B) v)"
  unfolding scu_ops Mem_OpenWithMemory by (intro sim_rules sim_calls) simp_all

lemma sim_wdt:
  "sim inv bus (DisableWdt (OpenWithMemory P)) (DisableWdt (OpenWithMemory B))"
  "sim inv bus (EnableWdt (OpenWithMemory P)) (EnableWdt (OpenWithMemory B))"
  "sim inv bus (ResetCpu (OpenWithMemory P)) (ResetCpu (OpenWithMemory B))"
  unfolding wdt_ops Mem_OpenWithMemory by (intro sim_rules sim_calls; simp)+

lemma sim_FreezeCpu: "sim inv bus (FreezeCpu (OpenWithMemory P)) (FreezeCpu (OpenWithMemory B))"
  unfolding FreezeCpu_def by (intro sim_rules sim_setCpuEnable sim_wdt)

lemma sim_UnfreezeCpu: "sim inv bus (UnfreezeCpu (OpenWithMemory P)) (UnfreezeCpu (OpenWithMemory B))"
  unfolding UnfreezeCpu_def by (intro sim_rules sim_setCpuEnable sim_wdt)

end

section \<open>The operations on the protected bus\<close>

lemma soc_runs [io_simps]:
  "MustRead32 (ahb_provider soc_ahb) a s = (Inr (soc_reg s a), s)"
  "MustWrite32 (ahb_provider soc_ahb) a v s = (Inr (), soc_set s a v)"
  by (simp_all add: ahb_provider_runs soc_ahb_def)

text \<open>The registers outside the SCU keep what is written.\<close>

definition soc_plain :: "uintptr \<Rightarrow> bool" where
  "soc_plain a \<longleftrightarrow> soc_addr a \<and> \<not> in_scu a"

interpretation soc: register_bus "ahb_provider soc_ahb" soc_plain soc_reg soc_set
proof
  fix a b :: uintptr and v :: u32 and s
  assume "soc_plain a" "soc_plain b"
  moreover have "in_scu SCU_BASE" by (simp add: in_scu_def SCU_BASE_def)
  ultimately show "soc_reg (soc_set s a v) b = (if b = a then v else soc_reg s b)"
    by (auto simp: soc_plain_def soc_reg_def soc_set_def)
qed (simp_all add: soc_runs)

lemma in_scu_offsets [simp]:
  "in_scu (SCU_BASE + 0x4)" "in_scu (SCU_BASE + 0x70)" "SCU_BASE + 0x4 \<noteq> SCU_BASE"
  "SCU_BASE + 0x70 \<noteq> SCU_BASE" "SCU_BASE + 0x7C \<noteq> SCU_BASE"
  by (simp_all add: in_scu_def SCU_BASE_def)

lemma not_in_scu [simp]:
  "\<not> in_scu WDT1_RLD_CTR" "\<not> in_scu WDT1_RESTART" "\<not> in_scu WDT1_CTRL" "\<not> in_scu WDT2_CTRL"
  "\<not> in_scu WDT2_TMOUT_CLR"
  "WDT1_CTRL \<noteq> SCU_BASE" "WDT2_CTRL \<noteq> SCU_BASE" "WDT2_TMOUT_CLR \<noteq> SCU_BASE"
  "WDT1_RLD_CTR \<noteq> SCU_BASE" "WDT1_RESTART \<noteq> SCU_BASE"
  by (simp_all add: in_scu_def SCU_BASE_def WDT1_RLD_CTR_def WDT1_RESTART_def WDT1_CTRL_def
      WDT2_CTRL_def WDT2_TMOUT_CLR_def)

lemmas scu_run =
  thn_def bnd_def deferring_def soc_runs soc_set_def soc_reg_def SCU_PASSWORD_def ret_def raise_def

lemma set_bit_or: "set_bit n (w :: 'a :: len word) = w AND NOT (push_bit n 1) OR push_bit n 1"
  by (rule bit_word_eqI) (auto simp: bit_simps)

lemma unset_bit_and: "unset_bit n (w :: 'a :: len word) = w AND NOT (push_bit n 1)"
  by (rule bit_word_eqI) (auto simp: bit_simps)

lemma SetSpiMaster_run:
  "SetSpiMaster soc_ast master s =
     (Inr (), s\<lparr>soc_unlocked := False,
                soc_regs := (soc_regs s)(SCU_BASE + 0x70 :=
                  (if master then set_bit 12 else unset_bit 12) (soc_regs s (SCU_BASE + 0x70)))\<rparr>)"
  by (simp add: scu_ops scu_run unset_bit_and set_bit_or)

lemma IsSpiMaster_run: "IsSpiMaster soc_ast s = (Inr (bit (soc_regs s (SCU_BASE + 0x70)) 12), s)"
proof -
  have "(v AND push_bit 12 1 \<noteq> 0) = bit v 12" for v :: u32
    by (metis and_exp_eq_0_iff_not_bit push_bit_of_1)
  then show ?thesis
    by (simp only: IsSpiMaster_def scu_ops scu_run Mem_OpenWithMemory) (simp add: word_gt_0)
qed

text \<open>The two low strapping bits: 2 boots from SPI flash, 3 stops the CPU.\<close>

definition strap_boot :: "u32 \<Rightarrow> u32 \<Rightarrow> u32" where
  "strap_boot b v = v AND NOT 3 OR b"

lemma setCpuEnable_run:
  "setCpuEnable soc_ast en s =
     (Inr (), s\<lparr>soc_unlocked := False,
                soc_regs := (soc_regs s)(SCU_BASE + 0x70 :=
                  strap_boot (if en then 2 else 3) (soc_regs s (SCU_BASE + 0x70)))\<rparr>)"
  by (simp add: scu_ops scu_run strap_boot_def)

lemma SetResetControl_run:
  "SetResetControl soc_ast v s =
     (Inr (), s\<lparr>soc_unlocked := False, soc_regs := (soc_regs s)(SCU_BASE + 0x4 := v)\<rparr>)"
  by (simp add: scu_ops scu_run)

lemma wdt_runs:
  "DisableWdt soc_ast s = (Inr (), s\<lparr>soc_regs := (soc_regs s)(WDT1_CTRL := 0, WDT2_CTRL := 0)\<rparr>)"
  "EnableWdt soc_ast s = (Inr (), s\<lparr>soc_regs := (soc_regs s)(WDT2_TMOUT_CLR := 1, WDT2_CTRL := 0x82)\<rparr>)"
  by (simp_all add: wdt_ops scu_run)

lemma FreezeCpu_run:
  "FreezeCpu soc_ast s =
     (Inr (), s\<lparr>soc_unlocked := False,
                soc_regs := (soc_regs s)(SCU_BASE + 0x70 := strap_boot 3 (soc_regs s (SCU_BASE + 0x70)),
                                         WDT1_CTRL := 0, WDT2_CTRL := 0)\<rparr>)"
  by (simp add: FreezeCpu_def thn_def bnd_def setCpuEnable_run wdt_runs)

lemma UnfreezeCpu_run:
  "UnfreezeCpu soc_ast s =
     (Inr (), s\<lparr>soc_unlocked := False,
                soc_regs := (soc_regs s)(SCU_BASE + 0x70 := strap_boot 2 (soc_regs s (SCU_BASE + 0x70)),
                                         WDT2_TMOUT_CLR := 1, WDT2_CTRL := 0x82)\<rparr>)"
  by (simp add: UnfreezeCpu_def thn_def bnd_def setCpuEnable_run wdt_runs)

section \<open>Properties\<close>

text \<open>\<^verbatim>\<open>SetSpiMaster\<close> takes effect whether or not the SCU was unlocked, changes bit 12 of the
  strapping register and no other bit or register, and leaves the SCU locked; \<^verbatim>\<open>IsSpiMaster\<close>
  then reports what was set.
\<close>

theorem SetSpiMaster_effect:
  "\<exists>s'. SetSpiMaster soc_ast master s = (Inr (), s') \<and> \<not> soc_unlocked s' \<and>
     soc_regs s' = (soc_regs s)(SCU_BASE + 0x70 :=
       (if master then set_bit 12 else unset_bit 12) (soc_regs s (SCU_BASE + 0x70))) \<and>
     IsSpiMaster soc_ast s' = (Inr master, s')"
  by (simp add: SetSpiMaster_run IsSpiMaster_run bit_simps)

text \<open>\<^verbatim>\<open>FreezeCpu\<close> sets the two CPU strapping bits and stops both watchdogs; a following
  \<^verbatim>\<open>UnfreezeCpu\<close> selects booting from SPI flash, clears the boot source of the second watchdog and
  arms it. The pair changes no other register, keeps the other strapping bits and leaves the SCU
  locked.
\<close>

theorem FreezeCpu_UnfreezeCpu_effect:
  "\<exists>s1 s2. FreezeCpu soc_ast s = (Inr (), s1) \<and> UnfreezeCpu soc_ast s1 = (Inr (), s2) \<and>
     \<not> soc_unlocked s1 \<and> \<not> soc_unlocked s2 \<and>
     soc_regs s1 = (soc_regs s)(SCU_BASE + 0x70 := soc_regs s (SCU_BASE + 0x70) OR 3,
                                WDT1_CTRL := 0, WDT2_CTRL := 0) \<and>
     soc_regs s2 = (soc_regs s)(SCU_BASE + 0x70 := soc_regs s (SCU_BASE + 0x70) AND NOT 3 OR 2,
                                WDT1_CTRL := 0, WDT2_TMOUT_CLR := 1, WDT2_CTRL := 0x82)"
proof -
  have m: "(3 :: u32) = mask 2" by (simp add: mask_eq_exp_minus_1)
  have 1: "strap_boot 3 v = v OR 3" for v
    by (rule bit_word_eqI) (auto simp: strap_boot_def m bit_simps)
  have 2: "strap_boot 2 (v OR 3) = v AND NOT 3 OR 2" for v
    by (rule bit_word_eqI) (auto simp: strap_boot_def m bit_simps)
  show ?thesis
    by (simp add: FreezeCpu_run UnfreezeCpu_run 1 2 fun_eq_iff)
      (simp add: SCU_BASE_def WDT1_CTRL_def WDT2_CTRL_def WDT2_TMOUT_CLR_def)
qed



end
