(* ===== verification/Pwm.thy ===== *)
theory Pwm
  imports Scu
begin

text \<open>
  Fans (\<^verbatim>\<open>pkg/aspeed/pwm.go\<close>): the register dump, the tachometer measurement and the duty cycle.
  The measurement polls the result register in a loop without a bound, so its model takes fuel
  and ends with \<open>NoReturn\<close> when it runs out. Go's \<^verbatim>\<open>int\<close> is 32 bits on the BMC and 64 bits on the
  host; its width \<open>w\<close> is a parameter, and the products wrap at it.
\<close>

unbundle bit_operations_syntax

definition PWM_BASE :: uintptr where "PWM_BASE = 0x1e786000"

text \<open>The dump: the lines that are printed, each a label with the register's value.\<close>

definition pwmDumpRegs :: "(uintptr \<times> string) list" where
  "pwmDumpRegs =
    [(0x0, '' PTCR00: General Control Register              ''),
     (0x4, '' PTCR04: Clock Control Register                ''),
     (0x8, '' PTCR08: Duty Control 0 Register               ''),
     (0xc, '' PTCR0C: Duty Control 1 Register               ''),
     (0x10, '' PTCR10: Type M Control 0 Register             ''),
     (0x14, '' PTCR14: Type M Control 1 Register             ''),
     (0x18, '' PTCR18: Type N Control 0 Register             ''),
     (0x1c, '' PTCR1C: Type N Control 1 Register             ''),
     (0x20, '' PTCR20: Tach Source Register                  ''),
     (0x28, '' PTCR28: Trigger Register                      ''),
     (0x2c, '' PTCR2C: Result Register                       ''),
     (0x30, '' PTCR30: Interrupt Control Register            ''),
     (0x34, '' PTCR34: Interrupt Status Register             ''),
     (0x38, '' PTCR38: Type M Limit Register                 ''),
     (0x3C, '' PTCR3C: Type N Limit Register                 ''),
     (0x40, '' PTCR40: General Control Extension #1 Register ''),
     (0x44, '' PTCR44: Clock Control Extension #1 Register   ''),
     (0x48, '' PTCR48: Duty Control 2 Register               ''),
     (0x4C, '' PTCR4C: Duty Control 3 Register               ''),
     (0x50, '' PTCR50: Type O Control 0 Register             ''),
     (0x54, '' PTCR54: Type O Control 1 Register             ''),
     (0x60, '' PTCR60: Tach Source Extension #1 Register     ''),
     (0x78, '' PTCR78: Type O Limit Register                 '')]"

definition DumpPwm :: "'s Ast \<Rightarrow> ('s, (string \<times> u32) list) io" where
  "DumpPwm a = mapM (\<lambda>(off, label).
     bnd (MustRead32 (Mem a) (PWM_BASE + off)) (\<lambda>v. ret (label, v))) pwmDumpRegs"

fun pollResult :: "nat \<Rightarrow> 's Ast \<Rightarrow> u32 \<Rightarrow> ('s, u32) io" where
  "pollResult 0 a v = (if v AND push_bit 31 1 = 0 then raise NoReturn else ret v)"
| "pollResult (Suc n) a v =
     (if v AND push_bit 31 1 = 0
      then bnd (MustRead32 (Mem a) (PWM_BASE + 0x2c)) (\<lambda>v. pollResult n a v)
      else ret v)"

text \<open>The tachometer divider read from the type M control register.\<close>

definition tachDiv :: "nat \<Rightarrow> u32 \<Rightarrow> int" where
  "tachDiv w ctrl =
     (let d = wrap w (push_bit (unat ((drop_bit 1 ctrl AND 0x7) * 2)) 4) in
      if ctrl AND 0x20 \<noteq> 0 then wrap w (d * 2) else d)"

text \<open>Go's \<^verbatim>\<open>/\<close>: it truncates towards zero and panics on a zero divisor.\<close>

definition go_div :: "int \<Rightarrow> int \<Rightarrow> ('s, int) io" where
  "go_div x y = (if y = 0 then raise DividePanic else ret (x sdiv y))"

definition MeasureFanRpm :: "nat \<Rightarrow> nat \<Rightarrow> 's Ast \<Rightarrow> nat \<Rightarrow> ('s, int) io" where
  "MeasureFanRpm w fuel a fan =
     thn (MustWrite32 (Mem a) (PWM_BASE + 0x28) 0)
    (thn (MustWrite32 (Mem a) (PWM_BASE + 0x28) (push_bit fan 1))
    (bnd (MustRead32 (Mem a) (PWM_BASE + 0x10)) (\<lambda>ctrl.
     let d = tachDiv w ctrl in
     bnd (pollResult fuel a 0) (\<lambda>v.
     let v = v AND NOT (push_bit 31 1) in
     go_div (24 * 1000 * 1000 * 60) (wrap w (wrap w (2 * wrap w (uint v)) * d))))))"

definition SetFanDutyCycle :: "'s Ast \<Rightarrow> nat \<Rightarrow> u8 \<Rightarrow> ('s, unit) io" where
  "SetFanDutyCycle a fan p =
     bnd (MustRead32 (Mem a) (PWM_BASE + 0x8)) (\<lambda>v.
     if fan \<ge> 2 then raise (LogPanic ''fan must be 0 < x < 2'')
     else
       let v = (if fan = 0 then (v AND 0xffff00ff) OR push_bit 8 (ucast p)
                else if fan = 1 then (v AND 0x00ffffff) OR push_bit 24 (ucast p)
                else v)
       in MustWrite32 (Mem a) (PWM_BASE + 0x8) v)"

section \<open>Through any provider\<close>

lemma pwm_addrs [simp]:
  "soc_addr (PWM_BASE + 0x8)" "soc_addr (PWM_BASE + 0x10)" "soc_addr (PWM_BASE + 0x28)"
  "soc_addr (PWM_BASE + 0x2c)"
  by (simp_all add: soc_addr_def PWM_BASE_def)

lemma pwm_dump_addrs: "(off, label) \<in> set pwmDumpRegs \<Longrightarrow> soc_addr (PWM_BASE + off)"
  by (auto simp: pwmDumpRegs_def soc_addr_def PWM_BASE_def)

context mem_contract
begin

lemma sim_pollResult:
  "sim inv bus (pollResult n (OpenWithMemory P) v) (pollResult n (OpenWithMemory B) v)"
  by (induction n arbitrary: v) (auto intro!: sim_rules sim_calls)

lemma sim_MeasureFanRpm:
  "sim inv bus (MeasureFanRpm w n (OpenWithMemory P) fan) (MeasureFanRpm w n (OpenWithMemory B) fan)"
  unfolding MeasureFanRpm_def Mem_OpenWithMemory Let_def go_div_def
  by (intro sim_rules sim_calls sim_pollResult) simp_all

lemma sim_SetFanDutyCycle:
  "sim inv bus (SetFanDutyCycle (OpenWithMemory P) fan p) (SetFanDutyCycle (OpenWithMemory B) fan p)"
  unfolding SetFanDutyCycle_def Mem_OpenWithMemory Let_def
  by (intro sim_rules sim_calls) simp_all

lemma sim_DumpPwm: "sim inv bus (DumpPwm (OpenWithMemory P)) (DumpPwm (OpenWithMemory B))"
  unfolding DumpPwm_def Mem_OpenWithMemory
  by (intro sim_mapM) (auto intro!: sim_rules sim_calls dest: pwm_dump_addrs)

end

section \<open>The duty cycle\<close>

text \<open>A fan owns one byte of the duty control register: byte 1 or byte 3.\<close>

definition dutyByte :: "nat \<Rightarrow> u8 \<Rightarrow> u32 \<Rightarrow> u32" where
  "dutyByte fan p v = of_le32 ((le32 v)[2 * fan + 1 := p])"

lemma bit_0xffff00ff: "bit (0xffff00ff :: u32) n \<longleftrightarrow> n < 32 \<and> \<not> (8 \<le> n \<and> n < 16)"
proof -
  have "(0xffff00ff :: u32) = NOT (push_bit 8 (mask 8))" by (simp add: mask_eq_exp_minus_1)
  then show ?thesis by (simp only: bit_simps) auto
qed

lemma bit_0x00ffffff: "bit (0x00ffffff :: u32) n \<longleftrightarrow> n < 24"
proof -
  have "(0x00ffffff :: u32) = mask 24" by (simp add: mask_eq_exp_minus_1)
  then show ?thesis by (simp only: bit_simps) auto
qed

lemma dutyByte_masks:
  "dutyByte 0 p v = (v AND 0xffff00ff) OR push_bit 8 (ucast p)"
  "dutyByte (Suc 0) p v = (v AND 0x00ffffff) OR push_bit 24 (ucast p)"
proof -
  show "dutyByte 0 p v = (v AND 0xffff00ff) OR push_bit 8 (ucast p)"
  proof (rule bit_word_eqI)
    fix n assume "n < LENGTH(32)"
    then show "bit (dutyByte 0 p v) n = bit ((v AND 0xffff00ff) OR push_bit 8 (ucast p)) n"
      by (cases "n < 8"; cases "n < 16"; cases "n < 24")
        (auto simp: dutyByte_def le32_def bit_simps bit_0xffff00ff simp del: bit_numeral_word_iff)
  qed
  show "dutyByte (Suc 0) p v = (v AND 0x00ffffff) OR push_bit 24 (ucast p)"
  proof (rule bit_word_eqI)
    fix n assume "n < LENGTH(32)"
    then show "bit (dutyByte (Suc 0) p v) n = bit ((v AND 0x00ffffff) OR push_bit 24 (ucast p)) n"
      by (cases "n < 8"; cases "n < 16"; cases "n < 24")
        (auto simp: dutyByte_def le32_def bit_simps bit_0x00ffffff simp del: bit_numeral_word_iff)
  qed
qed

context register_bus
begin

lemma SetFanDutyCycle_reg:
  assumes "plain (PWM_BASE + 0x8)"
  shows "SetFanDutyCycle (OpenWithMemory B) fan p s =
     (if fan < 2 then (Inr (), setreg s (PWM_BASE + 0x8) (dutyByte fan p (reg s (PWM_BASE + 0x8))))
      else (Inl (LogPanic ''fan must be 0 < x < 2''), s))"
proof -
  consider "fan = 0" | "fan = 1" | "2 \<le> fan" by linarith
  then show ?thesis
    by cases (simp_all add: SetFanDutyCycle_def bnd_def read_reg write_reg assms dutyByte_masks raise_def)
qed

end

lemma pwm_plain [simp]: "soc_plain (PWM_BASE + 0x8)"
  by (simp add: soc_plain_def soc_addr_def in_scu_def SCU_BASE_def PWM_BASE_def)

text \<open>\<^verbatim>\<open>SetFanDutyCycle\<close> replaces the byte of the duty control register that belongs to the fan (byte
  1 for fan 0, byte 3 for fan 1), keeps the other fan's byte and every other register, and for any
  other fan panics without a write.
\<close>

theorem SetFanDutyCycle_effect:
  "SetFanDutyCycle soc_ast fan p s =
     (if fan < 2
      then (Inr (), soc_set s (PWM_BASE + 0x8)
              (of_le32 ((le32 (soc_reg s (PWM_BASE + 0x8)))[2 * fan + 1 := p])))
      else (Inl (LogPanic ''fan must be 0 < x < 2''), s))"
  using soc.SetFanDutyCycle_reg [of fan p s] by (simp add: dutyByte_def)

section \<open>The measurement\<close>

text \<open>
  A tachometer: the type M control register, the values the result register shows on successive
  reads (the last one stays), and the values written to the trigger register.
\<close>

record tach =
  tach_ctrl :: u32
  tach_results :: "u32 list"
  tach_triggers :: "u32 list"

definition tach_ahb :: "tach ahb" where
  "tach_ahb =
     \<lparr>ahb_read32 = (\<lambda>a t.
        if a = PWM_BASE + 0x10 then (tach_ctrl t, t)
        else if a = PWM_BASE + 0x2c
        then (case tach_results t of
                [] \<Rightarrow> (0, t)
              | [v] \<Rightarrow> (v, t)
              | v # vs \<Rightarrow> (v, t\<lparr>tach_results := vs\<rparr>))
        else (0, t)),
      ahb_read8 = (\<lambda>a t. (0, t)),
      ahb_write32 = (\<lambda>a v t. if a = PWM_BASE + 0x28 then t\<lparr>tach_triggers := tach_triggers t @ [v]\<rparr> else t),
      ahb_write8 = (\<lambda>a v t. t)\<rparr>"

abbreviation tach_ast :: "tach Ast" where
  "tach_ast \<equiv> OpenWithMemory (ahb_provider tach_ahb)"

lemma tach_runs:
  "MustRead32 (ahb_provider tach_ahb) (PWM_BASE + 0x10) t = (Inr (tach_ctrl t), t)"
  "MustRead32 (ahb_provider tach_ahb) (PWM_BASE + 0x2c) t =
     (case tach_results t of
        [] \<Rightarrow> (Inr 0, t)
      | [v] \<Rightarrow> (Inr v, t)
      | v # vs \<Rightarrow> (Inr v, t\<lparr>tach_results := vs\<rparr>))"
  "MustWrite32 (ahb_provider tach_ahb) (PWM_BASE + 0x28) v t =
     (Inr (), t\<lparr>tach_triggers := tach_triggers t @ [v]\<rparr>)"
  by (simp_all add: ahb_provider_runs tach_ahb_def PWM_BASE_def split: list.split)

lemma and_top_bit: "(v :: u32) AND push_bit 31 1 = 0 \<longleftrightarrow> \<not> bit v 31"
  by (metis and_exp_eq_0_iff_not_bit push_bit_of_1)

lemma tach_poll:
  assumes "tach_results t = xs @ v # ys" "\<forall>x \<in> set xs. \<not> bit x 31" "bit v 31" "\<not> bit u 31"
    and "length xs < n"
  shows "fst (pollResult n tach_ast u t) = Inr v \<and>
         (\<exists>zs. snd (pollResult n tach_ast u t) = t\<lparr>tach_results := zs\<rparr>)"
  using assms
proof (induction xs arbitrary: n t u)
  case Nil
  then obtain m where n: "n = Suc m" by (cases n) auto
  have top: "pollResult m tach_ast v t' = (Inr v, t')" for t'
    using Nil.prems(3) by (cases m) (simp_all only: pollResult.simps and_top_bit, simp_all add: ret_def)
  show ?case
    using Nil.prems unfolding n
    by (cases ys) (simp_all only: pollResult.simps and_top_bit,
        auto simp: bnd_def tach_runs top intro: exI [of _ "tach_results t"])
next
  case (Cons x xs)
  then obtain m where n: "n = Suc m" by (cases n) auto
  obtain z zs where zs: "xs @ v # ys = z # zs" by (cases xs) auto
  let ?t = "t\<lparr>tach_results := xs @ v # ys\<rparr>"
  have "pollResult n tach_ast u t = pollResult m tach_ast x ?t"
    using Cons.prems(1,4) unfolding n
    by (simp only: pollResult.simps and_top_bit)
      (simp add: bnd_def tach_runs zs)
  moreover from Cons.IH [of ?t x m] Cons.prems n
  have "fst (pollResult m tach_ast x ?t) = Inr v \<and>
        (\<exists>zs. snd (pollResult m tach_ast x ?t) = t\<lparr>tach_results := zs\<rparr>)" by simp
  ultimately show ?case by simp
qed

lemma tach_shift: "unat ((drop_bit 1 (ctrl :: u32) AND 0x7) * 2) = 2 * (unat (drop_bit 1 ctrl) mod 8)"
proof -
  have "drop_bit 1 ctrl AND 0x7 = take_bit 3 (drop_bit 1 ctrl)"
    by (simp add: take_bit_eq_mask mask_eq_exp_minus_1)
  then have "unat (drop_bit 1 ctrl AND 0x7) = unat (drop_bit 1 ctrl) mod 8"
    by (simp only: unsigned_take_bit_eq) (simp add: take_bit_eq_mod)
  then show ?thesis by (simp add: unat_word_ariths)
qed

text \<open>The divider as the datasheet has it: a power of four, doubled when both edges count.\<close>

definition tach_divider :: "u32 \<Rightarrow> int" where
  "tach_divider ctrl =
     4 * 4 ^ (unat (drop_bit 1 ctrl) mod 8) * (if bit ctrl 5 then 2 else 1)"

lemma tach_power: "(4 :: int) ^ (n mod 8) \<le> 16384" "(1 :: int) \<le> 4 ^ (n mod 8)" for n :: nat
  using power_increasing [of "n mod 8" 7 "4 :: int"] by simp_all

lemma tach_divider_bounds: "4 \<le> tach_divider ctrl \<and> tach_divider ctrl \<le> 131072"
proof -
  have "4 * p * (if c then 2 else 1) \<ge> 4 \<and> 4 * p * (if c then 2 else 1) \<le> 131072"
    if "p \<le> 16384" "1 \<le> p" for p :: int and c :: bool
    using that by simp
  then show ?thesis unfolding tach_divider_def using tach_power by blast
qed

lemma tachDiv_eq:
  assumes "32 \<le> w"
  shows "tachDiv w ctrl = tach_divider ctrl"
proof -
  let ?k = "unat (drop_bit 1 ctrl) mod 8"
  note k = tach_power [of "unat (drop_bit 1 ctrl)"]
  have w: "(2147483648 :: int) \<le> 2 ^ (w - 1)"
    using assms power_increasing [of 31 "w - 1" "2 :: int"] by simp
  have p: "push_bit (2 * ?k) (4 :: int) = 4 * 4 ^ ?k"
    by (simp add: push_bit_eq_mult power_mult)
  have "wrap w (4 * 4 ^ ?k) = 4 * 4 ^ ?k"
    by (rule wrap_id) (use k w in linarith)+
  moreover have "wrap w (4 * 4 ^ ?k * 2) = 4 * 4 ^ ?k * 2"
    by (rule wrap_id) (use k w in linarith)+
  moreover have "ctrl AND 0x20 \<noteq> 0 \<longleftrightarrow> bit ctrl 5"
    using and_exp_eq_0_iff_not_bit [of ctrl 5] by simp
  ultimately show ?thesis
    unfolding tachDiv_def tach_shift p Let_def by (simp add: tach_divider_def)
qed

lemma MeasureFanRpm_run:
  assumes "32 \<le> w" "tach_results t = xs @ v # ys" "\<forall>x \<in> set xs. \<not> bit x 31" "bit v 31"
    and "length xs < n"
  shows "\<exists>zs. MeasureFanRpm w n tach_ast fan t =
     go_div 1440000000
       (wrap w (wrap w (2 * wrap w (uint (v AND NOT (push_bit 31 1)))) * tach_divider (tach_ctrl t)))
       (t\<lparr>tach_triggers := tach_triggers t @ [0, push_bit fan 1], tach_results := zs\<rparr>)"
proof -
  let ?t = "t\<lparr>tach_triggers := tach_triggers t @ [0, push_bit fan 1]\<rparr>"
  have "tach_results ?t = xs @ v # ys" using assms(2) by simp
  from tach_poll [OF this assms(3,4) _ assms(5), of 0] obtain zs where
    "pollResult n tach_ast 0 ?t = (Inr v, ?t\<lparr>tach_results := zs\<rparr>)"
    by (auto simp: prod_eq_iff)
  then show ?thesis
    using assms(1) by (auto simp: MeasureFanRpm_def thn_def bnd_def tach_runs Let_def tachDiv_eq)
qed

lemma uint_low31: "uint ((v :: u32) AND NOT (push_bit 31 1)) = uint v mod 2 ^ 31"
proof -
  have "v AND NOT (push_bit k 1) = unset_bit k v" for k
    by (rule bit_word_eqI) (auto simp: bit_simps)
  then have "v AND NOT (push_bit 31 1) = take_bit 31 v"
    by (simp only:) (rule bit_word_eqI, auto simp: bit_simps)
  then show ?thesis by (simp only: unsigned_take_bit_eq) (simp only: take_bit_eq_mod)
qed

text \<open>\<^verbatim>\<open>MeasureFanRpm\<close> restarts the measurement of the fan (0, then its bit, to the trigger register),
  waits through every result that is not ready, and returns 1440000000 divided by twice the
  product of the count and the tachometer divider, or panics when the count is zero: as long as
  the product fits the \<^verbatim>\<open>int\<close> of the machine, and with enough fuel for the results to wait for.
\<close>

theorem MeasureFanRpm_result:
  assumes "32 \<le> w" "tach_results t = xs @ v # ys" "\<forall>x \<in> set xs. \<not> bit x 31" "bit v 31"
    and "length xs < n"
    and fits: "2 * (uint v mod 2 ^ 31) * tach_divider (tach_ctrl t) < 2 ^ (w - 1)"
  shows "\<exists>zs. MeasureFanRpm w n tach_ast fan t =
     (if uint v mod 2 ^ 31 = 0 then Inl DividePanic
      else Inr (1440000000 div (2 * (uint v mod 2 ^ 31) * tach_divider (tach_ctrl t))),
      t\<lparr>tach_triggers := tach_triggers t @ [0, push_bit fan 1], tach_results := zs\<rparr>)"
proof -
  define c where "c = uint v mod 2 ^ 31"
  define d where "d = tach_divider (tach_ctrl t)"
  have c: "0 \<le> c" by (simp add: c_def)
  have d: "4 \<le> d" using tach_divider_bounds by (simp add: d_def)
  have le: "2 * c * 1 \<le> 2 * c * d" using c d by (intro mult_left_mono) auto
  have fit: "2 * c * d < 2 ^ (w - 1)" using fits by (simp add: c_def d_def)
  have "wrap w c = c" "wrap w (2 * c) = 2 * c" "wrap w (2 * c * d) = 2 * c * d"
    using c d le fit by (auto intro!: wrap_id intro: order_trans [of _ 0])
  then have p: "wrap w (wrap w (2 * wrap w c) * d) = 2 * c * d" by simp
  have "1440000000 sdiv (2 * c * d) = 1440000000 div (2 * c * d)" if "c \<noteq> 0"
    using c d that by (simp add: signed_divide_int_def sgn_mult)
  then have "go_div 1440000000 (2 * c * d) s =
      (if c = 0 then Inl DividePanic else Inr (1440000000 div (2 * c * d)), s)" for s :: tach
    using d by (simp add: go_div_def ret_def raise_def)
  then show ?thesis
    using MeasureFanRpm_run [OF assms(1-5), of fan] p
    by (simp only: uint_low31 flip: c_def d_def)
qed

theorem MeasureFanRpm_result_witness:
  "\<exists>zs. MeasureFanRpm 32 3 tach_ast 1 \<lparr>tach_ctrl = 0, tach_results = [0, 5, 0x80001000], tach_triggers = []\<rparr> =
     (Inr 43945, \<lparr>tach_ctrl = 0, tach_results = zs, tach_triggers = [0, 2]\<rparr>)"
  using MeasureFanRpm_result [of 32 "\<lparr>tach_ctrl = 0, tach_results = [0, 5, 0x80001000], tach_triggers = []\<rparr>"
      "[0, 5]" "0x80001000" "[]" 3 1]
  by (simp add: tach_divider_def)

text \<open>On the BMC, where \<^verbatim>\<open>int\<close> has 32 bits, \<^verbatim>\<open>MeasureFanRpm\<close> panics with a division by zero on a count
  that is not zero: with the divider at 65536 the product of a slow fan's count 32768 is \<open>2 ^ 32\<close>,
  which wraps to zero. With 64 bits the same count gives a result.
\<close>

theorem MeasureFanRpm_wraps_on_32_bits:
  "fst (MeasureFanRpm 32 1 tach_ast 0 \<lparr>tach_ctrl = 0xe, tach_results = [0x80008000], tach_triggers = []\<rparr>) =
     Inl DividePanic \<and>
   fst (MeasureFanRpm 64 1 tach_ast 0 \<lparr>tach_ctrl = 0xe, tach_results = [0x80008000], tach_triggers = []\<rparr>) =
     Inr 0"
proof -
  let ?t = "\<lparr>tach_ctrl = 0xe, tach_results = [0x80008000], tach_triggers = []\<rparr>"
  have d: "tach_divider 0xe = 65536" by (simp add: tach_divider_def)
  have v: "uint ((0x80008000 :: u32) AND NOT (push_bit 31 1)) = 32768"
    by (simp only: uint_low31) simp
  have "wrap 32 (wrap 32 (2 * wrap 32 32768) * 65536) = 0"
    "wrap 64 (wrap 64 (2 * wrap 64 32768) * 65536) = 4294967296"
    by (simp_all add: wrap_def signed_take_bit_int_eq_self)
  with MeasureFanRpm_run [of 32 ?t "[]" "0x80008000" "[]" 1 0]
    MeasureFanRpm_run [of 64 ?t "[]" "0x80008000" "[]" 1 0]
  show ?thesis
    unfolding v by (auto simp: d go_div_def ret_def raise_def)
qed

end
