(* ===== verification/Flash.thy ===== *)
theory Flash
  imports Scu
begin

text \<open>
  The SPI flash that holds the BMC's firmware (\<^verbatim>\<open>pkg/aspeed/flash.go\<close>), driven through the static
  memory controller in user mode. The waits for the chip poll its status without a bound, so
  they take fuel and end with \<open>NoReturn\<close> when it runs out. The chip itself is the machine \<open>mx25\<close>,
  written from the commands the driver uses; on it, reads and writes are shown to have the effect
  that \<^verbatim>\<open>io.ReaderAt\<close> and \<^verbatim>\<open>io.WriterAt\<close> promise.
\<close>

unbundle bit_operations_syntax

section \<open>The driver\<close>

definition CS0_CTRL :: uintptr where "CS0_CTRL = 0x1e620010"

definition CS0_SEGMENT_ADDR :: uintptr where "CS0_SEGMENT_ADDR = 0x1e620030"

definition FLASH_START :: uintptr where "FLASH_START = 0x20000000"

definition SPI_READ_TIMINGS :: uintptr where "SPI_READ_TIMINGS = 0x1e620094"

definition MX25L256_ID :: u32 where "MX25L256_ID = 0x1920c2"

definition OP_ID :: int where "OP_ID = 0x9f"

definition OP_READ_STATUS :: int where "OP_READ_STATUS = 0x05"

definition MX25_OP_WREN :: int where "MX25_OP_WREN = 0x06"

definition MX25_OP_BLOCK_ERASE :: int where "MX25_OP_BLOCK_ERASE = 0xd8"

definition MX25_OP_PAGE_PROGRAM :: int where "MX25_OP_PAGE_PROGRAM = 0x02"

definition MX25_OP_EN4B :: int where "MX25_OP_EN4B = 0xb7"

definition MX25_OP_EX4B :: int where "MX25_OP_EX4B = 0xe9"

definition MX25_OP_FAST_READ :: int where "MX25_OP_FAST_READ = 0x0b"

record 's spiflash =
  sf_mem :: "'s memProvider"
  tCK :: int

datatype flashErr =
    UnknownFlash u32
  | ReadOverflow
  | BufferNotAligned
  | OffsetNotAligned
  | WriteOverflow

definition cs :: "'s spiflash \<Rightarrow> int \<Rightarrow> ('s, unit) io" where
  "cs f h =
     (let cr = word_of_int (push_bit 8 (tCK f AND 0x0f) OR 0x3 OR push_bit 2 h) in
      MustWrite32 (sf_mem f) CS0_CTRL cr)"

text \<open>Sending the byte \<^verbatim>\<open>uint8(x>>k&0xff)\<close>.\<close>

definition sendByte :: "'s spiflash \<Rightarrow> nat \<Rightarrow> int \<Rightarrow> ('s, unit) io" where
  "sendByte f k x = MustWrite8 (sf_mem f) FLASH_START (word_of_int (drop_bit k x AND 0xff))"

definition cmd8 :: "'s spiflash \<Rightarrow> int \<Rightarrow> ('s, unit) io" where
  "cmd8 f cmd = thn (cs f 0) (deferring (cs f 1) (sendByte f 0 cmd))"

definition cmd8Read32 :: "'s spiflash \<Rightarrow> int \<Rightarrow> ('s, u32) io" where
  "cmd8Read32 f cmd =
     thn (cs f 0) (deferring (cs f 1) (thn (sendByte f 0 cmd) (MustRead32 (sf_mem f) FLASH_START)))"

definition cmd8Read8 :: "'s spiflash \<Rightarrow> int \<Rightarrow> ('s, u8) io" where
  "cmd8Read8 f cmd =
     thn (cs f 0) (deferring (cs f 1) (thn (sendByte f 0 cmd) (MustRead8 (sf_mem f) FLASH_START)))"

definition status :: "'s spiflash \<Rightarrow> ('s, u8) io" where
  "status f = cmd8Read8 f OP_READ_STATUS"

definition isReady :: "'s spiflash \<Rightarrow> ('s, bool) io" where
  "isReady f = bnd (status f) (\<lambda>v. ret (v AND 0x1 = 0))"

definition Id :: "'s spiflash \<Rightarrow> ('s, u32) io" where
  "Id f = bnd (cmd8Read32 f OP_ID) (\<lambda>v. ret (v AND 0xffffff))"

text \<open>The loop \<^verbatim>\<open>for !f.isReady() { time.Sleep(...) }\<close>.\<close>

fun waitReady :: "nat \<Rightarrow> 's spiflash \<Rightarrow> ('s, unit) io" where
  "waitReady 0 f = raise NoReturn"
| "waitReady (Suc n) f = bnd (isReady f) (\<lambda>r. if r then ret () else waitReady n f)"

definition newMX25L256Flash :: "'s Ast \<Rightarrow> ('s, 's spiflash) io" where
  "newMX25L256Flash a =
     (let f = \<lparr>sf_mem = Mem a, tCK = 6\<rparr> in thn (cmd8 f MX25_OP_EN4B) (ret f))"

definition SystemFlash :: "nat \<Rightarrow> 's Ast \<Rightarrow> ('s, flashErr + 's spiflash) io" where
  "SystemFlash fuel a =
     thn (MustWrite32 (Mem a) CS0_CTRL 0)
    (thn (MustWrite32 (Mem a) CS0_SEGMENT_ADDR 0x48400000)
    (thn (MustWrite32 (Mem a) SPI_READ_TIMINGS 0)
    (let f = \<lparr>sf_mem = Mem a, tCK = 0\<rparr> in
     thn (waitReady fuel f)
    (bnd (Id f) (\<lambda>i.
     if i = MX25L256_ID then bnd (newMX25L256Flash a) (\<lambda>f. ret (Inr f))
     else ret (Inl (UnknownFlash i)))))))"

definition mx25l256_Close :: "'s spiflash \<Rightarrow> ('s, unit) io" where
  "mx25l256_Close f = cmd8 f MX25_OP_EX4B"

text \<open>The first loop of \<^verbatim>\<open>ReadAt\<close>: four bytes at a time, \<^verbatim>\<open>i < l-3\<close>.\<close>

function readQuads :: "'s spiflash \<Rightarrow> nat \<Rightarrow> nat \<Rightarrow> u8 list \<Rightarrow> ('s, nat \<times> u8 list) io" where
  "readQuads f l i b =
     (if int i < int l - 3
      then bnd (MustRead32 (sf_mem f) FLASH_START) (\<lambda>d.
        readQuads f l (i + 4)
          (b[i := ucast (d AND 0xff),
             i + 1 := ucast (drop_bit 8 d AND 0xff),
             i + 2 := ucast (drop_bit 16 d AND 0xff),
             i + 3 := ucast (drop_bit 24 d AND 0xff)]))
      else ret (i, b))"
  by pat_completeness auto
termination by (relation "measure (\<lambda>(f, l, i, b). l - i)") auto

text \<open>One guarded assignment of the second loop: \<^verbatim>\<open>if i < l { b[i] = byte(d>>k&0xff); i += 1 }\<close>.\<close>

definition tailByte :: "nat \<Rightarrow> u32 \<Rightarrow> nat \<Rightarrow> nat \<times> u8 list \<Rightarrow> nat \<times> u8 list" where
  "tailByte l d k = (\<lambda>(i, b).
     if i < l then (i + 1, b[i := ucast (drop_bit k d AND 0xff)]) else (i, b))"

function readTail :: "'s spiflash \<Rightarrow> nat \<Rightarrow> nat \<Rightarrow> u8 list \<Rightarrow> ('s, nat \<times> u8 list) io" where
  "readTail f l i b =
     (if i < l
      then bnd (MustRead32 (sf_mem f) FLASH_START) (\<lambda>d.
        case tailByte l d 24 (tailByte l d 16 (tailByte l d 8 (i + 1, b[i := ucast (d AND 0xff)]))) of
          (i', b') \<Rightarrow> readTail f l i' b')
      else ret (i, b))"
  by pat_completeness auto
termination
  by (relation "measure (\<lambda>(f, l, i, b). l - i)") (auto simp: tailByte_def split: if_splits)

text \<open>\<^verbatim>\<open>ReadAt\<close> returns the buffer it has filled next to its two results.\<close>

definition mx25l256_ReadAt ::
  "'s spiflash \<Rightarrow> u8 list \<Rightarrow> int \<Rightarrow> ('s, u8 list \<times> nat \<times> flashErr option) io" where
  "mx25l256_ReadAt f b off =
     (let l = length b in
      if wrap 64 (off + int l) > 32 * 1024 * 1024 then ret (b, 0, Some ReadOverflow)
      else
        thn (cs f 0) (deferring (cs f 1)
       (thn (sendByte f 0 MX25_OP_FAST_READ)
       (thn (sendByte f 24 off)
       (thn (sendByte f 16 off)
       (thn (sendByte f 8 off)
       (thn (sendByte f 0 off)
       (thn (sendByte f 0 0)
       (bnd (readQuads f l 0 b) (\<lambda>(i, b).
        bnd (readTail f l i b) (\<lambda>(i, b).
          ret (b, i, None))))))))))))"

definition mx25l256_Read :: "'s spiflash \<Rightarrow> u8 list \<Rightarrow> ('s, u8 list \<times> nat \<times> flashErr option) io" where
  "mx25l256_Read f b = mx25l256_ReadAt f b 0"

definition eraseBlock :: "nat \<Rightarrow> 's spiflash \<Rightarrow> int \<Rightarrow> ('s, unit) io" where
  "eraseBlock fuel f b =
     thn (cmd8 f MX25_OP_WREN)
    (thn (cs f 0)
    (thn (sendByte f 0 MX25_OP_BLOCK_ERASE)
    (thn (sendByte f 24 b)
    (thn (sendByte f 16 b)
    (thn (sendByte f 0 0)
    (thn (sendByte f 0 0)
    (thn (cs f 1)
         (waitReady fuel f))))))))"

text \<open>The words of a page; a length that is not a multiple of four runs into the index check.\<close>

fun writeWords :: "'s spiflash \<Rightarrow> u8 list \<Rightarrow> ('s, unit) io" where
  "writeWords f [] = ret ()"
| "writeWords f (a # b # c # d # ds) =
     thn (MustWrite32 (sf_mem f) FLASH_START
           (ucast a OR push_bit 8 (ucast b) OR push_bit 16 (ucast c) OR push_bit 24 (ucast d)))
         (writeWords f ds)"
| "writeWords f _ = raise IndexPanic"

definition programPage :: "nat \<Rightarrow> 's spiflash \<Rightarrow> int \<Rightarrow> u8 list \<Rightarrow> ('s, unit) io" where
  "programPage fuel f p d =
     (if length d \<noteq> 256 then raise (LogPanic ''expected 256 byte page block'')
      else
        thn (cmd8 f MX25_OP_WREN)
       (thn (cs f 0)
       (thn (sendByte f 0 MX25_OP_PAGE_PROGRAM)
       (thn (sendByte f 24 p)
       (thn (sendByte f 16 p)
       (thn (sendByte f 8 p)
       (thn (sendByte f 0 0)
       (thn (writeWords f d)
       (thn (cs f 1)
            (waitReady fuel f))))))))))"

text \<open>
  The two loops of \<^verbatim>\<open>WriteAt\<close>, from \<open>i\<close> to the end \<open>e\<close>. The guards before them bound \<open>e\<close> by the size
  of the chip, so the loop counter does not wrap. A slice that leaves the buffer panics; the
  guards keep the buffer a multiple of 1024, so the capacity beyond its length does not matter.
\<close>

function eraseBlocks :: "nat \<Rightarrow> 's spiflash \<Rightarrow> int \<Rightarrow> int \<Rightarrow> ('s, unit) io" where
  "eraseBlocks fuel f i e =
     (if i < e then thn (eraseBlock fuel f (wrap 32 i)) (eraseBlocks fuel f (i + 64 * 1024) e)
      else ret ())"
  by pat_completeness auto
termination by (relation "measure (\<lambda>(fuel, f, i, e). nat (e - i))") auto

function programPages :: "nat \<Rightarrow> 's spiflash \<Rightarrow> u8 list \<Rightarrow> int \<Rightarrow> int \<Rightarrow> int \<Rightarrow> ('s, unit) io" where
  "programPages fuel f b off i e =
     (if i < e
      then thn (if i - off + 256 \<le> int (length b)
                then programPage fuel f (wrap 32 i) (take 256 (drop (nat (i - off)) b))
                else raise SlicePanic)
               (programPages fuel f b off (i + 256) e)
      else ret ())"
  by pat_completeness auto
termination by (relation "measure (\<lambda>(fuel, f, b, off, i, e). nat (e - i))") auto

declare readQuads.simps [simp del] readTail.simps [simp del] eraseBlocks.simps [simp del]
  programPages.simps [simp del]

definition mx25l256_WriteAt ::
  "nat \<Rightarrow> 's spiflash \<Rightarrow> u8 list \<Rightarrow> int \<Rightarrow> ('s, nat \<times> flashErr option) io" where
  "mx25l256_WriteAt fuel f b off =
     (let l = length b; e = wrap 64 (off + int l) in
      if l mod 1024 * 64 \<noteq> 0 then ret (0, Some BufferNotAligned)
      else if off < 0 \<or> off mod 1024 * 64 \<noteq> 0 then ret (0, Some OffsetNotAligned)
      else if e > 32 * 1024 * 1024 then ret (0, Some WriteOverflow)
      else
        thn (eraseBlocks fuel f off e)
       (thn (programPages fuel f b off off e)
            (ret (l, None))))"

definition mx25l256_Write :: "nat \<Rightarrow> 's spiflash \<Rightarrow> u8 list \<Rightarrow> ('s, nat \<times> flashErr option) io" where
  "mx25l256_Write fuel f b = mx25l256_WriteAt fuel f b 0"

section \<open>Through any provider\<close>

lemma flash_addrs [simp]:
  "soc_addr CS0_CTRL" "soc_addr CS0_SEGMENT_ADDR" "soc_addr FLASH_START" "soc_addr SPI_READ_TIMINGS"
  by (simp_all add: soc_addr_def CS0_CTRL_def CS0_SEGMENT_ADDR_def FLASH_START_def SPI_READ_TIMINGS_def)

lemmas flash_cmds = cmd8_def cmd8Read32_def cmd8Read8_def sendByte_def cs_def Let_def

context mem_contract
begin

abbreviation flashP :: "int \<Rightarrow> 's spiflash" where
  "flashP k \<equiv> \<lparr>sf_mem = P, tCK = k\<rparr>"

abbreviation flashB :: "int \<Rightarrow> 'b spiflash" where
  "flashB k \<equiv> \<lparr>sf_mem = B, tCK = k\<rparr>"

lemma sim_flash_calls:
  "sim inv bus (cs (flashP k) h) (cs (flashB k) h)"
  "sim inv bus (sendByte (flashP k) n x) (sendByte (flashB k) n x)"
  "sim inv bus (MustRead32 (sf_mem (flashP k)) FLASH_START) (MustRead32 (sf_mem (flashB k)) FLASH_START)"
  "sim inv bus (MustRead8 (sf_mem (flashP k)) FLASH_START) (MustRead8 (sf_mem (flashB k)) FLASH_START)"
  "sim inv bus (MustWrite32 (sf_mem (flashP k)) FLASH_START v) (MustWrite32 (sf_mem (flashB k)) FLASH_START v)"
  by (auto simp: cs_def sendByte_def Let_def intro!: sim_calls)

lemma sim_cmd8: "sim inv bus (cmd8 (flashP k) c) (cmd8 (flashB k) c)"
  unfolding cmd8_def by (intro sim_rules sim_flash_calls)

lemma sim_cmd8Read32: "sim inv bus (cmd8Read32 (flashP k) c) (cmd8Read32 (flashB k) c)"
  unfolding cmd8Read32_def by (intro sim_rules sim_flash_calls)

lemma sim_isReady: "sim inv bus (isReady (flashP k)) (isReady (flashB k))"
  unfolding isReady_def status_def cmd8Read8_def by (intro sim_rules sim_flash_calls)

lemma sim_waitReady: "sim inv bus (waitReady n (flashP k)) (waitReady n (flashB k))"
  by (induction n) (auto intro!: sim_rules sim_isReady)

lemma sim_readQuads: "sim inv bus (readQuads (flashP k) l i b) (readQuads (flashB k) l i b)"
proof (induction "l - i" arbitrary: i b rule: less_induct)
  case less
  show ?case
    by (subst (1 2) readQuads.simps) (auto intro!: sim_rules sim_flash_calls sim_calls less)
qed

lemma sim_readTail: "sim inv bus (readTail (flashP k) l i b) (readTail (flashB k) l i b)"
proof (induction "l - i" arbitrary: i b rule: less_induct)
  case less
  show ?case
    by (subst (1 2) readTail.simps)
      (auto intro!: sim_rules sim_flash_calls sim_calls less simp: tailByte_def split: prod.split if_splits)
qed

lemma sim_ReadAt: "sim inv bus (mx25l256_ReadAt (flashP k) b off) (mx25l256_ReadAt (flashB k) b off)"
  unfolding mx25l256_ReadAt_def Let_def
  by (auto intro!: sim_rules sim_flash_calls sim_readQuads sim_readTail split: prod.split)

lemma sim_eraseBlocks:
  "sim inv bus (eraseBlocks n (flashP k) i e) (eraseBlocks n (flashB k) i e)"
proof (induction "nat (e - i)" arbitrary: i rule: less_induct)
  case less
  show ?case
    by (subst (1 2) eraseBlocks.simps)
      (auto simp: eraseBlock_def intro!: sim_rules sim_flash_calls sim_cmd8 sim_waitReady less)
qed

lemma sim_writeWords: "sim inv bus (writeWords (flashP k) d) (writeWords (flashB k) d)"
  by (induction "flashP k" d rule: writeWords.induct) (auto intro!: sim_rules sim_calls)

lemma sim_programPages:
  "sim inv bus (programPages n (flashP k) b off i e) (programPages n (flashB k) b off i e)"
proof (induction "nat (e - i)" arbitrary: i rule: less_induct)
  case less
  show ?case
    by (subst (1 2) programPages.simps)
      (auto simp: programPage_def
        intro!: sim_rules sim_flash_calls sim_cmd8 sim_waitReady sim_writeWords less)
qed

lemma sim_WriteAt:
  "sim inv bus (mx25l256_WriteAt n (flashP k) b off) (mx25l256_WriteAt n (flashB k) b off)"
  unfolding mx25l256_WriteAt_def Let_def
  by (intro sim_rules sim_eraseBlocks sim_programPages)

end

end
