(* ===== verification/Flash_Chip.thy ===== *)
theory Flash_Chip
  imports Flash
begin

text \<open>
  The chip on the other side of the driver of \<^verbatim>\<open>pkg/aspeed/flash.go\<close>, and what the driver does to
  it. The machine \<open>mx25\<close> is the documented behaviour of the MX25L256 that the driver relies on:
  while the chip is selected, bytes are shifted in and out; a command that changes the chip takes
  effect when it is deselected, if the write latch is set where one is needed; an erase or a
  program keeps the chip busy for \<open>chip_lat\<close> status reads. Programming can only clear bits.
\<close>

unbundle bit_operations_syntax

section \<open>The chip\<close>

record mx25 =
  chip_mem :: "nat \<Rightarrow> u8"
  chip_sel :: bool
  chip_in :: "u8 list"
  chip_out :: nat
  chip_wel :: bool
  chip_4b :: bool
  chip_busy :: nat
  chip_lat :: nat

text \<open>The four address bytes that follow the command byte; the chip decodes 25 bits.\<close>

definition chip_addr :: "u8 list \<Rightarrow> nat" where
  "chip_addr xs =
     (unat (xs ! 1) * 16777216 + unat (xs ! 2) * 65536 + unat (xs ! 3) * 256 + unat (xs ! 4)) mod 33554432"

definition chip_erase :: "nat \<Rightarrow> (nat \<Rightarrow> u8) \<Rightarrow> nat \<Rightarrow> u8" where
  "chip_erase a m = (\<lambda>x. if x div 65536 = a div 65536 then 0xff else m x)"

definition chip_program :: "nat \<Rightarrow> u8 list \<Rightarrow> (nat \<Rightarrow> u8) \<Rightarrow> nat \<Rightarrow> u8" where
  "chip_program a d m = (\<lambda>x.
     let j = (x mod 256 + 256 - a mod 256) mod 256 in
     if x div 256 = a div 256 \<and> j < length d then m x AND d ! j else m x)"

definition chip_exec :: "mx25 \<Rightarrow> mx25" where
  "chip_exec c =
     (let xs = chip_in c in
      if 0 < chip_busy c then c
      else if xs = [0x06] then c\<lparr>chip_wel := True\<rparr>
      else if xs = [0xb7] then c\<lparr>chip_4b := True\<rparr>
      else if xs = [0xe9] then c\<lparr>chip_4b := False\<rparr>
      else if length xs = 5 \<and> xs ! 0 = 0xd8 \<and> chip_wel c \<and> chip_4b c
      then c\<lparr>chip_mem := chip_erase (chip_addr xs) (chip_mem c), chip_wel := False,
             chip_busy := chip_lat c\<rparr>
      else if 5 < length xs \<and> length xs \<le> 261 \<and> xs ! 0 = 0x02 \<and> chip_wel c \<and> chip_4b c
      then c\<lparr>chip_mem := chip_program (chip_addr xs) (drop 5 xs) (chip_mem c), chip_wel := False,
             chip_busy := chip_lat c\<rparr>
      else c)"

definition chip_ctrl :: "u32 \<Rightarrow> mx25 \<Rightarrow> mx25" where
  "chip_ctrl v c =
     (if v AND 7 = 3 then c\<lparr>chip_sel := True\<rparr>
      else if chip_sel c then (chip_exec c)\<lparr>chip_sel := False, chip_in := [], chip_out := 0\<rparr>
      else c)"

definition chip_put :: "u8 \<Rightarrow> mx25 \<Rightarrow> mx25" where
  "chip_put b c = (if chip_sel c then c\<lparr>chip_in := chip_in c @ [b]\<rparr> else c)"

definition chip_get :: "mx25 \<Rightarrow> u8 \<times> mx25" where
  "chip_get c =
     (let xs = chip_in c; c' = c\<lparr>chip_out := chip_out c + 1\<rparr> in
      if \<not> chip_sel c then (0xff, c)
      else if xs = [0x05]
      then ((if 0 < chip_busy c then 1 else 0) OR (if chip_wel c then 2 else 0),
            c'\<lparr>chip_busy := chip_busy c - 1\<rparr>)
      else if 0 < chip_busy c then (0xff, c')
      else if xs = [0x9f]
      then (if chip_out c < 3 then [0xc2, 0x20, 0x19] ! chip_out c else 0, c')
      else if length xs = 6 \<and> xs ! 0 = 0x0b \<and> chip_4b c
      then (chip_mem c ((chip_addr xs + chip_out c) mod 33554432), c')
      else (0xff, c'))"

definition chip_get4 :: "mx25 \<Rightarrow> u32 \<times> mx25" where
  "chip_get4 c =
     (case chip_get c of (b0, c0) \<Rightarrow>
      case chip_get c0 of (b1, c1) \<Rightarrow>
      case chip_get c1 of (b2, c2) \<Rightarrow>
      case chip_get c2 of (b3, c3) \<Rightarrow> (of_le32 [b0, b1, b2, b3], c3))"

text \<open>The memory controller in user mode passes every access to its window on to the chip.\<close>

definition chip_ahb :: "mx25 ahb" where
  "chip_ahb =
     \<lparr>ahb_read32 = (\<lambda>a c. if a = FLASH_START then chip_get4 c else (0, c)),
      ahb_read8 = (\<lambda>a c. if a = FLASH_START then chip_get c else (0, c)),
      ahb_write32 = (\<lambda>a v c.
        if a = CS0_CTRL then chip_ctrl v c
        else if a = FLASH_START then fold chip_put (le32 v) c
        else c),
      ahb_write8 = (\<lambda>a b c. if a = FLASH_START then chip_put b c else c)\<rparr>"

definition chip_flash :: "int \<Rightarrow> mx25 spiflash" where
  "chip_flash k = \<lparr>sf_mem = ahb_provider chip_ahb, tCK = k\<rparr>"

text \<open>The chip between two commands.\<close>

definition chip_idle :: "mx25 \<Rightarrow> bool" where
  "chip_idle c \<longleftrightarrow> \<not> chip_sel c \<and> chip_in c = [] \<and> chip_out c = 0"

definition chip_ready :: "mx25 \<Rightarrow> bool" where
  "chip_ready c \<longleftrightarrow> chip_idle c \<and> chip_busy c = 0"

section \<open>Commands\<close>

lemma flash_starts [simp]: "FLASH_START \<noteq> CS0_CTRL" "CS0_CTRL \<noteq> FLASH_START"
  by (simp_all add: FLASH_START_def CS0_CTRL_def)

lemma chip_runs:
  "MustRead32 (sf_mem (chip_flash k)) FLASH_START c = (Inr (fst (chip_get4 c)), snd (chip_get4 c))"
  "MustRead8 (sf_mem (chip_flash k)) FLASH_START c = (Inr (fst (chip_get c)), snd (chip_get c))"
  "MustWrite32 (sf_mem (chip_flash k)) FLASH_START v c = (Inr (), fold chip_put (le32 v) c)"
  "MustWrite8 (sf_mem (chip_flash k)) FLASH_START b c = (Inr (), chip_put b c)"
  by (simp_all add: chip_flash_def ahb_provider_runs chip_ahb_def)

lemma cs_word:
  "(word_of_int (push_bit 8 k OR 3 OR push_bit 2 0) :: u32) AND 7 = 3"
  "(word_of_int (push_bit 8 k OR 3 OR push_bit 2 1) :: u32) AND 7 = 7"
proof -
  have m: "x AND 7 = take_bit 3 x" for x :: u32
    by (simp add: take_bit_eq_mask mask_eq_exp_minus_1)
  have "take_bit 3 (word_of_int (push_bit 8 k OR v) :: u32) = take_bit 3 (word_of_int v)" for v
    by (rule bit_word_eqI) (auto simp: bit_simps)
  from this [of 3] this [of 7] show
    "(word_of_int (push_bit 8 k OR 3 OR push_bit 2 0) :: u32) AND 7 = 3"
    "(word_of_int (push_bit 8 k OR 3 OR push_bit 2 1) :: u32) AND 7 = 7"
    by (simp_all add: m or.assoc)
qed

lemma cs_runs:
  "cs (chip_flash k) 0 c = (Inr (), c\<lparr>chip_sel := True\<rparr>)"
  "cs (chip_flash k) 1 c =
     (Inr (), if chip_sel c then (chip_exec c)\<lparr>chip_sel := False, chip_in := [], chip_out := 0\<rparr> else c)"
  using cs_word [of "k AND 15"]
  by (simp_all add: cs_def Let_def chip_flash_def ahb_provider_runs chip_ahb_def chip_ctrl_def or.assoc)

abbreviation byteOf :: "nat \<Rightarrow> int \<Rightarrow> u8" where
  "byteOf n x \<equiv> word_of_int (drop_bit n x AND 0xff)"

lemma sendByte_run: "sendByte (chip_flash k) n x c = (Inr (), chip_put (byteOf n x) c)"
  by (simp add: sendByte_def chip_runs)

lemma chip_put_sel [simp]:
  "chip_sel c \<Longrightarrow> chip_put b c = c\<lparr>chip_in := chip_in c @ [b]\<rparr>"
  by (simp add: chip_put_def)

lemmas chip_step = thn_def bnd_def ret_def deferring_def cs_runs sendByte_run chip_runs

lemma cmd8_run:
  assumes "chip_ready c"
  shows "cmd8 (chip_flash k) MX25_OP_WREN c = (Inr (), c\<lparr>chip_wel := True\<rparr>)"
    and "cmd8 (chip_flash k) MX25_OP_EN4B c = (Inr (), c\<lparr>chip_4b := True\<rparr>)"
    and "cmd8 (chip_flash k) MX25_OP_EX4B c = (Inr (), c\<lparr>chip_4b := False\<rparr>)"
  using assms
  by (simp_all add: cmd8_def chip_step MX25_OP_WREN_def MX25_OP_EN4B_def MX25_OP_EX4B_def
      chip_exec_def chip_ready_def chip_idle_def)

lemma isReady_run:
  assumes "chip_idle c"
  shows "isReady (chip_flash k) c = (Inr (chip_busy c = 0), c\<lparr>chip_busy := chip_busy c - 1\<rparr>)"
  using assms
  by (cases c) (simp add: isReady_def status_def cmd8Read8_def chip_step OP_READ_STATUS_def chip_get_def
      chip_exec_def chip_idle_def Let_def)

lemma waitReady_run:
  assumes "chip_idle c" "chip_busy c < n"
  shows "waitReady n (chip_flash k) c = (Inr (), c\<lparr>chip_busy := 0\<rparr>)"
  using assms
proof (induction n arbitrary: c)
  case 0
  then show ?case by simp
next
  case (Suc n)
  have "chip_idle (c\<lparr>chip_busy := chip_busy c - 1\<rparr>)" using Suc.prems(1) by (simp add: chip_idle_def)
  from Suc.IH [OF this] Suc.prems show ?case
    by (cases "chip_busy c") (simp_all add: bnd_def isReady_run ret_def)
qed

lemma Id_run:
  assumes "chip_ready c"
  shows "Id (chip_flash k) c = (Inr MX25L256_ID, c)"
  using assms
  by (simp add: Id_def cmd8Read32_def chip_step OP_ID_def chip_get_def chip_get4_def
      chip_exec_def chip_ready_def chip_idle_def MX25L256_ID_def)

section \<open>Address bytes\<close>

lemma unat_byteOf: "0 \<le> x \<Longrightarrow> unat (byteOf n x) = nat (x div 2 ^ n mod 256)"
proof -
  assume "0 \<le> x"
  have "drop_bit n x AND 0xff = x div 2 ^ n mod 256"
    using take_bit_eq_mask [of 8 "drop_bit n x"]
    by (simp add: mask_eq_exp_minus_1 take_bit_eq_mod drop_bit_eq_div)
  then show ?thesis
    by (simp add: unat_eq_nat_uint uint_word_of_int_eq take_bit_eq_mod)
qed

lemma address_digits:
  assumes "(m :: nat) < 33554432"
  shows "m div 16777216 mod 256 * 16777216 + m div 65536 mod 256 * 65536 = m div 65536 * 65536"
    and "m div 65536 * 65536 + m div 256 mod 256 * 256 = m div 256 * 256"
proof -
  have "m div 16777216 = m div 65536 div 256" "m div 16777216 mod 256 = m div 16777216"
    using assms by (simp_all add: less_mult_imp_div_less flip: div_mult2_eq)
  then show "m div 16777216 mod 256 * 16777216 + m div 65536 mod 256 * 65536 = m div 65536 * 65536"
    using div_mult_mod_eq [of "m div 65536" 256] by linarith
  have "m div 65536 = m div 256 div 256" by (simp flip: div_mult2_eq)
  then show "m div 65536 * 65536 + m div 256 mod 256 * 256 = m div 256 * 256"
    using div_mult_mod_eq [of "m div 256" 256] by linarith
qed

lemma chip_addr_bytes:
  assumes "0 \<le> x" "x < 33554432"
  shows "chip_addr (op # byteOf 24 x # byteOf 16 x # byteOf 8 x # byteOf 0 x # ys) = nat x"
    and "chip_addr (op # byteOf 24 x # byteOf 16 x # byteOf 8 x # 0 # ys) = nat x div 256 * 256"
    and "chip_addr (op # byteOf 24 x # byteOf 16 x # 0 # 0 # ys) = nat x div 65536 * 65536"
proof -
  obtain m where m: "x = int m" "m < 33554432" using assms by (metis nonneg_int_cases of_nat_less_iff of_nat_numeral)
  have u: "unat (byteOf n x) = m div 2 ^ n mod 256" for n
  proof -
    have "int m div 2 ^ n mod 256 = int (m div 2 ^ n mod 256)" by (simp add: zdiv_int zmod_int)
    then show ?thesis using assms(1) by (simp only: unat_byteOf m(1))
  qed
  have lt: "m div 256 * 256 mod 33554432 = m div 256 * 256"
    "m div 65536 * 65536 mod 33554432 = m div 65536 * 65536"
    using m(2) div_times_less_eq_dividend [of m 256] div_times_less_eq_dividend [of m 65536]
    by (intro mod_less; linarith)+
  show "chip_addr (op # byteOf 24 x # byteOf 16 x # byteOf 8 x # byteOf 0 x # ys) = nat x"
    "chip_addr (op # byteOf 24 x # byteOf 16 x # byteOf 8 x # 0 # ys) = nat x div 256 * 256"
    "chip_addr (op # byteOf 24 x # byteOf 16 x # 0 # 0 # ys) = nat x div 65536 * 65536"
    using u [of 24] u [of 16] u [of 8] u [of 0] m address_digits [OF m(2)] div_mult_mod_eq [of m 256]
      lt by (simp_all add: chip_addr_def)
qed

section \<open>Erasing and programming\<close>

lemma eraseBlock_run:
  assumes "chip_ready c" "chip_4b c" "0 \<le> b" "b < 33554432" "chip_lat c < n"
  shows "eraseBlock n (chip_flash k) b c =
     (Inr (), c\<lparr>chip_mem := chip_erase (nat b) (chip_mem c), chip_wel := False\<rparr>)"
proof -
  let ?c = "c\<lparr>chip_mem := chip_erase (nat b) (chip_mem c), chip_wel := False, chip_busy := chip_lat c\<rparr>"
  have "waitReady n (chip_flash k) ?c = (Inr (), ?c\<lparr>chip_busy := 0\<rparr>)"
    using assms by (intro waitReady_run) (simp_all add: chip_ready_def chip_idle_def)
  moreover have "byteOf 0 MX25_OP_BLOCK_ERASE = 0xd8" "byteOf 0 0 = 0"
    by (simp_all add: MX25_OP_BLOCK_ERASE_def)
  moreover have "chip_erase (nat b div 65536 * 65536) = chip_erase (nat b)"
    by (simp add: chip_erase_def fun_eq_iff)
  ultimately show ?thesis
    using assms
    by (cases c) (simp add: eraseBlock_def chip_step cmd8_run chip_exec_def chip_addr_bytes
        chip_ready_def chip_idle_def Let_def)
qed

lemma writeWords_run:
  assumes "length d mod 4 = 0" "chip_sel c"
  shows "writeWords (chip_flash k) d c = (Inr (), c\<lparr>chip_in := chip_in c @ d\<rparr>)"
  using assms
proof (induction "chip_flash k" d arbitrary: c rule: writeWords.induct)
  case (2 a b x y ds)
  have "le32 (ucast a OR push_bit 8 (ucast b) OR push_bit 16 (ucast x) OR push_bit 24 (ucast y)) =
      [a, b, x, y]"
    using le32_of_le32 [of a b x y] by simp
  with 2 show ?case
    by (simp add: thn_def bnd_def chip_runs)
qed (simp_all add: ret_def)

lemma programPage_run:
  assumes "chip_ready c" "chip_4b c" "0 \<le> p" "p < 33554432" "chip_lat c < n" "length d = 256"
  shows "programPage n (chip_flash k) p d c =
     (Inr (), c\<lparr>chip_mem := chip_program (nat p div 256 * 256) d (chip_mem c), chip_wel := False\<rparr>)"
proof -
  let ?c = "c\<lparr>chip_mem := chip_program (nat p div 256 * 256) d (chip_mem c), chip_wel := False,
              chip_busy := chip_lat c\<rparr>"
  have "waitReady n (chip_flash k) ?c = (Inr (), ?c\<lparr>chip_busy := 0\<rparr>)"
    using assms by (intro waitReady_run) (simp_all add: chip_ready_def chip_idle_def)
  moreover have "byteOf 0 MX25_OP_PAGE_PROGRAM = 0x02" "byteOf 0 0 = 0"
    by (simp_all add: MX25_OP_PAGE_PROGRAM_def)
  ultimately show ?thesis
    using assms
    by (cases c) (simp add: programPage_def chip_step cmd8_run chip_exec_def chip_addr_bytes
        writeWords_run chip_ready_def chip_idle_def Let_def)
qed

text \<open>The loops: the blocks from \<open>i\<close> on that are erased, the pages that are programmed.\<close>

function erased :: "int \<Rightarrow> int \<Rightarrow> (nat \<Rightarrow> u8) \<Rightarrow> nat \<Rightarrow> u8" where
  "erased i e m = (if i < e then erased (i + 65536) e (chip_erase (nat i) m) else m)"
  by pat_completeness auto
termination by (relation "measure (\<lambda>(i, e, m). nat (e - i))") auto

declare erased.simps [simp del]

lemma wrap32_id: "0 \<le> i \<Longrightarrow> i < 33554432 \<Longrightarrow> wrap 32 i = i"
  by (intro wrap_id) simp_all

lemma eraseBlocks_run:
  assumes "chip_ready c" "chip_4b c" "0 \<le> i" "e \<le> 33554432" "chip_lat c < n"
  shows "\<exists>w. eraseBlocks n (chip_flash k) i e c =
     (Inr (), c\<lparr>chip_mem := erased i e (chip_mem c), chip_wel := w\<rparr>)"
  using assms
proof (induction "nat (e - i)" arbitrary: i c rule: less_induct)
  case less
  show ?case
  proof (cases "i < e")
    case True
    let ?c = "c\<lparr>chip_mem := chip_erase (nat i) (chip_mem c), chip_wel := False\<rparr>"
    have "eraseBlock n (chip_flash k) (wrap 32 i) c = (Inr (), ?c)"
      using less.prems True by (simp add: wrap32_id eraseBlock_run)
    moreover have "chip_ready ?c" using less.prems(1) by (simp add: chip_ready_def chip_idle_def)
    ultimately show ?thesis
      using less.hyps [of "i + 65536" ?c] less.prems True
      by (subst eraseBlocks.simps, subst erased.simps) (auto simp: thn_def bnd_def)
  next
    case False
    have "c\<lparr>chip_mem := chip_mem c, chip_wel := chip_wel c\<rparr> = c" by simp
    with False show ?thesis
      by (subst eraseBlocks.simps, subst erased.simps) (auto simp: ret_def intro: exI [of _ "chip_wel c"])
  qed
qed

lemma div_block_iff:
  fixes x k j :: nat
  assumes "0 < k"
  shows "x div k = j \<longleftrightarrow> int (k * j) \<le> int x \<and> int x < int (k * j) + int k"
proof
  assume "x div k = j"
  then have "k * j + x mod k = x" "x mod k < k"
    using mult_div_mod_eq [of k x] assms by simp_all
  then have "k * j \<le> x" "x < k * j + k" by linarith+
  then show "int (k * j) \<le> int x \<and> int x < int (k * j) + int k" by linarith
next
  assume "int (k * j) \<le> int x \<and> int x < int (k * j) + int k"
  then have "k * j \<le> x" "x < k * j + k" by linarith+
  then show "x div k = j" by (intro div_nat_eqI) simp_all
qed

lemma erased_blocks:
  assumes "0 \<le> i" "i mod 65536 = 0" "e mod 65536 = 0"
  shows "erased i e m x = (if i \<le> int x \<and> int x < e then 0xff else m x)"
  using assms
proof (induction "nat (e - i)" arbitrary: i m rule: less_induct)
  case less
  show ?case
  proof (cases "i < e")
    case True
    obtain j q where j: "i = 65536 * int j" and q: "e = 65536 * q"
      using less.prems by (metis div_mult_mod_eq add.right_neutral mult.commute nonneg_int_cases pos_imp_zdiv_nonneg_iff zero_less_numeral)
    have j1: "int j + 1 \<le> q" using True j q by linarith
    have "x div 65536 = j \<longleftrightarrow> 65536 * int j \<le> int x \<and> int x < 65536 * (int j + 1)"
      using div_block_iff [of 65536 x j] by simp
    moreover have "erased i e m x = erased (i + 65536) e (chip_erase (nat i) m) x"
      using True by (subst erased.simps) simp
    moreover have "nat i div 65536 = j" using j by simp
    ultimately show ?thesis
      using less.hyps [of "i + 65536" "chip_erase (nat i) m"] less.prems True j j1 q
      by (auto simp: chip_erase_def)
  next
    case False
    then show ?thesis by (subst erased.simps) auto
  qed
qed

definition programmed :: "int \<Rightarrow> int \<Rightarrow> nat \<Rightarrow> u8 list \<Rightarrow> (nat \<Rightarrow> u8) \<Rightarrow> nat \<Rightarrow> u8" where
  "programmed i e off b m = (\<lambda>x. if i \<le> int x \<and> int x < e then m x AND b ! (x - off) else m x)"

lemma programmed_page:
  assumes j: "i = 256 * int j" and off: "0 \<le> off" "off \<le> i" and fits: "i - off + 256 \<le> int (length b)"
  shows "chip_program (nat i div 256 * 256) (take 256 (drop (nat (i - off)) b)) m =
         programmed i (i + 256) (nat off) b m"
proof
  fix x
  define d where "d = take 256 (drop (nat (i - off)) b)"
  have d: "length d = 256" using fits off by (simp add: d_def)
  have page: "nat i div 256 * 256 = 256 * j" using j by simp
  have in_page: "x div 256 = j \<longleftrightarrow> i \<le> int x \<and> int x < i + 256"
    using div_block_iff [of 256 x j] j by simp
  have "d ! (x mod 256) = b ! (x - nat off)" if "x div 256 = j"
  proof -
    have "x mod 256 = x - 256 * j" using that by (simp add: minus_div_mult_eq_mod [symmetric] mult.commute)
    moreover have "nat (i - off) + (x - 256 * j) = x - nat off"
      using that in_page j off by linarith
    ultimately show ?thesis using fits that in_page by (simp add: d_def)
  qed
  then show "chip_program (nat i div 256 * 256) (take 256 (drop (nat (i - off)) b)) m x =
      programmed i (i + 256) (nat off) b m x"
    using in_page page d by (simp add: chip_program_def Let_def programmed_def flip: d_def)
qed

lemma programmed_append:
  "i \<le> k \<Longrightarrow> k \<le> e \<Longrightarrow> programmed k e off b (programmed i k off b m) = programmed i e off b m"
  by (auto simp: programmed_def fun_eq_iff)

lemma programPages_run:
  assumes "chip_ready c" "chip_4b c" "0 \<le> off" "off \<le> i" "e \<le> 33554432" "chip_lat c < n"
    and "i mod 256 = 0" "e mod 256 = 0" "e = off + int (length b)"
  shows "\<exists>w. programPages n (chip_flash k) b off i e c =
     (Inr (), c\<lparr>chip_mem := programmed i e (nat off) b (chip_mem c), chip_wel := w\<rparr>)"
  using assms
proof (induction "nat (e - i)" arbitrary: i c rule: less_induct)
  case less
  show ?case
  proof (cases "i < e")
    case True
    obtain j q where j: "i = 256 * int j" and q: "e = 256 * q"
      using less.prems by (metis div_mult_mod_eq add.right_neutral mult.commute nonneg_int_cases
          order_trans pos_imp_zdiv_nonneg_iff zero_less_numeral)
    then have "int j + 1 \<le> q" using True by simp
    then have le: "i + 256 \<le> e" using j q by linarith
    then have fits: "i - off + 256 \<le> int (length b)" using less.prems(9) by linarith
    let ?c = "c\<lparr>chip_mem := programmed i (i + 256) (nat off) b (chip_mem c), chip_wel := False\<rparr>"
    have "length (take 256 (drop (nat (i - off)) b)) = 256" using fits less.prems(4) by simp
    then have "programPage n (chip_flash k) (wrap 32 i) (take 256 (drop (nat (i - off)) b)) c = (Inr (), ?c)"
      using less.prems True programmed_page [OF j less.prems(3,4) fits]
      by (simp add: wrap32_id programPage_run)
    then have "programPages n (chip_flash k) b off i e c = programPages n (chip_flash k) b off (i + 256) e ?c"
      using True fits by (subst programPages.simps) (simp add: thn_def bnd_def)
    moreover have "chip_ready ?c" using less.prems(1) by (simp add: chip_ready_def chip_idle_def)
    ultimately show ?thesis
      using less.hyps [of "i + 256" ?c] less.prems True le by (simp add: programmed_append)
  next
    case False
    moreover from False have "programmed i e (nat off) b (chip_mem c) = chip_mem c"
      by (auto simp: programmed_def fun_eq_iff)
    moreover have "c\<lparr>chip_wel := chip_wel c\<rparr> = c" by simp
    ultimately show ?thesis
      by (subst programPages.simps) (auto simp: ret_def intro: exI [of _ "chip_wel c"])
  qed
qed

lemma wrap64_id: "0 \<le> x \<Longrightarrow> x < 2 ^ 62 \<Longrightarrow> wrap 64 x = x"
  by (intro wrap_id) simp_all

lemma WriteAt_run:
  assumes c: "chip_ready c" "chip_4b c" "chip_lat c < n"
    and b: "length b mod 1024 = 0" and off: "0 \<le> off" "off mod 1024 = 0"
    and fits: "off + int (length b) \<le> 33554432"
  shows "\<exists>w. mx25l256_WriteAt n (chip_flash k) b off c =
     (Inr (length b, None),
      c\<lparr>chip_mem := programmed off (off + int (length b)) (nat off) b
           (erased off (off + int (length b)) (chip_mem c)), chip_wel := w\<rparr>)"
proof -
  define e where "e = off + int (length b)"
  have w: "wrap 64 e = e" using off fits by (intro wrap64_id) (simp_all add: e_def)
  obtain w1 where 1: "eraseBlocks n (chip_flash k) off e c =
      (Inr (), c\<lparr>chip_mem := erased off e (chip_mem c), chip_wel := w1\<rparr>)"
    using eraseBlocks_run [OF c(1,2) off(1) _ c(3), of e k] fits by (auto simp: e_def)
  let ?c = "c\<lparr>chip_mem := erased off e (chip_mem c), chip_wel := w1\<rparr>"
  have dvd: "(256 :: int) dvd 1024" by (intro dvdI [of _ _ 4]) simp
  have o: "off mod 256 = 0" using off(2) mod_mod_cancel [OF dvd, of off] by simp
  have "int (length b) mod 1024 = 0" using b zmod_int [of "length b" 1024] by simp
  then have "int (length b) mod 256 = 0" using mod_mod_cancel [OF dvd, of "int (length b)"] by simp
  then have e: "e mod 256 = 0" unfolding e_def using o by (metis add_0 mod_add_eq mod_0)
  have "chip_ready ?c" using c by (simp add: chip_ready_def chip_idle_def)
  with programPages_run [of ?c off off e n b k] c off fits o e obtain w2 where
    2: "programPages n (chip_flash k) b off off e ?c =
      (Inr (), ?c\<lparr>chip_mem := programmed off e (nat off) b (erased off e (chip_mem c)), chip_wel := w2\<rparr>)"
    by (auto simp: e_def)
  from 1 2 show ?thesis
    using b off fits w
    by (auto simp: mx25l256_WriteAt_def Let_def thn_def bnd_def ret_def simp flip: e_def)
qed

section \<open>Reading\<close>

text \<open>A selected chip that has received a read command, and the bytes it shifts out.\<close>

definition chip_reading :: "mx25 \<Rightarrow> bool" where
  "chip_reading c \<longleftrightarrow> chip_sel c \<and> chip_busy c = 0 \<and> chip_4b c \<and>
     length (chip_in c) = 6 \<and> chip_in c ! 0 = 0x0b"

definition chip_byte :: "mx25 \<Rightarrow> nat \<Rightarrow> u8" where
  "chip_byte c j = chip_mem c ((chip_addr (chip_in c) + j) mod 33554432)"

lemma chip_reading_out [simp]:
  "chip_reading (c\<lparr>chip_out := i\<rparr>) = chip_reading c" "chip_byte (c\<lparr>chip_out := i\<rparr>) = chip_byte c"
  by (simp_all add: chip_reading_def chip_byte_def fun_eq_iff)

lemma chip_get_reading:
  assumes "chip_reading c"
  shows "chip_get c = (chip_byte c (chip_out c), c\<lparr>chip_out := chip_out c + 1\<rparr>)"
proof -
  have "chip_in c \<noteq> [x]" for x using assms by (auto simp: chip_reading_def)
  then show ?thesis using assms by (simp add: chip_get_def chip_reading_def chip_byte_def Let_def)
qed

lemma chip_get4_reading:
  assumes "chip_reading c" "chip_out c = i"
  shows "chip_get4 c = (of_le32 (map (chip_byte c) [i, i + 1, i + 2, i + 3]), c\<lparr>chip_out := i + 4\<rparr>)"
  using assms by (simp add: chip_get4_def chip_get_reading numeral_eq_Suc)

lemma bytes_of_le32:
  "ucast (of_le32 [a, b, c, d]) = a" "ucast (drop_bit 8 (of_le32 [a, b, c, d])) = b"
  "ucast (drop_bit 16 (of_le32 [a, b, c, d])) = c" "ucast (drop_bit 24 (of_le32 [a, b, c, d])) = d"
  using le32_of_le32 [of a b c d] by (simp_all add: le32_def)

definition filled :: "mx25 \<Rightarrow> nat \<Rightarrow> nat \<Rightarrow> u8 list \<Rightarrow> bool" where
  "filled c l i b \<longleftrightarrow> length b = l \<and> i \<le> l \<and> (\<forall>j < i. b ! j = chip_byte c j)"

lemma filled_step: "filled c l i b \<Longrightarrow> i < l \<Longrightarrow> v = chip_byte c i \<Longrightarrow> filled c l (Suc i) (b[i := v])"
  by (auto simp: filled_def nth_list_update less_Suc_eq)

lemma filled_out [simp]: "filled (c\<lparr>chip_out := k\<rparr>) l i b = filled c l i b"
  by (simp add: filled_def)

lemma filled_all: "filled c l l b \<Longrightarrow> b = map (chip_byte c) [0..<l]"
  by (simp add: filled_def list_eq_iff_nth_eq)

lemma readQuads_run:
  assumes "chip_reading c" "chip_out c = i" "filled c l i b"
  shows "\<exists>i' b'. readQuads (chip_flash k) l i b c = (Inr (i', b'), c\<lparr>chip_out := i'\<rparr>) \<and>
           filled c l i' b' \<and> l \<le> i' + 3"
  using assms
proof (induction "l - i" arbitrary: i b c rule: less_induct)
  case less
  show ?case
  proof (cases "int i < int l - 3")
    case True
    let ?B = "chip_byte c"
    let ?b = "b[i := ?B i, i + 1 := ?B (i + 1), i + 2 := ?B (i + 2), i + 3 := ?B (i + 3)]"
    have step: "readQuads (chip_flash k) l i b c = readQuads (chip_flash k) l (i + 4) ?b (c\<lparr>chip_out := i + 4\<rparr>)"
      using True less.prems
      by (subst readQuads.simps)
        (simp add: bnd_def chip_runs chip_get4_reading bytes_of_le32 del: of_le32.simps)
    have "filled c l (i + 4) ?b"
      using less.prems(3) True by (simp add: filled_step numeral_eq_Suc)
    then show ?thesis
      using less.hyps [of "i + 4" "c\<lparr>chip_out := i + 4\<rparr>" ?b] less.prems True step by simp
  next
    case False
    have "c\<lparr>chip_out := i\<rparr> = c" using less.prems(2) by (cases c) simp
    then show ?thesis
      using False less.prems by (subst readQuads.simps) (auto simp: ret_def)
  qed
qed

lemma readTail_run:
  assumes "chip_reading c" "chip_out c = i" "filled c l i b" "l \<le> i + 3"
  shows "\<exists>q b'. readTail (chip_flash k) l i b c = (Inr (l, b'), c\<lparr>chip_out := q\<rparr>) \<and> filled c l l b'"
proof (cases "i < l")
  case True
  define B where "B = chip_byte c"
  define d where "d = of_le32 [B i, B (i + 1), B (i + 2), B (i + 3)]"
  note d = bytes_of_le32 [of "B i" "B (i + 1)" "B (i + 2)" "B (i + 3)", folded d_def]
  have get: "chip_get4 c = (d, c\<lparr>chip_out := i + 4\<rparr>)"
    using chip_get4_reading [OF assms(1,2)] by (simp add: d_def B_def)
  consider "l = i + 1" | "l = i + 2" | "l = i + 3" using True assms(4) by linarith
  then have "\<exists>b'. tailByte l d 24 (tailByte l d 16 (tailByte l d 8 (i + 1, b[i := ucast (d AND 0xff)]))) =
      (l, b') \<and> filled c l l b'"
    using assms(3)
    by cases (simp_all add: tailByte_def d filled_step B_def numeral_3_eq_3)
  then obtain b' where "tailByte l d 24 (tailByte l d 16 (tailByte l d 8 (i + 1, b[i := ucast (d AND 0xff)]))) =
      (l, b')" and f: "filled c l l b'" by blast
  then have "readTail (chip_flash k) l i b c = readTail (chip_flash k) l l b' (c\<lparr>chip_out := i + 4\<rparr>)"
    using True by (subst readTail.simps) (simp add: bnd_def chip_runs get)
  then show ?thesis
    using f by (subst (asm) (2) readTail.simps) (auto simp: ret_def)
next
  case False
  then have "i = l" using assms(3) by (simp add: filled_def)
  moreover have "c\<lparr>chip_out := i\<rparr> = c" using assms(2) by (cases c) simp
  ultimately show ?thesis
    using assms(3) by (subst readTail.simps) (simp add: ret_def, metis)
qed

lemma ReadAt_run:
  assumes c: "chip_ready c" "chip_4b c" and off: "0 \<le> off" "off + int (length b) \<le> 33554432" "off < 33554432"
  shows "mx25l256_ReadAt (chip_flash k) b off c =
     (Inr (map (\<lambda>j. chip_mem c (nat off + j)) [0..<length b], length b, None), c)"
proof -
  define l where "l = length b"
  have w: "wrap 64 (off + int l) = off + int l" using off by (intro wrap64_id) (simp_all add: l_def)
  define xs where "xs = [0x0b, byteOf 24 off, byteOf 16 off, byteOf 8 off, byteOf 0 off, 0]"
  let ?c = "c\<lparr>chip_sel := True, chip_in := xs\<rparr>"
  have r: "chip_reading ?c" "chip_out ?c = 0"
    using c by (simp_all add: chip_reading_def xs_def chip_ready_def chip_idle_def)
  have "filled ?c l 0 b" by (simp add: filled_def l_def)
  from readQuads_run [OF r this, of k] obtain i1 b1 where
    q: "readQuads (chip_flash k) l 0 b ?c = (Inr (i1, b1), ?c\<lparr>chip_out := i1\<rparr>)"
      "filled ?c l i1 b1" "l \<le> i1 + 3" by blast
  from readTail_run [of "?c\<lparr>chip_out := i1\<rparr>" i1 l b1 k] q r obtain q2 b2 where
    t: "readTail (chip_flash k) l i1 b1 (?c\<lparr>chip_out := i1\<rparr>) = (Inr (l, b2), ?c\<lparr>chip_out := q2\<rparr>)"
      "filled ?c l l b2" by auto
  have "chip_byte ?c j = chip_mem c (nat off + j)" if "j < l" for j
    using that off chip_addr_bytes(1) [OF off(1,3)]
    by (simp add: chip_byte_def xs_def l_def nat_add_distrib)
  then have b2: "b2 = map (\<lambda>j. chip_mem c (nat off + j)) [0..<l]"
    using filled_all [OF t(2)] by simp
  have "byteOf 0 MX25_OP_FAST_READ = 0x0b" by (simp add: MX25_OP_FAST_READ_def)
  then show ?thesis
    using c off w q(1) t(1) b2
    by (cases c) (simp add: mx25l256_ReadAt_def Let_def chip_step l_def xs_def chip_ready_def
        chip_idle_def chip_exec_def)
qed

lemma SystemFlash_run:
  assumes "chip_idle c" "chip_busy c < n"
  shows "SystemFlash n (OpenWithMemory (ahb_provider chip_ahb)) c =
     (Inr (Inr (chip_flash 6)), c\<lparr>chip_busy := 0, chip_4b := True\<rparr>)"
proof -
  let ?c = "c\<lparr>chip_busy := 0\<rparr>"
  have r: "chip_ready ?c" using assms by (simp add: chip_ready_def chip_idle_def)
  have w: "MustWrite32 (ahb_provider chip_ahb) CS0_CTRL 0 c = (Inr (), c)"
    "MustWrite32 (ahb_provider chip_ahb) CS0_SEGMENT_ADDR v c = (Inr (), c)"
    "MustWrite32 (ahb_provider chip_ahb) SPI_READ_TIMINGS v c = (Inr (), c)" for v
    using assms(1)
    by (simp_all add: ahb_provider_runs chip_ahb_def chip_ctrl_def chip_idle_def CS0_CTRL_def
        CS0_SEGMENT_ADDR_def SPI_READ_TIMINGS_def FLASH_START_def)
  note f = chip_flash_def [symmetric]
  show ?thesis
    using waitReady_run [OF assms, of 0] Id_run [OF r, of 0] cmd8_run(2) [OF r, of 6]
    by (simp add: SystemFlash_def newMX25L256Flash_def Let_def thn_def bnd_def ret_def w f)
qed

section \<open>Properties\<close>

lemma ff_and_u8 [simp]: "0xff AND (x :: u8) = x"
  by (simp only: and.commute [of "0xff"] u8_and_ff)

lemma written_aligned:
  assumes "0 \<le> off" "off mod 65536 = 0" "length b mod 65536 = 0"
  shows "programmed off (off + int (length b)) (nat off) b (erased off (off + int (length b)) m) =
     (\<lambda>x. if nat off \<le> x \<and> x < nat off + length b then b ! (x - nat off) else m x)"
proof -
  have "int (length b) mod 65536 = 0" using assms(3) zmod_int [of "length b" 65536] by simp
  then have e: "(off + int (length b)) mod 65536 = 0" using assms(2) by (metis add_0 mod_add_eq mod_0)
  show ?thesis
    using assms(1) by (auto simp: programmed_def erased_blocks [OF assms(1,2) e] fun_eq_iff)
qed

lemma mod_1024:
  "(off :: int) mod 65536 = 0 \<Longrightarrow> off mod 1024 = 0" "(l :: nat) mod 65536 = 0 \<Longrightarrow> l mod 1024 = 0"
proof -
  have "(1024 :: int) dvd 65536" "(1024 :: nat) dvd 65536" by (intro dvdI [of _ _ 64], simp)+
  then show "off mod 65536 = 0 \<Longrightarrow> off mod 1024 = 0" "l mod 65536 = 0 \<Longrightarrow> l mod 1024 = 0"
    by (metis mod_mod_cancel mod_0)+
qed

text \<open>\<^verbatim>\<open>WriteAt\<close> on a ready chip in 4-byte mode, with a buffer and an offset that are multiples of 64 KiB
  and fit the chip: every byte of the buffer is on the chip afterwards, every other byte of the
  chip is as it was, the chip is ready, and the length is returned without an error. The fuel only
  has to exceed the number of polls the chip needs.
\<close>

theorem WriteAt_contents:
  assumes "chip_ready c" "chip_4b c" "chip_lat c < n" "length b mod 65536 = 0"
    and "0 \<le> off" "off mod 65536 = 0" "off + int (length b) \<le> 33554432"
  shows "\<exists>c'. mx25l256_WriteAt n (chip_flash k) b off c = (Inr (length b, None), c') \<and>
     chip_ready c' \<and> chip_4b c' \<and>
     chip_mem c' = (\<lambda>x. if nat off \<le> x \<and> x < nat off + length b then b ! (x - nat off) else chip_mem c x)"
  using WriteAt_run [OF assms(1,2,3) mod_1024(2) [OF assms(4)] assms(5) mod_1024(1) [OF assms(6)] assms(7), of k]
    written_aligned [OF assms(5,6,4), of "chip_mem c"] assms(1,2)
  by (auto simp: chip_ready_def chip_idle_def)

definition blank_chip :: mx25 where
  "blank_chip = \<lparr>chip_mem = (\<lambda>_. 0xff), chip_sel = False, chip_in = [], chip_out = 0, chip_wel = False,
                 chip_4b = True, chip_busy = 0, chip_lat = 2\<rparr>"

lemma blank_chip_ready [simp]: "chip_ready blank_chip" "chip_4b blank_chip" "chip_lat blank_chip = 2"
  "chip_mem blank_chip x = 0xff"
  by (simp_all add: blank_chip_def chip_ready_def chip_idle_def)

theorem WriteAt_contents_witness:
  "\<exists>c'. mx25l256_WriteAt 3 (chip_flash 6) (replicate 65536 7) 131072 blank_chip = (Inr (65536, None), c') \<and>
     chip_mem c' 131072 = 7 \<and> chip_mem c' 131071 = 0xff"
proof -
  have "replicate 65536 (7 :: u8) ! 0 = 7" by (rule nth_replicate) simp
  with WriteAt_contents [of blank_chip 3 "replicate 65536 7" 131072 6] show ?thesis
    by fastforce
qed

text \<open>C26.
  \<^verbatim>\<open>ReadAt\<close> on a ready chip in 4-byte mode fills the whole buffer with the bytes of the chip from the
  offset on, whatever the length of the buffer modulo four, returns its length without an error,
  and leaves the chip as it was.
\<close>

theorem ReadAt_contents:
  assumes "chip_ready c" "chip_4b c" "0 \<le> off" "off < 33554432" "off + int (length b) \<le> 33554432"
  shows "mx25l256_ReadAt (chip_flash k) b off c =
     (Inr (map (\<lambda>j. chip_mem c (nat off + j)) [0..<length b], length b, None), c)"
  by (rule ReadAt_run [OF assms(1-3,5,4)])

theorem ReadAt_contents_witness:
  "mx25l256_ReadAt (chip_flash 6) [0, 0, 0] 77 (blank_chip\<lparr>chip_mem := of_nat\<rparr>) =
     (Inr ([77, 78, 79], 3, None), blank_chip\<lparr>chip_mem := of_nat\<rparr>)"
  using ReadAt_contents [of "blank_chip\<lparr>chip_mem := of_nat\<rparr>" 77 "[0, 0, 0]" 6]
  by (simp add: chip_ready_def chip_idle_def blank_chip_def upt_rec)

text \<open>C1.
  What \<^verbatim>\<open>WriteAt\<close> has written, \<^verbatim>\<open>ReadAt\<close> reads back: the driver found by \<^verbatim>\<open>SystemFlash\<close> on an idle
  chip (it waits for the chip, identifies it and enters 4-byte mode) writes a buffer at a 64 KiB
  boundary, and a read of the same length there returns the buffer.
\<close>

theorem WriteAt_ReadAt_roundtrip:
  assumes "chip_idle c" "chip_busy c < n" "chip_lat c < n" "length b mod 65536 = 0" "length z = length b"
    and "0 \<le> off" "off mod 65536 = 0" "off + int (length b) \<le> 33554432" "off < 33554432"
  shows "\<exists>f c1 c2.
     SystemFlash n (OpenWithMemory (ahb_provider chip_ahb)) c = (Inr (Inr f), c1) \<and>
     mx25l256_WriteAt n f b off c1 = (Inr (length b, None), c2) \<and>
     mx25l256_ReadAt f z off c2 = (Inr (b, length b, None), c2)"
proof -
  let ?c = "c\<lparr>chip_busy := 0, chip_4b := True\<rparr>"
  have r: "chip_ready ?c" using assms(1) by (simp add: chip_ready_def chip_idle_def)
  from WriteAt_run [of ?c n b off 6] r assms obtain w where
    w: "mx25l256_WriteAt n (chip_flash 6) b off ?c = (Inr (length b, None),
      ?c\<lparr>chip_mem := (\<lambda>x. if nat off \<le> x \<and> x < nat off + length b then b ! (x - nat off) else chip_mem c x),
         chip_wel := w\<rparr>)"
    by (auto simp: mod_1024 written_aligned)
  let ?d = "?c\<lparr>chip_mem := (\<lambda>x. if nat off \<le> x \<and> x < nat off + length b then b ! (x - nat off) else chip_mem c x),
         chip_wel := w\<rparr>"
  have "chip_ready ?d" using r by (simp add: chip_ready_def chip_idle_def)
  then have "mx25l256_ReadAt (chip_flash 6) z off ?d =
      (Inr (map (\<lambda>j. chip_mem ?d (nat off + j)) [0..<length z], length z, None), ?d)"
    using assms by (intro ReadAt_run) simp_all
  moreover have "map (\<lambda>j. chip_mem ?d (nat off + j)) [0..<length z] = b"
    by (rule nth_equalityI) (simp_all add: assms(5))
  ultimately show ?thesis
    using SystemFlash_run [OF assms(1,2)] w assms(5)
    by (intro exI [of _ "chip_flash 6"] exI [of _ ?c] exI [of _ ?d]) (simp del: map_eq_conv)
qed

theorem WriteAt_ReadAt_roundtrip_witness:
  "\<exists>f c1 c2.
     SystemFlash 3 (OpenWithMemory (ahb_provider chip_ahb)) (blank_chip\<lparr>chip_busy := 1\<rparr>) = (Inr (Inr f), c1) \<and>
     mx25l256_WriteAt 3 f (replicate 65536 7) 65536 c1 = (Inr (65536, None), c2) \<and>
     mx25l256_ReadAt f (replicate 65536 0) 65536 c2 = (Inr (replicate 65536 7, 65536, None), c2)"
  using WriteAt_ReadAt_roundtrip [of "blank_chip\<lparr>chip_busy := 1\<rparr>" 3 "replicate 65536 7" "replicate 65536 0" 65536]
  by (simp add: blank_chip_def chip_idle_def)

text \<open>\<^verbatim>\<open>WriteAt\<close> means to accept multiples of 64 KiB only (its errors say so), but \<^verbatim>\<open>l%1024*64\<close> is
  \<^verbatim>\<open>(l%1024)*64\<close>: a buffer of 1 KiB at offset 0 is accepted, reported as written without an error,
  and the 63 KiB behind it, which the caller did not name, are erased.
\<close>

theorem WriteAt_erases_neighbours:
  assumes "chip_ready c" "chip_4b c" "chip_lat c < n" "length b = 1024"
  shows "\<exists>c'. mx25l256_WriteAt n (chip_flash k) b 0 c = (Inr (1024, None), c') \<and>
     (\<forall>x. 1024 \<le> x \<and> x < 65536 \<longrightarrow> chip_mem c' x = 0xff)"
proof -
  have "erased 0 1024 m = chip_erase 0 m" for m
    by (subst erased.simps, simp, subst erased.simps) simp
  then show ?thesis
    using WriteAt_run [of c n b 0 k] assms
    by (auto simp: programmed_def chip_erase_def)
qed

theorem WriteAt_erases_neighbours_witness:
  "\<exists>c'. mx25l256_WriteAt 3 (chip_flash 6) (replicate 1024 1) 0 (blank_chip\<lparr>chip_mem := (\<lambda>_. 5)\<rparr>) =
     (Inr (1024, None), c') \<and> chip_mem c' 2048 = 0xff"
proof -
  have "chip_ready (blank_chip\<lparr>chip_mem := (\<lambda>_. 5)\<rparr>)"
    by (simp add: blank_chip_def chip_ready_def chip_idle_def)
  with WriteAt_erases_neighbours [of "blank_chip\<lparr>chip_mem := (\<lambda>_. 5)\<rparr>" 3 "replicate 1024 1" 6]
  show ?thesis by fastforce
qed

text \<open>A length that is not a multiple of 1024, an offset that is negative or not a multiple of 1024, and
  an end beyond the 32 MiB of the chip make \<^verbatim>\<open>WriteAt\<close> return an error with a count of zero before
  any access to the bus.
\<close>

theorem WriteAt_rejects:
  assumes "length b mod 1024 \<noteq> 0 \<or> off < 0 \<or> off mod 1024 \<noteq> 0 \<or>
     33554432 < off + int (length b) \<and> off + int (length b) < 2 ^ 63"
  shows "\<exists>e. mx25l256_WriteAt n f b off s = (Inr (0, Some e), s)"
proof -
  have "wrap 64 (off + int (length b)) = off + int (length b)"
    if "33554432 < off + int (length b)" "off + int (length b) < 2 ^ 63"
    using that by (intro wrap_id) simp_all
  with assms show ?thesis by (auto simp: mx25l256_WriteAt_def Let_def ret_def)
qed

theorem WriteAt_rejects_witness:
  "\<exists>e. mx25l256_WriteAt 1 (chip_flash 6) (replicate 1024 0) 33554432 blank_chip = (Inr (0, Some e), blank_chip)"
  using WriteAt_rejects [of "replicate 1024 0" 33554432 1 "chip_flash 6" blank_chip] by simp

text \<open>An end that overflows \<^verbatim>\<open>int64\<close> passes the guard against writes beyond the chip: the sum is negative,
  neither loop runs, and \<^verbatim>\<open>WriteAt\<close> reports the whole buffer as written although it has not touched
  the chip.
\<close>

theorem WriteAt_overflow_reports_success:
  assumes "length b mod 1024 = 0" "length b < 2 ^ 62" "0 \<le> off" "off < 2 ^ 63" "off mod 1024 = 0"
    and over: "2 ^ 63 \<le> off + int (length b)"
  shows "mx25l256_WriteAt n f b off s = (Inr (length b, None), s)"
proof -
  have "wrap 64 (off + int (length b)) = off + int (length b) - 2 ^ 64"
    using assms(2,4) over by (intro wrap_over) simp_all
  then have "wrap 64 (off + int (length b)) < 0"
    using assms(2,4) by simp
  then show ?thesis
    using assms by (simp add: mx25l256_WriteAt_def Let_def ret_def eraseBlocks.simps [of _ _ off]
        programPages.simps [of _ _ _ _ off])
qed

theorem WriteAt_overflow_reports_success_witness:
  "mx25l256_WriteAt 1 (chip_flash 6) (replicate 1024 0) 9223372036854774784 blank_chip =
     (Inr (1024, None), blank_chip)"
  using WriteAt_overflow_reports_success [of "replicate 1024 0" 9223372036854774784 1 "chip_flash 6" blank_chip]
  by simp

end
