(* ===== verification/Gpio_Reg.thy ===== *)
theory Gpio_Reg
  imports Scu "HOL-Library.Multiset"
begin

text \<open>
  The GPIO registers of the SoC (\<^verbatim>\<open>pkg/aspeed/gpio_reg.go\<close>): the tables of lines and registers, the
  names of lines, snapshots of the registers and what changed between two of them. Go iterates
  over a map in an order that is not specified, so the operations that range over the register
  tables take the order as an argument, and the properties hold for every permutation.
\<close>

unbundle bit_operations_syntax

section \<open>Data\<close>

record gpio =
  gpio_pin :: string
  gpio_name :: string

record gpioRegSet =
  rset :: string
  pins :: nat

record gpioReg =
  sets :: "gpioRegSet list"

datatype line_state =
    LINE_STATE_INPUT
  | LINE_STATE_OUTPUT
  | LINE_STATE_BECAME_INPUT
  | LINE_STATE_BECAME_OUTPUT
  | LINE_STATE_LOW
  | LINE_STATE_HIGH
  | LINE_STATE_BECAME_LOW
  | LINE_STATE_BECAME_HIGH
  | LINE_STATE_SCU
  | LINE_STATE_SCU_CHANGED

record LineState =
  Port :: u32
  LState :: line_state

record State =
  Gpio :: "u32 \<rightharpoonup> u32"
  Scu :: "u32 \<rightharpoonup> u32"

text \<open>Indexing a Go map: the zero value for a missing key.\<close>

definition lk :: "(u32 \<rightharpoonup> u32) \<Rightarrow> u32 \<Rightarrow> u32" where
  "lk m k = (case m k of None \<Rightarrow> 0 | Some v \<Rightarrow> v)"

section \<open>Names\<close>

text \<open>\<^verbatim>\<open>strings.ToUpper\<close> on the ASCII letters.\<close>

definition upper :: "char \<Rightarrow> char" where
  "upper c = (let n = of_char c :: nat in if 97 \<le> n \<and> n \<le> 122 then char_of (n - 32) else c)"

definition ToUpper :: "string \<Rightarrow> string" where
  "ToUpper s = map upper s"

definition GpioPort :: "string \<Rightarrow> panic + u32" where
  "GpioPort n0 =
     (let n = ToUpper n0;
          finish = (\<lambda>idx rest.
            case ParseUint 32 rest of
              None \<Rightarrow> Inl (LogFatal ''unknown GPIO name'')
            | Some k \<Rightarrow> Inr (idx + of_nat k :: u32))
      in case n of
           [] \<Rightarrow> Inl IndexPanic
         | c # rest \<Rightarrow>
             if take 2 n = ''AA'' then finish (26 * 8) (drop 2 n)
             else if take 2 n = ''AB'' then finish (27 * 8) (drop 2 n)
             else finish (ucast (of_char c - 65 :: u8) * 8) rest)"

text \<open>The pin is Go's \<^verbatim>\<open>int\<close>, which holds every value of the conversion where it has 64 bits.\<close>

definition portToSetPin :: "u32 \<Rightarrow> string \<times> nat" where
  "portToSetPin p =
     (if p \<ge> 27 * 8 then (''AB'', unat (p - 27 * 8))
      else if p \<ge> 26 * 8 then (''AA'', unat (p - 26 * 8))
      else ([char_of (65 + unat (p div 8))], unat (p mod 8)))"

definition GpioPortToName :: "u32 \<Rightarrow> string" where
  "GpioPortToName p = (case portToSetPin p of (st, pin) \<Rightarrow> st @ show_nat pin)"

definition setPinToPort :: "string \<Rightarrow> nat \<Rightarrow> panic + u32" where
  "setPinToPort st port =
     (if st = ''AB'' then Inr (of_nat (27 * 8 + port))
      else if st = ''AA'' then Inr (of_nat (26 * 8 + port))
      else case st of
             [] \<Rightarrow> Inl IndexPanic
           | c # _ \<Rightarrow> Inr (of_nat (unat (of_char c - 65 :: u8) * 8 + port)))"

section \<open>Tables\<close>

text \<open>The lines, under their names, in the order of the source; split in two lists.\<close>

definition gpios_A_N :: "(string \<times> gpio) list" where
  "gpios_A_N = map (\<lambda>(n, pin, name). (n, \<lparr>gpio_pin = pin, gpio_name = name\<rparr>))
    [(''A0'', ''D6'', ''GPIOA0/MAC1LINK''),
     (''A1'', ''B5'', ''GPIOA1/MAC2LINK''),
     (''A2'', ''A4'', ''GPIOA2/TIMER3''),
     (''A3'', ''E6'', ''GPIOA3/TIMER4''),
     (''A4'', ''C5'', ''GPIOA4/TIMER5/SCL9''),
     (''A5'', ''B4'', ''GPIOA5/TIMER6/SDA9''),
     (''A6'', ''A3'', ''GPIOA6/TIMER7/MDC2''),
     (''A7'', ''D5'', ''GPIOA7/TIMER8/MDIO2''),
     (''B0'', ''J21'', ''GPIOB0/SALT1''),
     (''B1'', ''J20'', ''GPIOB1/SALT2''),
     (''B2'', ''H18'', ''GPIOB2/SALT3''),
     (''B3'', ''F18'', ''GPIOB3/SALT4''),
     (''B4'', ''E19'', ''GPIOB4/LPCRST#''),
     (''B5'', ''H19'', ''GPIOB5/LPCPD#/LPCSMI#''),
     (''B6'', ''H20'', ''GPIOB6/LPCPME#''),
     (''B7'', ''E18'', ''GPIOB7/EXTRST#/SPICS1#''),
     (''C0'', ''C4'', ''GPIOC0/SD1CLK/SCL10''),
     (''C1'', ''B3'', ''GPIOC1/SD1CMD/SDA10''),
     (''C2'', ''A2'', ''GPIOC2/SD1DAT0/SCL11''),
     (''C3'', ''E5'', ''GPIOC3/SD1DAT1/SDA11''),
     (''C4'', ''D4'', ''GPIOC4/SD1DAT2/SCL12''),
     (''C5'', ''C3'', ''GPIOC5/SD1DAT3/SDA12''),
     (''C6'', ''B2'', ''GPIOC6/SD1CD#/SCL13''),
     (''C7'', ''A1'', ''GPIOC7/SD1WP#/SDA13''),
     (''D0'', ''A18'', ''GPIOD0/SD2CLK''),
     (''D1'', ''D16'', ''GPIOD1/SD2CMD''),
     (''D2'', ''B17'', ''GPIOD2/SD2DAT0''),
     (''D3'', ''A17'', ''GPIOD3/SD2DAT1''),
     (''D4'', ''C16'', ''GPIOD4/SD2DAT2''),
     (''D5'', ''B16'', ''GPIOD5/SD2DAT3''),
     (''D6'', ''A16'', ''GPIOD6/SD2CD#''),
     (''D7'', ''E15'', ''GPIOD7/SD2WP#''),
     (''E0'', ''D15'', ''GPIOE0/NCTS3''),
     (''E1'', ''C15'', ''GPIOE1/NDCD3''),
     (''E2'', ''B15'', ''GPIOE2/NDSR3''),
     (''E3'', ''A15'', ''GPIOE3/NRI3''),
     (''E4'', ''E14'', ''GPIOE4/NDTR3''),
     (''E5'', ''D14'', ''GPIOE5/NRTS3''),
     (''E6'', ''C14'', ''GPIOE6/TXD3''),
     (''E7'', ''B14'', ''GPIOE7/RXD3''),
     (''F0'', ''D18'', ''GPIOF0/NCTS4''),
     (''F1'', ''B19'', ''GPIOF1/NDCD4/SIOPBI#''),
     (''F2'', ''A20'', ''GPIOF2/NDSR4/SIOPWRGD''),
     (''F3'', ''D17'', ''GPIOF3/NRI4/SIOPBO#''),
     (''F4'', ''B18'', ''GPIOF4/NDTR4''),
     (''F5'', ''A19'', ''GPIOF5/NRTS4/SIOSCI#''),
     (''F6'', ''E16'', ''GPIOF6/TXD4''),
     (''F7'', ''C17'', ''GPIOF7/RXD4''),
     (''G0'', ''A14'', ''GPIOG0/SGPSCK''),
     (''G1'', ''E13'', ''GPIOG1/SGPSLD''),
     (''G2'', ''D13'', ''GPIOG2/SGPSI0''),
     (''G3'', ''C13'', ''GPIOG3/SGPSI1''),
     (''G4'', ''B13'', ''GPIOG4/WDTRST1/OSCCLK''),
     (''G5'', ''Y21'', ''GPIOG5/WDTRST2/USBCKI''),
     (''G6'', ''AA22'', ''GPIOG6/FLBUSY#''),
     (''G7'', ''U18'', ''GPIOG7/FLWP#''),
     (''H0'', ''A8'', ''GPIOH0/ROMD8/NCTS6''),
     (''H1'', ''C7'', ''GPIOH1/ROMD9/NDCD6''),
     (''H2'', ''B7'', ''GPIOH2/ROMD10/NDSR6''),
     (''H3'', ''A7'', ''GPIOH3/ROMD11/NRI6''),
     (''H4'', ''D7'', ''GPIOH4/ROMD12/NDTR6''),
     (''H5'', ''B6'', ''GPIOH5/ROMD13/NRTS6''),
     (''H6'', ''A6'', ''GPIOH6/ROMD14/TXD6''),
     (''H7'', ''E7'', ''GPIOH7/ROMD15/RXD6''),
     (''I0'', ''C22'', ''GPIOI0/SYSCS#''),
     (''I1'', ''G18'', ''GPIOI1/SYSCK''),
     (''I2'', ''D19'', ''GPIOI2/SYSDO''),
     (''I3'', ''C20'', ''GPIOI3/SYSDI''),
     (''I4'', ''B22'', ''GPIOI4/SPICS#/VBCS#''),
     (''I5'', ''G19'', ''GPIOI5/SPICK/VBCK''),
     (''I6'', ''C18'', ''GPIOI6/SPIDO/VBDO''),
     (''I7'', ''E20'', ''GPIOI7/SPIDI/VBDI''),
     (''J0'', ''J5'', ''GPIOJ0/SGPMCK''),
     (''J1'', ''J4'', ''GPIOJ1/SGPMLD''),
     (''J2'', ''K5'', ''GPIOJ2/SGPMO''),
     (''J3'', ''J3'', ''GPIOJ3/SGPMI''),
     (''J4'', ''T4'', ''VGAHS/GPIOJ4''),
     (''J5'', ''U2'', ''VGAVS/GPIOJ5''),
     (''J6'', ''T2'', ''DDCCLK/GPIOJ6''),
     (''J7'', ''T1'', ''DDCDAT/GPIOJ7''),
     (''K0'', ''E3'', ''GPIOK0/SCL5''),
     (''K1'', ''D2'', ''GPIOK1/SDA5''),
     (''K2'', ''C1'', ''GPIOK2/SCL6''),
     (''K3'', ''F4'', ''GPIOK3/SDA6''),
     (''K4'', ''E2'', ''GPIOK4/SCL7''),
     (''K5'', ''D1'', ''GPIOK5/SDA7''),
     (''K6'', ''G5'', ''GPIOK6/SCL8''),
     (''K7'', ''F3'', ''GPIOK7/SDA8''),
     (''L0'', ''U1'', ''GPIOL0/NCTS1''),
     (''L1'', ''T5'', ''GPIOL1/NDCD1/VPIDE''),
     (''L2'', ''U3'', ''GPIOL2/NDSR1/VPIODD''),
     (''L3'', ''V1'', ''GPIOL3/NRI1/VPIHS''),
     (''L4'', ''U4'', ''GPIOL4/NDTR1/VPIVS''),
     (''L5'', ''V2'', ''GPIOL5/NRTS1/VPICLK''),
     (''L6'', ''W1'', ''GPIOL6/TXD1/VPIB0''),
     (''L7'', ''U5'', ''GPIOL7/RXD1/VPIB1''),
     (''M0'', ''V3'', ''GPIOM0/NCTS2/VPIB2''),
     (''M1'', ''W2'', ''GPIOM1/NDCD2/VPIB3''),
     (''M2'', ''Y1'', ''GPIOM2/NDSR2/VPIB4''),
     (''M3'', ''V4'', ''GPIOM3/NRI2/VPIB5''),
     (''M4'', ''W3'', ''GPIOM4/NDTR2/VPIB6''),
     (''M5'', ''Y2'', ''GPIOM5/NRTS2/VPIB7''),
     (''M6'', ''AA1'', ''GPIOM6/TXD2/VPIB8''),
     (''M7'', ''V5'', ''GPIOM7/RXD2/VPIB9''),
     (''N0'', ''W4'', ''GPION0/PWM0/VPIG0''),
     (''N1'', ''Y3'', ''GPION1/PWM1/VPIG1''),
     (''N2'', ''AA2'', ''GPION2/PWM2/VPIG2''),
     (''N3'', ''AB1'', ''GPION3/PWM3/VPIG3'')]"

definition gpios_N_AB :: "(string \<times> gpio) list" where
  "gpios_N_AB = map (\<lambda>(n, pin, name). (n, \<lparr>gpio_pin = pin, gpio_name = name\<rparr>))
    [(''N4'', ''W5'', ''GPION4/PWM4/VPIG4''),
     (''N5'', ''Y4'', ''GPION5/PWM5/VPIG5''),
     (''N6'', ''AA3'', ''GPION6/PWM6/VPIG6''),
     (''N7'', ''AB2'', ''GPION7/PWM7/VPIG7''),
     (''O0'', ''V6'', ''GPIOO0/TACH0/VPIG8''),
     (''O1'', ''Y5'', ''GPIOO1/TACH1/VPIG9''),
     (''O2'', ''AA4'', ''GPIOO2/TACH2/VPIR0''),
     (''O3'', ''AB3'', ''GPIOO3/TACH3/VPIR1''),
     (''O4'', ''W6'', ''GPIOO4/TACH4/VPIR2''),
     (''O5'', ''AA5'', ''GPIOO5/TACH5/VPIR3''),
     (''O6'', ''AB4'', ''GPIOO6/TACH6/VPIR4''),
     (''O7'', ''V7'', ''GPIOO7/TACH7/VPIR5''),
     (''P0'', ''Y6'', ''GPIOP0/TACH8/VPIR6''),
     (''P1'', ''AB5'', ''GPIOP1/TACH9/VPIR7''),
     (''P2'', ''W7'', ''GPIOP2/TACH10/VPIR8''),
     (''P3'', ''AA6'', ''GPIOP3/TACH11/VPIR9''),
     (''P4'', ''AB6'', ''GPIOP4/TACH12''),
     (''P5'', ''Y7'', ''GPIOP5/TACH13''),
     (''P6'', ''AA7'', ''GPIOP6/TACH14/BMCINT''),
     (''P7'', ''AB7'', ''GPIOP7/TACH15/FLACK''),
     (''Q0'', ''D3'', ''GPIOQ0/SCL3''),
     (''Q1'', ''C2'', ''GPIOQ1/SDA3''),
     (''Q2'', ''B1'', ''GPIOQ2/SCL4''),
     (''Q3'', ''F5'', ''GPIOQ3/SDA4''),
     (''Q4'', ''H4'', ''GPIOQ4/SCL14''),
     (''Q5'', ''H3'', ''GPIOQ5/SDA14''),
     (''Q6'', ''H2'', ''GPIOQ6''),
     (''Q7'', ''H1'', ''GPIOQ7''),
     (''R0'', ''V20'', ''GPIOR0/ROMCS1#''),
     (''R1'', ''W21'', ''GPIOR1/ROMCS2#''),
     (''R2'', ''Y22'', ''GPIOR2/ROMCS3#''),
     (''R3'', ''U19'', ''GPIOR3/ROMCS4#''),
     (''R4'', ''V21'', ''GPIOR4/ROMA24/VPOR6''),
     (''R5'', ''W22'', ''GPIOR5/ROMA25/VPOR7''),
     (''R6'', ''C6'', ''GPIOR6/MDC1''),
     (''R7'', ''A5'', ''GPIOR7/MDIO1''),
     (''S0'', ''U21'', ''ROMD4/GPIOS0/VPODE''),
     (''S1'', ''T19'', ''ROMD5/GPIOS1/VPOHS''),
     (''S2'', ''V22'', ''ROMD6/GPIOS2/VPOVS''),
     (''S3'', ''U20'', ''ROMD7/GPIOS3/VPOCLK''),
     (''S4'', ''R18'', ''ROMOE#/GPIOS4''),
     (''S5'', ''N21'', ''ROMWE#/GPIOS5''),
     (''S6'', ''L22'', ''ROMA22/GPIOS6/VPOR4''),
     (''S7'', ''K18'', ''ROMA23/GPIOS7/VPOR5''),
     (''T0'', ''A12'', ''RGMII1TXCK/RMII1TXEN/GPIOT0''),
     (''T1'', ''B12'', ''RGMII1TXCTL/GPIOT1''),
     (''T2'', ''C12'', ''RGMII1TXD0/RMII1TXD0/GPIOT2''),
     (''T3'', ''D12'', ''RGMII1TXD1/RMII1TXD1/GPIOT3''),
     (''T4'', ''E12'', ''RGMII1TXD2/GPIOT4''),
     (''T5'', ''A13'', ''RGMII1TXD3/GPIOT5''),
     (''T6'', ''D9'', ''RGMII2TXCK/RMII2TXEN/GPIOT6''),
     (''T7'', ''E9'', ''RGMII2TXCTL/GPIOT7''),
     (''U0'', ''A10'', ''RGMII2TXD0/RMII2TXD0/GPIOU0''),
     (''U1'', ''B10'', ''RGMII2TXD1/RMII2TXD1/GPIOU1''),
     (''U2'', ''C10'', ''RGMII2TXD2/GPIOU2''),
     (''U3'', ''D10'', ''RGMII2TXD3/GPIOU3''),
     (''U4'', ''E11'', ''RGMII1RXCK/RMII1RCLK/GPIOU4''),
     (''U5'', ''D11'', ''RGMII1RXCTL/GPIOU5''),
     (''U6'', ''C11'', ''RGMII1RXD0/RMII1RXD0/GPIOU6''),
     (''U7'', ''B11'', ''RGMII1RXD1/RMII1RXD1/GPIOU7''),
     (''V0'', ''A11'', ''RGMII1RXD2/RMII1CRSDV/GPIOV0''),
     (''V1'', ''E10'', ''RGMII1RXD3/RMII1RXER/GPIOV1''),
     (''V2'', ''C9'', ''RGMII2RXCK/RMII2RCLK/GPIOV2''),
     (''V3'', ''B9'', ''RGMII2RXCTL/GPIOV3''),
     (''V4'', ''A9'', ''RGMII2RXD0/RMII2RXD0/GPIOV4''),
     (''V5'', ''E8'', ''RGMII2RXD1/RMII2RXD1/GPIOV5''),
     (''V6'', ''D8'', ''RGMII2RXD2/RMII2CRSDV/GPIOV6''),
     (''V7'', ''C8'', ''RGMII2RXD3/RMII2RXER/GPIOV7''),
     (''W0'', ''L5'', ''ADC0/GPIW0''),
     (''W1'', ''L4'', ''ADC1/GPIW1''),
     (''W2'', ''L3'', ''ADC2/GPIW2''),
     (''W3'', ''L2'', ''ADC3/GPIW3''),
     (''W4'', ''L1'', ''ADC4/GPIW4''),
     (''W5'', ''M5'', ''ADC5/GPIW5''),
     (''W6'', ''M4'', ''ADC6/GPIW6''),
     (''W7'', ''M3'', ''ADC7/GPIW7''),
     (''X0'', ''M2'', ''ADC8/GPIX0''),
     (''X1'', ''M1'', ''ADC9/GPIX1''),
     (''X2'', ''N5'', ''ADC10/GPIX2''),
     (''X3'', ''N4'', ''ADC11/GPIX3''),
     (''X4'', ''N3'', ''ADC12/GPIX4''),
     (''X5'', ''N2'', ''ADC13/GPIX5''),
     (''X6'', ''N1'', ''ADC14/GPIX6''),
     (''X7'', ''P5'', ''ADC15/GPIX7''),
     (''Y0'', ''C21'', ''GPIOY0/SIOS3#''),
     (''Y1'', ''F20'', ''GPIOY1/SIOS5#''),
     (''Y2'', ''G20'', ''GPIOY2/SIOPWREQ#''),
     (''Y3'', ''K20'', ''GPIOY3/SIOONCTRL#''),
     (''Z0'', ''R22'', ''ROMA2/GPOZ0/VPOB0''),
     (''Z1'', ''P18'', ''ROMA3/GPOZ1/VPOB1''),
     (''Z2'', ''P19'', ''ROMA4/GPOZ2/VPOB2''),
     (''Z3'', ''P20'', ''ROMA5/GPOZ3/VPOB3''),
     (''Z4'', ''P21'', ''ROMA6/GPOZ4/VPOB4''),
     (''Z5'', ''P22'', ''ROMA7/GPOZ5/VPOB5''),
     (''Z6'', ''M19'', ''ROMA8/GPOZ6/VPOB6''),
     (''Z7'', ''M20'', ''ROMA9/GPOZ7/VPOB7''),
     (''AA0'', ''M21'', ''ROMA10/GPOAA0/VPOG0''),
     (''AA1'', ''M22'', ''ROMA11/GPOAA1/VPOG1''),
     (''AA2'', ''L18'', ''ROMA12/GPOAA2/VPOG2''),
     (''AA3'', ''L19'', ''ROMA13/GPOAA3/VPOG3''),
     (''AA4'', ''L20'', ''ROMA14/GPOAA4/VPOG4''),
     (''AA5'', ''L21'', ''ROMA15/GPOAA5/VPOG5''),
     (''AA6'', ''T18'', ''ROMA16/GPOAA6/VPOG6''),
     (''AA7'', ''N18'', ''ROMA17/GPOAA7/VPOG7''),
     (''AB0'', ''N19'', ''ROMA18/GPOAB0/VPOR0''),
     (''AB1'', ''M18'', ''ROMA19/GPOAB1/VPOR1''),
     (''AB2'', ''N22'', ''ROMA20/GPOAB2/VPOR2''),
     (''AB3'', ''N20'', ''ROMA21/GPOAB3/VPOR3'')]"

text \<open>The map literal: its keys are the results of \<^verbatim>\<open>GpioPort\<close>.\<close>

definition gpios :: "(panic + u32) list \<times> gpio list" where
  "gpios = (map (GpioPort \<circ> fst) (gpios_A_N @ gpios_N_AB), map snd (gpios_A_N @ gpios_N_AB))"

definition GpioPortToFunction :: "u32 \<Rightarrow> string" where
  "GpioPortToFunction p =
     (case map_of (zip (fst gpios) (snd gpios)) (Inr p) of None \<Rightarrow> [] | Some g \<Rightarrow> gpio_name g)"

abbreviation rs :: "string \<Rightarrow> nat \<Rightarrow> gpioRegSet" where
  "rs s n \<equiv> \<lparr>rset = s, pins = n\<rparr>"

definition gpioDirRegs :: "(u32 \<times> gpioReg) list" where
  "gpioDirRegs =
    [(0x004, \<lparr>sets = [rs ''A'' 8, rs ''B'' 8, rs ''C'' 8, rs ''D'' 8]\<rparr>),
     (0x024, \<lparr>sets = [rs ''E'' 8, rs ''F'' 8, rs ''G'' 8, rs ''H'' 8]\<rparr>),
     (0x074, \<lparr>sets = [rs ''I'' 8, rs ''J'' 8, rs ''K'' 8, rs ''L'' 8]\<rparr>),
     (0x07C, \<lparr>sets = [rs ''M'' 8, rs ''N'' 8, rs ''O'' 8, rs ''P'' 8]\<rparr>),
     (0x084, \<lparr>sets = [rs ''Q'' 8, rs ''R'' 8, rs ''S'' 8, rs ''T'' 8]\<rparr>),
     (0x08C, \<lparr>sets = [rs ''U'' 8, rs ''V'' 8]\<rparr>),
     (0x1E4, \<lparr>sets = [rs ''Y'' 4]\<rparr>)]"

definition gpioDataRegs :: "(u32 \<times> gpioReg) list" where
  "gpioDataRegs =
    [(0x000, \<lparr>sets = [rs ''A'' 8, rs ''B'' 8, rs ''C'' 8, rs ''D'' 8]\<rparr>),
     (0x020, \<lparr>sets = [rs ''E'' 8, rs ''F'' 8, rs ''G'' 8, rs ''H'' 8]\<rparr>),
     (0x070, \<lparr>sets = [rs ''I'' 8, rs ''J'' 8, rs ''K'' 8, rs ''L'' 8]\<rparr>),
     (0x078, \<lparr>sets = [rs ''M'' 8, rs ''N'' 8, rs ''O'' 8, rs ''P'' 8]\<rparr>),
     (0x080, \<lparr>sets = [rs ''Q'' 8, rs ''R'' 8, rs ''S'' 8, rs ''T'' 8]\<rparr>),
     (0x088, \<lparr>sets = [rs ''U'' 8, rs ''V'' 8, rs ''W'' 8, rs ''X'' 8]\<rparr>),
     (0x1E0, \<lparr>sets = [rs ''Y'' 4, rs [] 4, rs ''Z'' 8, rs ''AA'' 8, rs ''AB'' 4]\<rparr>)]"

definition scuGpioRegs :: "u32 list" where
  "scuGpioRegs =
    [0x08, 0x0c, 0x10, 0x14, 0x18, 0x1c, 0x20, 0x24, 0x28,
     0x2c, 0x30, 0x34, 0x38, 0x3c, 0x4c, 0x70, 0x74, 0x7c,
     0x80, 0x84, 0x88, 0x8c, 0x90, 0x94, 0x9c, 0xa0, 0xa4,
     0xa8, 0xc0, 0xc4, 0xd0]"

section \<open>States\<close>

definition bitSet :: "State \<Rightarrow> u32 \<Rightarrow> nat \<Rightarrow> bool" where
  "bitSet s a k \<longleftrightarrow> lk (Gpio s) a AND push_bit k 1 \<noteq> 0"

text \<open>One line of a direction register; \<open>None\<close> is the nil state.\<close>

definition diffDirLine :: "State \<Rightarrow> State option \<Rightarrow> u32 \<Rightarrow> nat \<Rightarrow> u32 \<Rightarrow> LineState list" where
  "diffDirLine s b a k port =
     (let output = bitSet s a k in
      case b of
        None \<Rightarrow> [\<lparr>Port = port, LState = if output then LINE_STATE_OUTPUT else LINE_STATE_INPUT\<rparr>]
      | Some b \<Rightarrow>
          if output \<noteq> bitSet b a k
          then [\<lparr>Port = port, LState = if output then LINE_STATE_BECAME_OUTPUT else LINE_STATE_BECAME_INPUT\<rparr>]
          else [])"

definition diffDataLine :: "State \<Rightarrow> State option \<Rightarrow> u32 \<Rightarrow> nat \<Rightarrow> u32 \<Rightarrow> LineState list" where
  "diffDataLine s b a k port =
     (let high = bitSet s a k in
      case b of
        None \<Rightarrow> [\<lparr>Port = port, LState = if high then LINE_STATE_HIGH else LINE_STATE_LOW\<rparr>]
      | Some b \<Rightarrow>
          if high \<noteq> bitSet b a k
          then [\<lparr>Port = port, LState = if high then LINE_STATE_BECAME_HIGH else LINE_STATE_BECAME_LOW\<rparr>]
          else [])"

text \<open>The loop over the pins of a set, from \<open>pin\<close> on, with the set's first bit \<open>bo\<close>.\<close>

fun pinLoop ::
  "(nat \<Rightarrow> u32 \<Rightarrow> LineState list) \<Rightarrow> gpioRegSet \<Rightarrow> nat \<Rightarrow> nat list \<Rightarrow> panic + LineState list" where
  "pinLoop line st bo [] = Inr []"
| "pinLoop line st bo (pin # ps) =
     (case setPinToPort (rset st) pin of
        Inl e \<Rightarrow> Inl e
      | Inr port \<Rightarrow>
          (case pinLoop line st bo ps of
             Inl e \<Rightarrow> Inl e
           | Inr res \<Rightarrow> Inr (line (bo + pin) port @ res)))"

text \<open>The loop over the sets of a register; the data registers skip the sets without a name.\<close>

fun setLoop ::
  "bool \<Rightarrow> (nat \<Rightarrow> u32 \<Rightarrow> LineState list) \<Rightarrow> nat \<Rightarrow> gpioRegSet list \<Rightarrow> panic + LineState list" where
  "setLoop skip line bo [] = Inr []"
| "setLoop skip line bo (st # sts) =
     (case (if skip \<and> rset st = [] then Inr [] else pinLoop line st bo [0..<pins st]) of
        Inl e \<Rightarrow> Inl e
      | Inr res \<Rightarrow>
          (case setLoop skip line (bo + pins st) sts of
             Inl e \<Rightarrow> Inl e
           | Inr res' \<Rightarrow> Inr (res @ res')))"

fun regLoop ::
  "bool \<Rightarrow> (u32 \<Rightarrow> nat \<Rightarrow> u32 \<Rightarrow> LineState list) \<Rightarrow> (u32 \<times> gpioReg) list \<Rightarrow> panic + LineState list" where
  "regLoop skip line [] = Inr []"
| "regLoop skip line ((a, r) # regs) =
     (case setLoop skip (line a) 0 (sets r) of
        Inl e \<Rightarrow> Inl e
      | Inr res \<Rightarrow>
          (case regLoop skip line regs of
             Inl e \<Rightarrow> Inl e
           | Inr res' \<Rightarrow> Inr (res @ res')))"

definition diffScu :: "State \<Rightarrow> State option \<Rightarrow> LineState list" where
  "diffScu s b = concat (map (\<lambda>scu.
     case b of
       None \<Rightarrow> [\<lparr>Port = scu, LState = LINE_STATE_SCU\<rparr>]
     | Some b \<Rightarrow>
         if lk (Scu s) scu \<noteq> lk (Scu b) scu
         then [\<lparr>Port = scu, LState = LINE_STATE_SCU_CHANGED\<rparr>] else []) scuGpioRegs)"

type_synonym regOrder = "(u32 \<times> gpioReg) list"

definition diff :: "regOrder \<Rightarrow> regOrder \<Rightarrow> State \<Rightarrow> State option \<Rightarrow> panic + LineState list" where
  "diff dirs datas s b =
     (case regLoop False (diffDirLine s b) dirs of
        Inl e \<Rightarrow> Inl e
      | Inr r1 \<Rightarrow>
          (case regLoop True (diffDataLine s b) datas of
             Inl e \<Rightarrow> Inl e
           | Inr r2 \<Rightarrow> Inr (r1 @ r2 @ diffScu s b)))"

definition State_List :: "regOrder \<Rightarrow> regOrder \<Rightarrow> State \<Rightarrow> panic + LineState list" where
  "State_List dirs datas s = diff dirs datas s None"

definition State_Diff :: "regOrder \<Rightarrow> regOrder \<Rightarrow> State \<Rightarrow> State \<Rightarrow> panic + LineState list" where
  "State_Diff dirs datas s b = diff dirs datas s (Some b)"

text \<open>The search of the set in one register: its bit is the first set of that name.\<close>

fun setBit :: "string \<Rightarrow> nat \<Rightarrow> nat \<Rightarrow> gpioRegSet list \<Rightarrow> nat option" where
  "setBit tset tpin bo [] = None"
| "setBit tset tpin bo (st # sts) =
     (if rset st \<noteq> tset then setBit tset tpin (bo + pins st) sts else Some (bo + tpin))"

fun portSearch :: "State \<Rightarrow> string \<Rightarrow> nat \<Rightarrow> regOrder \<Rightarrow> panic + bool" where
  "portSearch s tset tpin [] = Inl (LogPanic ''unknown port'')"
| "portSearch s tset tpin ((a, r) # regs) =
     (case setBit tset tpin 0 (sets r) of
        None \<Rightarrow> portSearch s tset tpin regs
      | Some k \<Rightarrow> Inr (bitSet s a k))"

definition PortValue :: "regOrder \<Rightarrow> State \<Rightarrow> u32 \<Rightarrow> panic + bool" where
  "PortValue datas s port = (case portToSetPin port of (tset, tpin) \<Rightarrow> portSearch s tset tpin datas)"

definition PortDirection :: "regOrder \<Rightarrow> State \<Rightarrow> u32 \<Rightarrow> panic + bool" where
  "PortDirection dirs s port = (case portToSetPin port of (tset, tpin) \<Rightarrow> portSearch s tset tpin dirs)"

text \<open>
  The comparison ranges over the entries of \<open>b\<close>, given as lists; its result does not depend on
  their order.
\<close>

fun sameEntries :: "(u32 \<rightharpoonup> u32) \<Rightarrow> (u32 \<times> u32) list \<Rightarrow> bool" where
  "sameEntries m [] = True"
| "sameEntries m ((r, c) # es) =
     (case m r of
        None \<Rightarrow> False
      | Some v \<Rightarrow> if v \<noteq> c then False else sameEntries m es)"

definition State_Equal :: "State \<Rightarrow> (u32 \<times> u32) list \<Rightarrow> (u32 \<times> u32) list \<Rightarrow> bool" where
  "State_Equal s bGpio bScu \<longleftrightarrow> sameEntries (Gpio s) bGpio \<and> sameEntries (Scu s) bScu"

definition readRegs :: "'s Ast \<Rightarrow> uintptr \<Rightarrow> u32 list \<Rightarrow> (u32 \<rightharpoonup> u32) \<Rightarrow> ('s, u32 \<rightharpoonup> u32) io" where
  "readRegs a base keys m =
     bnd (mapM (\<lambda>r. bnd (MustRead32 (Mem a) (base + ucast r)) (\<lambda>v. ret (r, v))) keys)
       (\<lambda>kvs. ret (fold (\<lambda>(r, v) m. m(r \<mapsto> v)) kvs m))"

definition SnapshotGpio :: "regOrder \<Rightarrow> regOrder \<Rightarrow> 's Ast \<Rightarrow> ('s, State) io" where
  "SnapshotGpio dirs datas a =
     (let base = 0x1e780000 in
      bnd (readRegs a base (map fst dirs) Map.empty) (\<lambda>g1.
      bnd (readRegs a base (map fst datas) g1) (\<lambda>g2.
      bnd (readRegs a SCU_BASE scuGpioRegs Map.empty) (\<lambda>sc.
        ret \<lparr>Gpio = g2, Scu = sc\<rparr>))))"

section \<open>Names and ports\<close>

lemma u32_div8: "unat ((p :: u32) div 8) = unat p div 8" "unat (p mod 8) = unat p mod 8"
  by (simp_all add: unat_div unat_mod)

lemma upper_digit [simp]: "d < 10 \<Longrightarrow> upper (digit_char d) = digit_char d"
  by (simp add: upper_def digit_char_def Let_def)

lemma upper_letter [simp]: "(k :: nat) < 26 \<Longrightarrow> upper (char_of (65 + k)) = char_of (65 + k)"
  by (simp add: upper_def Let_def)

lemma ToUpper_append [simp]: "ToUpper (xs @ ys) = ToUpper xs @ ToUpper ys"
  by (simp add: ToUpper_def)

lemma ToUpper_show [simp]: "ToUpper (show_nat n) = show_nat n"
proof (induction n rule: show_nat.induct)
  case (1 n)
  show ?case
  proof (cases "n < 10")
    case True
    then show ?thesis by (simp add: ToUpper_def)
  next
    case False
    with "1.IH" show ?thesis
      by (subst (1 2) show_nat.simps) (simp add: ToUpper_def)
  qed
qed

lemma digit_not_letter: "d < 10 \<Longrightarrow> digit_char d \<noteq> CHR ''A'' \<and> digit_char d \<noteq> CHR ''B''"
proof -
  assume d: "d < 10"
  have o: "of_char (digit_char d) = (48 + d :: nat)" using d by (simp add: digit_char_def)
  have "of_char CHR ''A'' = (65 :: nat)" "of_char CHR ''B'' = (66 :: nat)" by simp_all
  then have "of_char (digit_char d) \<noteq> (of_char CHR ''A'' :: nat)"
    "of_char (digit_char d) \<noteq> (of_char CHR ''B'' :: nat)" using d o by linarith+
  then show ?thesis by metis
qed

lemma letter_index: "k < 26 \<Longrightarrow> (of_char (char_of (65 + k) :: char) - 65 :: u8) = of_nat k"
proof -
  assume k: "k < 26"
  then have "(of_char (char_of (65 + k) :: char) :: nat) = 65 + k" by simp
  then have "(of_nat (of_char (char_of (65 + k) :: char)) :: u8) = of_nat (65 + k)" by (simp only:)
  then show ?thesis by (simp only: of_nat_of_char) simp
qed

lemma GpioPort_two:
  assumes "n < 2 ^ 32"
  shows "GpioPort (''AA'' @ show_nat n) = Inr (208 + of_nat n)"
    and "GpioPort (''AB'' @ show_nat n) = Inr (216 + of_nat n)"
proof -
  have "ToUpper (''AA'' @ show_nat n) = ''AA'' @ show_nat n" "ToUpper (''AB'' @ show_nat n) = ''AB'' @ show_nat n"
    by (simp_all only: ToUpper_append ToUpper_show) (simp_all add: ToUpper_def upper_def)
  then show "GpioPort (''AA'' @ show_nat n) = Inr (208 + of_nat n)"
    "GpioPort (''AB'' @ show_nat n) = Inr (216 + of_nat n)"
    using ParseUint_show [OF assms] by (simp_all add: GpioPort_def Let_def)
qed

lemma GpioPort_one:
  assumes "k < 26" "d < 8"
  shows "GpioPort ([char_of (65 + k)] @ show_nat d) = Inr (of_nat (8 * k + d))"
proof -
  have u: "ToUpper [char_of (65 + k), digit_char d] = [char_of (65 + k), digit_char d]"
    using assms by (simp add: ToUpper_def)
  have "ucast (of_nat k :: u8) = (of_nat k :: u32)"
    using assms(1) by (simp add: word_unat_eq_iff unsigned_ucast_eq unat_of_nat take_bit_eq_mod)
  moreover have "ParseUint 32 [digit_char d] = Some d"
    using ParseUint_show [of d 32] assms(2) by simp
  ultimately show ?thesis
    using assms digit_not_letter [of d]
    by (simp add: GpioPort_def u Let_def letter_index mult.commute)
qed

lemma GpioPort_name: "GpioPort (GpioPortToName p) = Inr p"
proof -
  consider "27 * 8 \<le> p" | "26 * 8 \<le> p" "p < 27 * 8" | "p < 26 * 8" by (meson not_less)
  then show ?thesis
  proof cases
    case 1
    then show ?thesis
      using GpioPort_two(2) [of "unat (p - 216)"] unsigned_less [of "p - 216", where ?'a = nat]
      by (simp add: GpioPortToName_def portToSetPin_def)
  next
    case 2
    then show ?thesis
      using GpioPort_two(1) [of "unat (p - 208)"] unsigned_less [of "p - 208", where ?'a = nat]
      by (simp add: GpioPortToName_def portToSetPin_def flip: not_less)
  next
    case 3
    then have "unat p < 208" by (simp add: word_less_nat_alt)
    then have "GpioPort ([char_of (65 + unat p div 8)] @ show_nat (unat p mod 8)) =
        Inr (of_nat (8 * (unat p div 8) + unat p mod 8))"
      by (intro GpioPort_one) auto
    moreover have "of_nat (8 * (unat p div 8) + unat p mod 8) = p"
      by (simp only: mult_div_mod_eq) simp
    moreover have "\<not> 27 * 8 \<le> p" "\<not> 26 * 8 \<le> p" using 3 by (auto simp: word_less_nat_alt word_le_nat_alt)
    ultimately show ?thesis
      by (simp add: GpioPortToName_def portToSetPin_def u32_div8)
  qed
qed

text \<open>A line's name determines its number: \<^verbatim>\<open>GpioPort\<close> returns, for the name \<^verbatim>\<open>GpioPortToName\<close> gives a
  port, that port; for every 32-bit number.
\<close>

theorem GpioPort_GpioPortToName: "GpioPort (GpioPortToName p) = Inr p"
  by (rule GpioPort_name)

section \<open>Where a line is\<close>

text \<open>
  Specifications of the tables. The data of ports 0 to 191 are in six registers of 32 lines, that
  of the ports from 192 on in one; directions exist for the ports 0 to 175 and 192 to 199.
\<close>

definition dataLine :: "u32 \<Rightarrow> u32 \<times> nat" where
  "dataLine p =
     (if unat p < 192
      then ([0x000, 0x020, 0x070, 0x078, 0x080, 0x088] ! (unat p div 32), unat p mod 32)
      else (0x1E0, unat p - 192))"

definition dirLine :: "u32 \<Rightarrow> (u32 \<times> nat) option" where
  "dirLine p =
     (if unat p < 176
      then Some ([0x004, 0x024, 0x074, 0x07C, 0x084, 0x08C] ! (unat p div 32), unat p mod 32)
      else if 192 \<le> unat p \<and> unat p < 200 then Some (0x1E4, unat p - 192)
      else None)"

text \<open>A search finds the only register that has the set, in whatever order it looks.\<close>

lemma portSearch_found:
  assumes "x \<in> set regs" "setBit tset tpin 0 (sets (snd x)) = Some k"
    and "\<forall>y \<in> set regs. fst y \<noteq> fst x \<longrightarrow> setBit tset tpin 0 (sets (snd y)) = None"
    and "distinct (map fst regs)"
  shows "portSearch s tset tpin regs = Inr (bitSet s (fst x) k)"
  using assms
proof (induction regs)
  case (Cons y regs)
  show ?case
  proof (cases "y = x")
    case True
    with Cons.prems(2) show ?thesis by (cases x) simp
  next
    case False
    with Cons.prems(1) have x: "x \<in> set regs" by simp
    with Cons.prems(4) have "fst y \<noteq> fst x" by (auto simp: image_iff)
    with Cons.prems(3) have "setBit tset tpin 0 (sets (snd y)) = None" by simp
    with Cons.IH [OF x Cons.prems(2)] Cons.prems(3,4) show ?thesis by (cases y) simp
  qed
qed simp

lemma portSearch_none:
  "\<forall>y \<in> set regs. setBit tset tpin 0 (sets (snd y)) = None \<Longrightarrow>
   portSearch s tset tpin regs = Inl (LogPanic ''unknown port'')"
  by (induction s tset tpin regs rule: portSearch.induct) simp_all

lemma setBit_pin: "setBit tset tpin bo sts = map_option (\<lambda>k. k + tpin) (setBit tset 0 bo sts)"
  by (induction sts arbitrary: bo) auto

text \<open>The sets, by number: 26 with a one-letter name, then two more; where the tables have them.\<close>

definition setName :: "nat \<Rightarrow> string" where
  "setName i = (if i = 27 then ''AB'' else if i = 26 then ''AA'' else [char_of (65 + i)])"

definition dataSet :: "nat \<Rightarrow> u32 \<times> nat" where
  "dataSet i = (if i < 24 then ([0x000, 0x020, 0x070, 0x078, 0x080, 0x088] ! (i div 4), 8 * (i mod 4))
                else (0x1E0, 8 * (i - 24)))"

definition dirSet :: "nat \<Rightarrow> (u32 \<times> nat) option" where
  "dirSet i =
     (if i < 22 then Some ([0x004, 0x024, 0x074, 0x07C, 0x084, 0x08C] ! (i div 4), 8 * (i mod 4))
      else if i = 24 then Some (0x1E4, 0) else None)"

lemma setBit_data:
  "list_all (\<lambda>i. list_all (\<lambda>x. setBit (setName i) 0 0 (sets (snd x)) =
      (if fst x = fst (dataSet i) then Some (snd (dataSet i)) else None)) gpioDataRegs) [0..<28]"
  by code_simp

lemma setBit_dir:
  "list_all (\<lambda>i. list_all (\<lambda>x. setBit (setName i) 0 0 (sets (snd x)) =
      (case dirSet i of
         Some (a, k) \<Rightarrow> if fst x = a then Some k else None
       | None \<Rightarrow> None)) gpioDirRegs) [0..<28]"
  by code_simp

lemma bitSet_bit: "bitSet s a k = bit (lk (Gpio s) a) k"
proof -
  have "(v AND push_bit k 1 = 0) = (\<not> bit v k)" for v :: u32
    by (metis and_exp_eq_0_iff_not_bit push_bit_of_1)
  then show ?thesis by (simp add: bitSet_def)
qed

definition setIndex :: "u32 \<Rightarrow> nat" where
  "setIndex p = min 27 (unat p div 8)"

lemma setIndex_less [simp]: "setIndex p < 28"
  by (simp add: setIndex_def)

lemma portToSetPin_index: "portToSetPin p = (setName (setIndex p), unat p - 8 * setIndex p)"
proof -
  consider "216 \<le> p" | "208 \<le> p" "p < 216" | "p < 208" by (meson not_less)
  then show ?thesis
  proof cases
    case 1
    then have "216 \<le> unat p" by (simp add: word_le_nat_alt)
    then have "setIndex p = 27" by (simp add: setIndex_def)
    with 1 \<open>216 \<le> unat p\<close> show ?thesis by (simp add: portToSetPin_def setName_def unat_sub)
  next
    case 2
    then have u: "208 \<le> unat p" "unat p < 216" by (simp_all add: word_le_nat_alt word_less_nat_alt)
    then have "setIndex p = 26" by (simp add: setIndex_def)
    with 2 u show ?thesis by (simp add: portToSetPin_def setName_def unat_sub flip: not_less)
  next
    case 3
    then have u: "unat p < 208" by (simp add: word_less_nat_alt)
    then have i: "setIndex p = unat p div 8" "unat p div 8 < 26" by (auto simp: setIndex_def)
    have "\<not> 216 \<le> p" "\<not> 208 \<le> p" using u by (simp_all add: word_le_nat_alt)
    with i show ?thesis
      by (simp add: portToSetPin_def setName_def u32_div8 minus_mult_div_eq_mod)
  qed
qed

lemma dataLine_index: "dataLine p = (fst (dataSet (setIndex p)), snd (dataSet (setIndex p)) + (unat p - 8 * setIndex p))"
proof (cases "unat p < 192")
  case True
  then have i: "setIndex p = unat p div 8" "unat p div 8 < 24" by (auto simp: setIndex_def)
  have "unat p div 8 div 4 = unat p div 32" by (simp flip: div_mult2_eq)
  moreover have "8 * (unat p div 8 mod 4) + (unat p - 8 * (unat p div 8)) = unat p mod 32"
    using mod_mult2_eq [of "unat p" 8 4] by (simp add: minus_mult_div_eq_mod)
  ultimately show ?thesis using True i by (simp add: dataLine_def dataSet_def)
next
  case False
  then have "24 \<le> unat p div 8" by linarith
  then have "24 \<le> setIndex p" "8 * setIndex p \<le> unat p" by (auto simp: setIndex_def)
  with False show ?thesis by (simp add: dataLine_def dataSet_def)
qed

lemma dirLine_index:
  "dirLine p = map_option (\<lambda>(a, k). (a, k + (unat p - 8 * setIndex p))) (dirSet (setIndex p))"
proof (cases "unat p < 176")
  case True
  then have i: "setIndex p = unat p div 8" "unat p div 8 < 22" by (auto simp: setIndex_def)
  have "unat p div 8 div 4 = unat p div 32" by (simp flip: div_mult2_eq)
  moreover have "8 * (unat p div 8 mod 4) + (unat p - 8 * (unat p div 8)) = unat p mod 32"
    using mod_mult2_eq [of "unat p" 8 4] by (simp add: minus_mult_div_eq_mod)
  ultimately show ?thesis using True i by (simp add: dirLine_def dirSet_def)
next
  case False
  then have "22 \<le> setIndex p" by (simp add: setIndex_def) 
  moreover have "setIndex p = 24 \<longleftrightarrow> 192 \<le> unat p \<and> unat p < 200"
    by (auto simp: setIndex_def min_def)
  ultimately show ?thesis using False by (auto simp: dirLine_def dirSet_def)
qed

lemma data_keys: "distinct (map fst gpioDataRegs)" and dir_keys: "distinct (map fst gpioDirRegs)"
  by (simp_all add: gpioDataRegs_def gpioDirRegs_def)

lemma perm_facts:
  assumes "mset xs = mset (ys :: (u32 \<times> gpioReg) list)"
  shows "set xs = set ys" "distinct (map fst xs) = distinct (map fst ys)"
  using assms by (metis set_mset_mset, metis mset_eq_imp_distinct_iff mset_map)

lemma PortValue_spec:
  assumes "mset datas = mset gpioDataRegs"
  shows "PortValue datas s p = Inr (bit (lk (Gpio s) (fst (dataLine p))) (snd (dataLine p)))"
proof -
  let ?i = "setIndex p" and ?k = "unat p - 8 * setIndex p"
  have all: "setBit (setName ?i) 0 0 (sets (snd x)) =
      (if fst x = fst (dataSet ?i) then Some (snd (dataSet ?i)) else None)" if "x \<in> set datas" for x
    using setBit_data that perm_facts(1) [OF assms] by (auto simp: list_all_iff)
  have "fst (dataSet ?i) \<in> fst ` set gpioDataRegs"
  proof -
    have "list_all (\<lambda>i. fst (dataSet i) \<in> fst ` set gpioDataRegs) [0..<28]" by code_simp
    then show ?thesis by (simp add: list_all_iff)
  qed
  then obtain x where x: "x \<in> set datas" "fst x = fst (dataSet ?i)"
    using perm_facts(1) [OF assms] by auto
  have "portSearch s (setName ?i) ?k datas = Inr (bitSet s (fst x) (snd (dataSet ?i) + ?k))"
    using all x perm_facts(2) [OF assms] data_keys
    by (intro portSearch_found) (auto simp: setBit_pin [of _ ?k])
  then show ?thesis
    by (simp add: PortValue_def portToSetPin_index dataLine_index bitSet_bit x(2))
qed

lemma PortDirection_spec:
  assumes "mset dirs = mset gpioDirRegs"
  shows "PortDirection dirs s p =
     (case dirLine p of
        None \<Rightarrow> Inl (LogPanic ''unknown port'')
      | Some (a, k) \<Rightarrow> Inr (bit (lk (Gpio s) a) k))"
proof -
  let ?i = "setIndex p" and ?k = "unat p - 8 * setIndex p"
  have all: "setBit (setName ?i) 0 0 (sets (snd x)) =
      (case dirSet ?i of Some (a, k) \<Rightarrow> if fst x = a then Some k else None | None \<Rightarrow> None)"
    if "x \<in> set dirs" for x
    using setBit_dir that perm_facts(1) [OF assms] by (auto simp: list_all_iff)
  show ?thesis
  proof (cases "dirSet ?i")
    case None
    with all have "portSearch s (setName ?i) ?k dirs = Inl (LogPanic ''unknown port'')"
      by (intro portSearch_none) (simp add: setBit_pin [of _ ?k])
    with None show ?thesis by (simp add: PortDirection_def portToSetPin_index dirLine_index)
  next
    case (Some ak)
    obtain a k where ak: "ak = (a, k)" by fastforce
    have "list_all (\<lambda>i. case dirSet i of None \<Rightarrow> True | Some (a, _) \<Rightarrow> a \<in> fst ` set gpioDirRegs) [0..<28]"
      by code_simp
    then have "a \<in> fst ` set gpioDirRegs"
      using Some ak by (auto simp: list_all_iff dest!: bspec [of _ _ ?i])
    then obtain x where x: "x \<in> set dirs" "fst x = a"
      using perm_facts(1) [OF assms] by auto
    have "portSearch s (setName ?i) ?k dirs = Inr (bitSet s (fst x) (k + ?k))"
      using all x perm_facts(2) [OF assms] dir_keys Some ak
      by (intro portSearch_found) (auto simp: setBit_pin [of _ ?k])
    with Some ak show ?thesis
      by (simp add: PortDirection_def portToSetPin_index dirLine_index bitSet_bit x(2))
  qed
qed

text \<open>\<^verbatim>\<open>PortValue\<close> and \<^verbatim>\<open>PortDirection\<close> do not depend on the order in which Go ranges over the register
  tables. The value of any port is found without a panic: bit \<open>p mod 32\<close> of the data register of its
  group of 32 for the ports below 192, and bit \<open>p - 192\<close> of the register 1E0 for the others. A
  direction exists for the ports below 176 and for 192 to 199; asking for any other panics.
\<close>

theorem port_lookup:
  assumes "mset datas = mset gpioDataRegs" "mset dirs = mset gpioDirRegs"
  shows "PortValue datas s p =
           Inr (if unat p < 192
                then bit (lk (Gpio s) ([0x000, 0x020, 0x070, 0x078, 0x080, 0x088] ! (unat p div 32))) (unat p mod 32)
                else bit (lk (Gpio s) 0x1E0) (unat p - 192)) \<and>
         PortDirection dirs s p =
           (if unat p < 176
            then Inr (bit (lk (Gpio s) ([0x004, 0x024, 0x074, 0x07C, 0x084, 0x08C] ! (unat p div 32))) (unat p mod 32))
            else if 192 \<le> unat p \<and> unat p < 200 then Inr (bit (lk (Gpio s) 0x1E4) (unat p - 192))
            else Inl (LogPanic ''unknown port''))"
  by (simp add: PortValue_spec [OF assms(1)] PortDirection_spec [OF assms(2)] dataLine_def dirLine_def)

theorem port_lookup_witness:
  "PortValue (rev gpioDataRegs) \<lparr>Gpio = [0x020 \<mapsto> 0x100], Scu = Map.empty\<rparr> 40 = Inr True \<and>
   PortDirection gpioDirRegs \<lparr>Gpio = [0x020 \<mapsto> 0x100], Scu = Map.empty\<rparr> 180 = Inl (LogPanic ''unknown port'')"
  using port_lookup [of "rev gpioDataRegs" gpioDirRegs "\<lparr>Gpio = [0x020 \<mapsto> 0x100], Scu = Map.empty\<rparr>" 40]
    port_lookup [of "rev gpioDataRegs" gpioDirRegs "\<lparr>Gpio = [0x020 \<mapsto> 0x100], Scu = Map.empty\<rparr>" 180]
  by (simp add: lk_def)

section \<open>What changed between two states\<close>

text \<open>The lines of the tables, as the loops of \<^verbatim>\<open>diff\<close> visit them: register, bit, port.\<close>

definition portOf :: "string \<Rightarrow> nat \<Rightarrow> u32" where
  "portOf st pin = (case setPinToPort st pin of Inr p \<Rightarrow> p | Inl _ \<Rightarrow> 0)"

fun setLines :: "u32 \<Rightarrow> nat \<Rightarrow> gpioRegSet list \<Rightarrow> (u32 \<times> nat \<times> u32) list" where
  "setLines a bo [] = []"
| "setLines a bo (st # sts) =
     (if rset st = [] then [] else map (\<lambda>pin. (a, bo + pin, portOf (rset st) pin)) [0..<pins st])
     @ setLines a (bo + pins st) sts"

definition regLines :: "regOrder \<Rightarrow> (u32 \<times> nat \<times> u32) list" where
  "regLines regs = concat (map (\<lambda>(a, r). setLines a 0 (sets r)) regs)"

definition named :: "gpioRegSet list \<Rightarrow> bool" where
  "named sts \<longleftrightarrow> (\<forall>st \<in> set sts. rset st \<noteq> [])"

lemma pinLoop_lines:
  "rset st \<noteq> [] \<Longrightarrow> pinLoop (line a) st bo ps =
     Inr (concat (map (\<lambda>(a, k, p). line a k p) (map (\<lambda>pin. (a, bo + pin, portOf (rset st) pin)) ps)))"
  by (induction ps) (auto simp: portOf_def setPinToPort_def split: list.split sum.split)

lemma setLoop_lines:
  "skip \<or> named sts \<Longrightarrow>
   setLoop skip (line a) bo sts = Inr (concat (map (\<lambda>(a, k, p). line a k p) (setLines a bo sts)))"
proof (induction sts arbitrary: bo)
  case (Cons st sts)
  then have ih: "setLoop skip (line a) bo' sts = Inr (concat (map (\<lambda>(a, k, p). line a k p) (setLines a bo' sts)))" for bo'
    by (auto simp: named_def)
  show ?case
  proof (cases "rset st = []")
    case True
    with Cons.prems ih show ?thesis by (simp add: named_def)
  next
    case False
    with pinLoop_lines [OF False, of line a bo "[0..<pins st]"] ih show ?thesis by simp
  qed
qed simp

lemma regLoop_lines:
  "skip \<or> (\<forall>x \<in> set regs. named (sets (snd x))) \<Longrightarrow>
   regLoop skip line regs = Inr (concat (map (\<lambda>(a, k, p). line a k p) (regLines regs)))"
proof (induction regs)
  case (Cons x regs)
  obtain a r where x: "x = (a, r)" by fastforce
  have "skip \<or> named (sets r)" using Cons.prems x by auto
  with Cons setLoop_lines [of skip "sets r" line a 0] x show ?case by (auto simp: regLines_def)
qed (simp add: regLines_def)

lemma data_lines:
  "list_all (\<lambda>(a, k, p). dataLine p = (a, k)) (regLines gpioDataRegs)"
  "map (\<lambda>(a, k, p). p) (regLines gpioDataRegs) = map of_nat ([0..<196] @ [200..<220])"
  by code_simp+

lemma dir_lines:
  "list_all (\<lambda>(a, k, p). dirLine p = Some (a, k)) (regLines gpioDirRegs)"
  "map (\<lambda>(a, k, p). p) (regLines gpioDirRegs) = map of_nat ([0..<176] @ [192..<196])"
  "list_all (\<lambda>x. list_all (\<lambda>st. rset st \<noteq> []) (sets (snd x))) gpioDirRegs"
  by code_simp+

definition data_port :: "u32 \<Rightarrow> bool" where
  "data_port p \<longleftrightarrow> unat p < 196 \<or> 200 \<le> unat p \<and> unat p < 220"

definition dir_port :: "u32 \<Rightarrow> bool" where
  "dir_port p \<longleftrightarrow> unat p < 176 \<or> 192 \<le> unat p \<and> unat p < 196"

lemma ports_iff:
  assumes "map (\<lambda>(a, k, p). p) ls = map of_nat ns" "\<forall>n \<in> set ns. n < 2 ^ 32"
  shows "(\<exists>a k. (a, k, p) \<in> set ls) \<longleftrightarrow> unat (p :: u32) \<in> set ns"
proof -
  have "(\<exists>a k. (a, k, p) \<in> set ls) \<longleftrightarrow> p \<in> set (map (\<lambda>(a, k, p). p) ls)" by force
  also have "\<dots> \<longleftrightarrow> p \<in> of_nat ` set ns" unfolding assms(1) by simp
  also have "\<dots> \<longleftrightarrow> unat p \<in> set ns"
  proof
    assume "p \<in> of_nat ` set ns"
    then obtain n where "n \<in> set ns" "p = of_nat n" by auto
    with assms(2) show "unat p \<in> set ns" by (simp add: unat_of_nat take_bit_eq_mod)
  next
    assume "unat p \<in> set ns"
    then have "(of_nat (unat p) :: u32) \<in> of_nat ` set ns" by (rule imageI)
    then show "p \<in> of_nat ` set ns" by simp
  qed
  finally show ?thesis .
qed

lemma data_lines_iff: "(a, k, p) \<in> set (regLines gpioDataRegs) \<longleftrightarrow> data_port p \<and> dataLine p = (a, k)"
proof -
  have "(\<exists>a k. (a, k, p) \<in> set (regLines gpioDataRegs)) \<longleftrightarrow> data_port p"
  proof -
    have "set ([0..<196] @ [200..<220]) = {n. n < 196 \<or> 200 \<le> n \<and> n < (220 :: nat)}"
      by (simp only: set_append set_upt set_eq_iff Un_iff atLeastLessThan_iff mem_Collect_eq) auto
    then show ?thesis
      using ports_iff [OF data_lines(2), of p] by (simp only: data_port_def mem_Collect_eq) auto
  qed
  moreover have "dataLine p = (a, k)" if "(a, k, p) \<in> set (regLines gpioDataRegs)" for a k
    using data_lines(1) that by (auto simp: list_all_iff)
  ultimately show ?thesis by fastforce
qed

lemma dir_lines_iff: "(a, k, p) \<in> set (regLines gpioDirRegs) \<longleftrightarrow> dir_port p \<and> dirLine p = Some (a, k)"
proof -
  have "(\<exists>a k. (a, k, p) \<in> set (regLines gpioDirRegs)) \<longleftrightarrow> dir_port p"
  proof -
    have "set ([0..<176] @ [192..<196]) = {n. n < 176 \<or> 192 \<le> n \<and> n < (196 :: nat)}"
      by (simp only: set_append set_upt set_eq_iff Un_iff atLeastLessThan_iff mem_Collect_eq) auto
    then show ?thesis
      using ports_iff [OF dir_lines(2), of p] by (simp only: dir_port_def mem_Collect_eq) auto
  qed
  moreover have "dirLine p = Some (a, k)" if "(a, k, p) \<in> set (regLines gpioDirRegs)" for a k
    using dir_lines(1) that by (auto simp: list_all_iff)
  ultimately show ?thesis by fastforce
qed

lemma set_regLines: "set xs = set ys \<Longrightarrow> set (regLines xs) = set (regLines ys)"
  by (simp add: regLines_def)

lemma diff_parts:
  assumes "mset datas = mset gpioDataRegs" "mset dirs = mset gpioDirRegs"
  shows "diff dirs datas s b =
      Inr (concat (map (\<lambda>(a, k, p). diffDirLine s b a k p) (regLines dirs)) @
           concat (map (\<lambda>(a, k, p). diffDataLine s b a k p) (regLines datas)) @ diffScu s b)"
proof -
  have "\<forall>x \<in> set dirs. named (sets (snd x))"
    using dir_lines(3) perm_facts(1) [OF assms(2)] by (auto simp: list_all_iff named_def)
  then show ?thesis by (simp add: diff_def regLoop_lines)
qed

lemma dirs_lines:
  assumes "mset dirs = mset gpioDirRegs"
  shows "set (regLines dirs) = {(a, k, p). dir_port p \<and> dirLine p = Some (a, k)}"
  using set_regLines [OF perm_facts(1) [OF assms]] dir_lines_iff by auto

lemma datas_lines:
  assumes "mset datas = mset gpioDataRegs"
  shows "set (regLines datas) = {(a, k, p). data_port p \<and> dataLine p = (a, k)}"
  using set_regLines [OF perm_facts(1) [OF assms]] data_lines_iff by auto

lemma diff_lines:
  assumes "mset datas = mset gpioDataRegs" "mset dirs = mset gpioDirRegs"
  shows "\<exists>ds. diff dirs datas s b = Inr ds \<and>
     set ds = {d. \<exists>a k p. dir_port p \<and> dirLine p = Some (a, k) \<and> d \<in> set (diffDirLine s b a k p)} \<union>
              {d. \<exists>a k p. data_port p \<and> dataLine p = (a, k) \<and> d \<in> set (diffDataLine s b a k p)} \<union>
              set (diffScu s b)"
proof -
  have "diff dirs datas s b = Inr (concat (map (\<lambda>(a, k, p). diffDirLine s b a k p) (regLines dirs)) @
           concat (map (\<lambda>(a, k, p). diffDataLine s b a k p) (regLines datas)) @ diffScu s b)"
    by (rule diff_parts [OF assms])
  moreover note dirs_lines [OF assms(2)] datas_lines [OF assms(1)]
  ultimately show ?thesis
    by (intro exI conjI) (auto, blast+)
qed



section \<open>Comparing and taking snapshots\<close>

lemma sameEntries_iff: "sameEntries m es \<longleftrightarrow> (\<forall>(r, c) \<in> set es. m r = Some c)"
  by (induction m es rule: sameEntries.induct) (auto split: option.splits if_splits)

lemma sameEntries_lk:
  assumes "sameEntries m es" "r \<in> fst ` set es"
  shows "lk m r = lk (map_of es) r"
proof -
  from assms(2) obtain c where "map_of es r = Some c" by (metis map_of_eq_None_iff not_None_eq)
  moreover from this have "(r, c) \<in> set es" by (rule map_of_SomeD)
  ultimately show ?thesis using assms(1) by (fastforce simp: lk_def sameEntries_iff)
qed

lemma dirLine_reg: "dirLine p = Some (a, k) \<Longrightarrow> a \<in> fst ` set gpioDirRegs"
proof -
  have "list_all (\<lambda>i. case dirSet i of None \<Rightarrow> True | Some (a, _) \<Rightarrow> a \<in> fst ` set gpioDirRegs) [0..<28]"
    by code_simp
  then show "dirLine p = Some (a, k) \<Longrightarrow> ?thesis"
    by (fastforce simp: list_all_iff dirLine_index dest!: bspec [of _ _ "setIndex p"])
qed

lemma dataLine_reg: "dataLine p = (a, k) \<Longrightarrow> a \<in> fst ` set gpioDataRegs"
proof -
  have "list_all (\<lambda>i. fst (dataSet i) \<in> fst ` set gpioDataRegs) [0..<28]" by code_simp
  then show "dataLine p = (a, k) \<Longrightarrow> ?thesis" by (auto simp: list_all_iff dataLine_index)
qed

lemma diff_empty:
  assumes "mset datas = mset gpioDataRegs" "mset dirs = mset gpioDirRegs"
    and "\<And>a k p. dirLine p = Some (a, k) \<Longrightarrow> diffDirLine s b a k p = []"
    and "\<And>a k p. dataLine p = (a, k) \<Longrightarrow> diffDataLine s b a k p = []" and "diffScu s b = []"
  shows "diff dirs datas s b = Inr []"
proof -
  obtain ds where ds: "diff dirs datas s b = Inr ds"
    "set ds = {d. \<exists>a k p. dir_port p \<and> dirLine p = Some (a, k) \<and> d \<in> set (diffDirLine s b a k p)} \<union>
              {d. \<exists>a k p. data_port p \<and> dataLine p = (a, k) \<and> d \<in> set (diffDataLine s b a k p)} \<union>
              set (diffScu s b)"
    using diff_lines [OF assms(1,2)] by blast
  have "d \<notin> set ds" for d unfolding ds(2) using assms(5) by (auto dest!: assms(3,4))
  then have "set ds = {}" by (intro equals0I) simp
  with ds(1) show ?thesis by simp
qed

text \<open>If \<^verbatim>\<open>Equal\<close> accepts a state that has an entry for each register of the tables (as every snapshot
  has), then \<^verbatim>\<open>Diff\<close> against it is empty: a skipped comparison loses no change.
\<close>

theorem Equal_no_Diff:
  assumes "mset datas = mset gpioDataRegs" "mset dirs = mset gpioDirRegs"
    and "map_of bGpio = Gpio b" "map_of bScu = Scu b"
    and "fst ` set gpioDataRegs \<union> fst ` set gpioDirRegs \<subseteq> fst ` set bGpio" "set scuGpioRegs \<subseteq> fst ` set bScu"
    and eq: "State_Equal s bGpio bScu"
  shows "State_Diff dirs datas s b = Inr [] \<and> State_Diff dirs datas b s = Inr []"
proof -
  note entry = sameEntries_lk
  have scu: "lk (Scu s) r = lk (Scu b) r" if "r \<in> set scuGpioRegs" for r
    using entry [of "Scu s" bScu r] eq assms(4,6) that by (auto simp: State_Equal_def)
  have gpio: "lk (Gpio s) r = lk (Gpio b) r" if "r \<in> fst ` set gpioDataRegs \<union> fst ` set gpioDirRegs" for r
    using entry [of "Gpio s" bGpio r] eq assms(3) subsetD [OF assms(5) that] by (simp add: State_Equal_def)
  have same: "bitSet s a k = bitSet b a k" if "a \<in> fst ` set gpioDataRegs \<union> fst ` set gpioDirRegs" for a k
    using gpio [OF that] by (simp add: bitSet_bit)
  have none: "diffDirLine s (Some b) a k p = []" "diffDirLine b (Some s) a k p = []" if "dirLine p = Some (a, k)" for a k p
    using same dirLine_reg [OF that] by (simp_all add: diffDirLine_def)
  have none': "diffDataLine s (Some b) a k p = []" "diffDataLine b (Some s) a k p = []" if "dataLine p = (a, k)" for a k p
    using same dataLine_reg [OF that] by (simp_all add: diffDataLine_def)
  have none'': "diffScu s (Some b) = []" "diffScu b (Some s) = []"
    using scu by (simp_all add: diffScu_def)
  show ?thesis
    unfolding State_Diff_def by (intro conjI diff_empty [OF assms(1,2)]) (simp_all add: none none' none'')
qed

theorem Equal_no_Diff_witness:
  "State_Diff gpioDirRegs gpioDataRegs
     \<lparr>Gpio = map_of (map (\<lambda>x. (fst x, 7)) (gpioDataRegs @ gpioDirRegs)),
      Scu = map_of (map (\<lambda>r. (r, 9)) (0xff # scuGpioRegs))\<rparr>
     \<lparr>Gpio = map_of (map (\<lambda>x. (fst x, 7)) (gpioDataRegs @ gpioDirRegs)),
      Scu = map_of (map (\<lambda>r. (r, 9)) scuGpioRegs)\<rparr> = Inr []"
  using Equal_no_Diff [of gpioDataRegs gpioDirRegs "map (\<lambda>x. (fst x, 7)) (gpioDataRegs @ gpioDirRegs)"
      "\<lparr>Gpio = map_of (map (\<lambda>x. (fst x, 7)) (gpioDataRegs @ gpioDirRegs)),
        Scu = map_of (map (\<lambda>r. (r, 9)) scuGpioRegs)\<rparr>"
      "map (\<lambda>r. (r, 9)) scuGpioRegs"
      "\<lparr>Gpio = map_of (map (\<lambda>x. (fst x, 7)) (gpioDataRegs @ gpioDirRegs)),
        Scu = map_of (map (\<lambda>r. (r, 9)) (0xff # scuGpioRegs))\<rparr>"]
  by (simp add: State_Equal_def gpioDataRegs_def gpioDirRegs_def scuGpioRegs_def)

lemma readRegs_run:
  assumes "\<And>r. r \<in> set keys \<Longrightarrow> MustRead32 (Mem a) (base + ucast r) s = (Inr (f r), s)"
  shows "readRegs a base keys m s = (Inr (\<lambda>r. if r \<in> set keys then Some (f r) else m r), s)"
proof -
  have run: "mapM (\<lambda>r. bnd (MustRead32 (Mem a) (base + ucast r)) (\<lambda>v. ret (r, v))) keys s =
      (Inr (map (\<lambda>r. (r, f r)) keys), s)"
    using assms by (induction keys) (simp_all add: bnd_def ret_def)
  have "fold (\<lambda>(r, v) m. m(r \<mapsto> v)) (map (\<lambda>r. (r, f r)) keys) m =
      (\<lambda>r. if r \<in> set keys then Some (f r) else m r)"
    by (induction keys arbitrary: m) (auto simp: fun_eq_iff)
  then show ?thesis by (simp add: readRegs_def bnd_def run ret_def)
qed

text \<open>\<^verbatim>\<open>SnapshotGpio\<close> reads each register of the two GPIO tables and each tracked SCU register once into
  the state, in whatever order, has no other entry in it, and changes no register.
\<close>

theorem SnapshotGpio_contents:
  assumes "mset datas = mset gpioDataRegs" "mset dirs = mset gpioDirRegs"
  shows "SnapshotGpio dirs datas soc_ast w =
     (Inr \<lparr>Gpio = (\<lambda>r. if r \<in> fst ` (set gpioDirRegs \<union> set gpioDataRegs)
                     then Some (soc_reg w (0x1e780000 + ucast r)) else None),
           Scu = (\<lambda>r. if r \<in> set scuGpioRegs then Some (soc_reg w (SCU_BASE + ucast r)) else None)\<rparr>, w)"
proof -
  have r: "readRegs soc_ast base keys m w =
      (Inr (\<lambda>r. if r \<in> set keys then Some (soc_reg w (base + ucast r)) else m r), w)" for base keys m
    by (rule readRegs_run) (simp add: soc_runs)
  show ?thesis
    by (simp add: SnapshotGpio_def Let_def bnd_def r ret_def perm_facts(1) [OF assms(1)]
        perm_facts(1) [OF assms(2)] image_Un fun_eq_iff)
qed

theorem SnapshotGpio_contents_witness:
  "\<exists>st. SnapshotGpio (rev gpioDirRegs) gpioDataRegs soc_ast
       \<lparr>soc_unlocked = False, soc_regs = (\<lambda>a. if a = 0x1e780004 then 5 else 0)\<rparr> =
     (Inr st, \<lparr>soc_unlocked = False, soc_regs = (\<lambda>a. if a = 0x1e780004 then 5 else 0)\<rparr>) \<and>
     Gpio st 4 = Some 5 \<and> Gpio st 8 = None"
  using SnapshotGpio_contents [of gpioDataRegs "rev gpioDirRegs"
      "\<lparr>soc_unlocked = False, soc_regs = (\<lambda>a. if a = 0x1e780004 then 5 else 0)\<rparr>"]
  by (simp add: gpioDataRegs_def gpioDirRegs_def soc_reg_def SCU_BASE_def)

section \<open>Through any provider\<close>

lemma gpio_addrs:
  "r \<in> fst ` (set gpioDirRegs \<union> set gpioDataRegs) \<Longrightarrow> soc_addr (0x1e780000 + ucast r)"
  "r \<in> set scuGpioRegs \<Longrightarrow> soc_addr (SCU_BASE + ucast r)"
  by (auto simp: gpioDirRegs_def gpioDataRegs_def scuGpioRegs_def soc_addr_def SCU_BASE_def)

context mem_contract
begin

lemma sim_readRegs:
  assumes "\<And>r. r \<in> set keys \<Longrightarrow> soc_addr (base + ucast r)"
  shows "sim inv bus (readRegs (OpenWithMemory P) base keys m) (readRegs (OpenWithMemory B) base keys m)"
  unfolding readRegs_def Mem_OpenWithMemory
  using assms by (intro sim_rules) (auto intro!: sim_rules sim_calls)

lemma sim_SnapshotGpio:
  assumes "mset datas = mset gpioDataRegs" "mset dirs = mset gpioDirRegs"
  shows "sim inv bus (SnapshotGpio dirs datas (OpenWithMemory P)) (SnapshotGpio dirs datas (OpenWithMemory B))"
  unfolding SnapshotGpio_def Let_def
  using gpio_addrs perm_facts(1) [OF assms(1)] perm_facts(1) [OF assms(2)]
  by (intro sim_rules sim_readRegs) (auto simp: image_Un)

end

end
