(* ===== verification/Gpio_Table.thy ===== *)
theory Gpio_Table
  imports Gpio_Reg
begin

text \<open>
  The table of line functions in \<^verbatim>\<open>pkg/aspeed/gpio_reg.go\<close>: its keys are the results of \<^verbatim>\<open>GpioPort\<close>
  on 216 names, evaluated here once.
\<close>

text \<open>The names of the sets in the order of their ports, and the names of their lines.\<close>

definition setLineNames :: "string list \<Rightarrow> string \<Rightarrow> string list" where
  "setLineNames ss ds = concat (map (\<lambda>s. map (\<lambda>d. s @ [d]) ds) ss)"

lemma gpios_key_names:
  "map fst gpios_A_N @ map fst gpios_N_AB =
     setLineNames (map (\<lambda>c. [c]) ''ABCDEFGHIJKLMNOPQRSTUVWX'') ''01234567'' @
     setLineNames [''Y''] ''0123'' @
     setLineNames [''Z'', ''AA''] ''01234567'' @
     setLineNames [''AB''] ''0123''"
  by (simp add: gpios_A_N_def gpios_N_AB_def setLineNames_def)

lemma setLine_ports:
  assumes "\<forall>k \<in> set ks. k < 26" "\<forall>d \<in> set ds. d < 8"
  shows "map GpioPort (setLineNames (map (\<lambda>k. [char_of (65 + k)]) ks) (map digit_char ds)) =
    map (\<lambda>n. Inr (of_nat n)) (concat (map (\<lambda>k. map (\<lambda>d. 8 * k + d) ds) ks))"
proof -
  have "GpioPort ([char_of (65 + k)] @ [digit_char d]) = Inr (of_nat (8 * k + d))"
    if "k \<in> set ks" "d \<in> set ds" for k d
  proof -
    have "k < 26" "d < 8" using assms that by simp_all
    with GpioPort_one [of k d] show ?thesis by simp
  qed
  then show ?thesis
    by (auto simp: setLineNames_def map_concat intro!: arg_cong [where f = concat])
qed

lemma setLine_ports_two:
  assumes "\<forall>d \<in> set ds. d < 8"
  shows "map GpioPort (setLineNames [''AA''] (map digit_char ds)) = map (\<lambda>n. Inr (of_nat n)) (map ((+) 208) ds)"
    and "map GpioPort (setLineNames [''AB''] (map digit_char ds)) = map (\<lambda>n. Inr (of_nat n)) (map ((+) 216) ds)"
proof -
  have "GpioPort (''AA'' @ [digit_char d]) = Inr (of_nat (208 + d))"
    "GpioPort (''AB'' @ [digit_char d]) = Inr (of_nat (216 + d))" if "d \<in> set ds" for d
    using GpioPort_two [of d] assms that by auto
  then show "map GpioPort (setLineNames [''AA''] (map digit_char ds)) = map (\<lambda>n. Inr (of_nat n)) (map ((+) 208) ds)"
    "map GpioPort (setLineNames [''AB''] (map digit_char ds)) = map (\<lambda>n. Inr (of_nat n)) (map ((+) 216) ds)"
    by (auto simp: setLineNames_def)
qed

lemma key_literals:
  "map (\<lambda>c. [c]) ''ABCDEFGHIJKLMNOPQRSTUVWX'' = map (\<lambda>k. [char_of (65 + k)]) [0..<24 :: nat]"
  "[''Y''] = map (\<lambda>k. [char_of (65 + k)]) [24 :: nat]" "[''Z''] = map (\<lambda>k. [char_of (65 + k)]) [25 :: nat]"
  "''01234567'' = map digit_char [0..<8]" "''0123'' = map digit_char [0..<4]"
  by code_simp+

lemma port_runs:
  "concat (map (\<lambda>k. map (\<lambda>d. 8 * k + d) [0..<8]) [0..<24]) @
   concat (map (\<lambda>k. map (\<lambda>d. 8 * k + d) [0..<4]) [24]) @
   concat (map (\<lambda>k. map (\<lambda>d. 8 * k + d) [0..<8]) [25]) @ map ((+) 208) [0..<8] @ map ((+) 216) [0..<4] =
   ([0..<196] @ [200..<220] :: nat list)"
  by code_simp

lemma setLineNames_split: "setLineNames [a, b] ds = setLineNames [a] ds @ setLineNames [b] ds"
  by (simp add: setLineNames_def)

lemma gpios_keys: "fst gpios = map (\<lambda>n. Inr (of_nat n)) ([0..<196] @ [200..<220])"
proof -
  have "fst gpios = map GpioPort (map fst gpios_A_N @ map fst gpios_N_AB)"
    by (simp add: gpios_def)
  also have "\<dots> = map (\<lambda>n. Inr (of_nat n))
     (concat (map (\<lambda>k. map (\<lambda>d. 8 * k + d) [0..<8]) [0..<24]) @
      concat (map (\<lambda>k. map (\<lambda>d. 8 * k + d) [0..<4]) [24]) @
      concat (map (\<lambda>k. map (\<lambda>d. 8 * k + d) [0..<8]) [25]) @ map ((+) 208) [0..<8] @ map ((+) 216) [0..<4])"
  proof -
    have b: "\<forall>d \<in> set [0..<8]. d < (8 :: nat)" "\<forall>d \<in> set [0..<4]. d < (8 :: nat)"
      "\<forall>k \<in> set [0..<24]. k < (26 :: nat)" "\<forall>k \<in> set [24]. k < (26 :: nat)" "\<forall>k \<in> set [25]. k < (26 :: nat)"
      by auto
    show ?thesis
      unfolding gpios_key_names setLineNames_split key_literals map_append
        setLine_ports [OF b(3,1)] setLine_ports [OF b(4,2)] setLine_ports [OF b(5,1)]
        setLine_ports_two [OF b(1)] setLine_ports_two [OF b(2)] by (simp only: append_assoc)
  qed
  also note port_runs
  finally show ?thesis .
qed

lemma gpios_names: "list_all (\<lambda>g. gpio_name g \<noteq> []) (snd gpios)"
  by (simp add: gpios_def gpios_A_N_def gpios_N_AB_def)

lemma length_gpios: "length (fst gpios) = length (snd gpios)"
  by (simp add: gpios_def)

text \<open>The table of line functions describes exactly the lines that the data registers have: the map
  literal names every port below 196 and from 200 to 219 once, no key is fatal, and
  \<^verbatim>\<open>GpioPortToFunction\<close> gives a name for these ports and the empty string for all others.
\<close>

theorem GpioPortToFunction_total: "GpioPortToFunction p \<noteq> [] \<longleftrightarrow> data_port p"
proof (cases "data_port p")
  case True
  have "set ([0..<196] @ [200..<220]) = {n. n < 196 \<or> 200 \<le> n \<and> n < (220 :: nat)}"
    by (simp only: set_append set_upt set_eq_iff Un_iff atLeastLessThan_iff mem_Collect_eq) auto
  with True have "unat p \<in> set ([0..<196] @ [200..<220])"
    by (simp only: data_port_def mem_Collect_eq)
  then have "(Inr (of_nat (unat p)) :: panic + u32) \<in> set (fst gpios)"
    unfolding gpios_keys set_map by (rule imageI)
  then obtain g where g: "map_of (zip (fst gpios) (snd gpios)) (Inr p) = Some g"
    by (auto simp: map_of_zip_is_Some [OF length_gpios])
  then have "g \<in> set (snd gpios)" by (auto dest!: map_of_SomeD dest: set_zip_rightD)
  with g True gpios_names show ?thesis by (auto simp: GpioPortToFunction_def list_all_iff)
next
  case False
  have "Inr p \<notin> set (fst gpios)"
  proof
    assume "Inr p \<in> set (fst gpios)"
    then obtain n where n: "n \<in> set ([0..<196] @ [200..<220])" "p = of_nat n"
      unfolding gpios_keys set_map by (elim imageE) (simp only: sum.inject)
    then have "n < 196 \<or> 200 \<le> n \<and> n < 220"
      by (simp only: set_append set_upt Un_iff atLeastLessThan_iff) auto
    with n(2) False show False by (auto simp: data_port_def unat_of_nat take_bit_eq_mod)
  qed
  then have "map_of (zip (fst gpios) (snd gpios)) (Inr p) = None"
    by (auto simp: map_of_eq_None_iff dest: set_zip_leftD)
  with False show ?thesis by (simp add: GpioPortToFunction_def)
qed

end
