(* ===== verification/Gpiowatcher.thy ===== *)
theory Gpiowatcher
  imports Gpio_Reg
begin

text \<open>
  The GPIO watcher (\<^verbatim>\<open>pkg/gpiowatcher\<close>): it samples the GPIO state and either prints what changes or
  records the samples, and it can play a recording back. The binary log is a list of bytes; the
  file that takes it accepts a limited number of bytes, after which writing is fatal. The text log
  is a list of lines, each with the values that are printed; the formatting is left out. Where
  Go ranges over a map of a state, the model takes the entries as a list.
\<close>

unbundle bit_operations_syntax

section \<open>The binary log\<close>

definition le64 :: "u64 \<Rightarrow> u8 list" where
  "le64 v = le32 (ucast v) @ le32 (ucast (drop_bit 32 v))"

record outFile =
  of_bytes :: "u8 list"
  of_limit :: nat

text \<open>\<^verbatim>\<open>binary.Write\<close> of an encoded value, with the \<^verbatim>\<open>log.Fatalf\<close> that follows a failure.\<close>

definition binaryWrite :: "u8 list \<Rightarrow> (outFile, unit) io" where
  "binaryWrite bs f =
     (if length (of_bytes f) + length bs \<le> of_limit f
      then (Inr (), f\<lparr>of_bytes := of_bytes f @ bs\<rparr>)
      else (Inl (LogFatal ''binary.Write failed''), f))"

type_synonym entries = "(u32 \<times> u32) list"

definition binaryLog_Log :: "int \<Rightarrow> entries \<Rightarrow> entries \<Rightarrow> (outFile, unit) io" where
  "binaryLog_Log now gs ss =
     thn (binaryWrite (le64 (word_of_int now)))
    (thn (binaryWrite (le32 (of_nat (length gs))))
    (thn (binaryWrite (le32 (of_nat (length ss))))
    (thn (forM (\<lambda>(k, v). thn (binaryWrite (le32 k)) (binaryWrite (le32 v))) gs)
         (forM (\<lambda>(k, v). thn (binaryWrite (le32 k)) (binaryWrite (le32 v))) ss))))"

definition newBinaryLog :: "int \<Rightarrow> entries \<Rightarrow> entries \<Rightarrow> (outFile, unit) io" where
  "newBinaryLog now gs ss = binaryLog_Log now gs ss"

section \<open>Playback\<close>

text \<open>\<^verbatim>\<open>binary.Read\<close> of \<open>n\<close> bytes: nothing left is \<^verbatim>\<open>io.EOF\<close>, too little \<^verbatim>\<open>io.ErrUnexpectedEOF\<close>.\<close>

datatype readErr = EOF | UnexpectedEOF

definition binaryRead :: "nat \<Rightarrow> u8 list \<Rightarrow> readErr + u8 list \<times> u8 list" where
  "binaryRead n bs =
     (if n \<le> length bs then Inr (take n bs, drop n bs)
      else if bs = [] then Inl EOF else Inl UnexpectedEOF)"

definition read32 :: "u8 list \<Rightarrow> panic + u32 \<times> u8 list" where
  "read32 bs =
     (case binaryRead 4 bs of
        Inl e \<Rightarrow> Inl (LogFatal ''binary.Read failed'')
      | Inr (x, rest) \<Rightarrow> Inr (of_le32 x, rest))"

fun readEntries :: "nat \<Rightarrow> (u32 \<rightharpoonup> u32) \<Rightarrow> u8 list \<Rightarrow> panic + (u32 \<rightharpoonup> u32) \<times> u8 list" where
  "readEntries 0 m bs = Inr (m, bs)"
| "readEntries (Suc n) m bs =
     (case read32 bs of
        Inl e \<Rightarrow> Inl e
      | Inr (k, bs1) \<Rightarrow>
          (case read32 bs1 of
             Inl e \<Rightarrow> Inl e
           | Inr (v, bs2) \<Rightarrow> readEntries n (m(k \<mapsto> v)) bs2))"

text \<open>\<^verbatim>\<open>playback.SnapshotGpio\<close>: the next state, or \<open>None\<close> (nil) at the end, and the rest of the input.\<close>

definition playback_SnapshotGpio :: "u8 list \<Rightarrow> panic + State option \<times> u8 list" where
  "playback_SnapshotGpio bs =
     (case binaryRead 8 bs of
        Inl EOF \<Rightarrow> Inr (None, bs)
      | Inl UnexpectedEOF \<Rightarrow> Inl (LogFatal ''binary.Read failed'')
      | Inr (unix, bs1) \<Rightarrow>
     (case read32 bs1 of
        Inl e \<Rightarrow> Inl e
      | Inr (ng, bs2) \<Rightarrow>
     (case read32 bs2 of
        Inl e \<Rightarrow> Inl e
      | Inr (ns, bs3) \<Rightarrow>
     (case readEntries (unat ng) Map.empty bs3 of
        Inl e \<Rightarrow> Inl e
      | Inr (g, bs4) \<Rightarrow>
     (case readEntries (unat ns) Map.empty bs4 of
        Inl e \<Rightarrow> Inl e
      | Inr (s, bs5) \<Rightarrow> Inr (Some \<lparr>Gpio = g, Scu = s\<rparr>, bs5))))))"

section \<open>The text log\<close>

datatype watchLine =
    LineHigh string bool
  | LineLow string bool
  | ScuIs u32 u32 string
  | BecameInput string bool
  | BecameOutput string bool
  | DrivingHigh string
  | SensingHigh string
  | DrivingLow string
  | SensingLow string
  | ScuNow u32 u32

record stdoutLog =
  sl_p :: State
  sl_dir :: "u32 \<Rightarrow> bool"
  sl_ignore :: "u32 \<Rightarrow> bool"
  sl_plt :: "u32 \<Rightarrow> string"

text \<open>\<^verbatim>\<open>PortName\<close> of the platform: its own name of the line or the function of the pin.\<close>

definition PortName :: "(u32 \<Rightarrow> string \<times> bool) \<Rightarrow> u32 \<Rightarrow> string" where
  "PortName g p = (case g p of (n, ok) \<Rightarrow> if \<not> ok then GpioPortToFunction p else n)"

text \<open>\<^verbatim>\<open>strings.Split(s, ",")\<close>.\<close>

fun splitComma :: "string \<Rightarrow> string list" where
  "splitComma [] = [[]]"
| "splitComma (c # cs) =
     (if c = CHR '','' then [] # splitComma cs
      else case splitComma cs of p # ps \<Rightarrow> (c # p) # ps | [] \<Rightarrow> [[c]])"

fun ignorePorts :: "string list \<Rightarrow> (u32 \<Rightarrow> bool) \<Rightarrow> panic + (u32 \<Rightarrow> bool)" where
  "ignorePorts [] m = Inr m"
| "ignorePorts (part # parts) m =
     (case GpioPort part of
        Inl e \<Rightarrow> Inl e
      | Inr p \<Rightarrow> ignorePorts parts (m(p := True)))"

definition listLine :: "State \<Rightarrow> (u32 \<Rightarrow> string) \<Rightarrow> (u32 \<Rightarrow> bool) \<Rightarrow> LineState \<Rightarrow> watchLine list" where
  "listLine p plt dir g =
     (case LState g of
        LINE_STATE_HIGH \<Rightarrow> [LineHigh (plt (Port g)) (dir (Port g))]
      | LINE_STATE_LOW \<Rightarrow> [LineLow (plt (Port g)) (dir (Port g))]
      | LINE_STATE_SCU \<Rightarrow> [ScuIs (Port g) (lk (Scu p) (Port g)) (ScuRegisterToFunction (Port g))]
      | _ \<Rightarrow> [])"

definition newStdoutLog ::
  "regOrder \<Rightarrow> regOrder \<Rightarrow> State \<Rightarrow> string \<Rightarrow> (u32 \<Rightarrow> string) \<Rightarrow> panic + stdoutLog \<times> watchLine list" where
  "newStdoutLog dirs datas p ignoreLines plt =
     (case (if ignoreLines \<noteq> [] then ignorePorts (splitComma ignoreLines) (\<lambda>_. False)
            else Inr (\<lambda>_. False)) of
        Inl e \<Rightarrow> Inl e
      | Inr ign \<Rightarrow>
     (case State_List dirs datas p of
        Inl e \<Rightarrow> Inl e
      | Inr gs \<Rightarrow>
          let dir = fold (\<lambda>g d. if LState g = LINE_STATE_OUTPUT then d(Port g := True) else d) gs (\<lambda>_. False)
          in Inr (\<lparr>sl_p = p, sl_dir = dir, sl_ignore = ign, sl_plt = plt\<rparr>,
                  concat (map (listLine p plt dir) gs))))"

text \<open>The body of the loop over the changes.\<close>

definition logLine ::
  "regOrder \<Rightarrow> State \<Rightarrow> stdoutLog \<Rightarrow> LineState \<Rightarrow> panic + stdoutLog \<times> watchLine list" where
  "logLine datas s l g =
     (let p = Port g; name = sl_plt l p in
      if sl_ignore l p then Inr (l, [])
      else case LState g of
        LINE_STATE_BECAME_INPUT \<Rightarrow>
          (case PortValue datas s p of
             Inl e \<Rightarrow> Inl e
           | Inr v \<Rightarrow> Inr (l\<lparr>sl_dir := (sl_dir l)(p := False)\<rparr>, [BecameInput name v]))
      | LINE_STATE_BECAME_OUTPUT \<Rightarrow>
          (case PortValue datas s p of
             Inl e \<Rightarrow> Inl e
           | Inr v \<Rightarrow> Inr (l\<lparr>sl_dir := (sl_dir l)(p := True)\<rparr>, [BecameOutput name v]))
      | LINE_STATE_BECAME_HIGH \<Rightarrow> Inr (l, [if sl_dir l p then DrivingHigh name else SensingHigh name])
      | LINE_STATE_BECAME_LOW \<Rightarrow> Inr (l, [if sl_dir l p then DrivingLow name else SensingLow name])
      | LINE_STATE_SCU_CHANGED \<Rightarrow> Inr (l, [ScuNow p (lk (Scu s) p)])
      | _ \<Rightarrow> Inr (l, []))"

fun logLines ::
  "regOrder \<Rightarrow> State \<Rightarrow> stdoutLog \<Rightarrow> LineState list \<Rightarrow> panic + stdoutLog \<times> watchLine list" where
  "logLines datas s l [] = Inr (l, [])"
| "logLines datas s l (g # gs) =
     (case logLine datas s l g of
        Inl e \<Rightarrow> Inl e
      | Inr (l1, out1) \<Rightarrow>
          (case logLines datas s l1 gs of
             Inl e \<Rightarrow> Inl e
           | Inr (l2, out2) \<Rightarrow> Inr (l2, out1 @ out2)))"

definition stdoutLog_Log ::
  "regOrder \<Rightarrow> regOrder \<Rightarrow> entries \<Rightarrow> entries \<Rightarrow> stdoutLog \<Rightarrow> State \<Rightarrow> panic + stdoutLog \<times> watchLine list" where
  "stdoutLog_Log dirs datas gs ss l s =
     (case (if \<not> State_Equal (sl_p l) gs ss
            then (case State_Diff dirs datas s (sl_p l) of
                    Inl e \<Rightarrow> Inl e
                  | Inr ds \<Rightarrow> logLines datas s l ds)
            else Inr (l, [])) of
        Inl e \<Rightarrow> Inl e
      | Inr (l', out) \<Rightarrow> Inr (l'\<lparr>sl_p := s\<rparr>, out))"

section \<open>Recording and playing back\<close>

definition encodeEntries :: "entries \<Rightarrow> u8 list" where
  "encodeEntries es = concat (map (\<lambda>(k, v). le32 k @ le32 v) es)"

definition encodeSample :: "int \<Rightarrow> entries \<Rightarrow> entries \<Rightarrow> u8 list" where
  "encodeSample now gs ss =
     le64 (word_of_int now) @ le32 (of_nat (length gs)) @ le32 (of_nat (length ss)) @
     encodeEntries gs @ encodeEntries ss"

lemma length_le64 [simp]: "length (le64 v) = 8"
  by (simp add: le64_def)

lemma forM_binaryWrite:
  "length (of_bytes f) + length (encodeEntries es) \<le> of_limit f \<Longrightarrow>
   forM (\<lambda>(k, v). thn (binaryWrite (le32 k)) (binaryWrite (le32 v))) es f =
     (Inr (), f\<lparr>of_bytes := of_bytes f @ encodeEntries es\<rparr>)"
proof (induction es arbitrary: f)
  case Nil
  then show ?case by (simp add: ret_def encodeEntries_def)
next
  case (Cons e es)
  obtain k v where e: "e = (k, v)" by fastforce
  from Cons.prems Cons.IH [of "f\<lparr>of_bytes := of_bytes f @ le32 k @ le32 v\<rparr>"] show ?case
    by (simp add: e thn_def bnd_def binaryWrite_def encodeEntries_def)
qed

lemma binaryLog_Log_run:
  assumes "length (of_bytes f) + length (encodeSample now gs ss) \<le> of_limit f"
  shows "binaryLog_Log now gs ss f = (Inr (), f\<lparr>of_bytes := of_bytes f @ encodeSample now gs ss\<rparr>)"
proof -
  let ?f = "f\<lparr>of_bytes := of_bytes f @ le64 (word_of_int now) @ le32 (of_nat (length gs)) @ le32 (of_nat (length ss))\<rparr>"
  have 1: "forM (\<lambda>(k, v). thn (binaryWrite (le32 k)) (binaryWrite (le32 v))) gs ?f =
      (Inr (), ?f\<lparr>of_bytes := of_bytes ?f @ encodeEntries gs\<rparr>)"
    using assms by (intro forM_binaryWrite) (simp add: encodeSample_def)
  have 2: "forM (\<lambda>(k, v). thn (binaryWrite (le32 k)) (binaryWrite (le32 v))) ss
      (?f\<lparr>of_bytes := of_bytes ?f @ encodeEntries gs\<rparr>) =
      (Inr (), ?f\<lparr>of_bytes := (of_bytes ?f @ encodeEntries gs) @ encodeEntries ss\<rparr>)"
    using assms forM_binaryWrite [of "?f\<lparr>of_bytes := of_bytes ?f @ encodeEntries gs\<rparr>" ss]
    by (simp add: encodeSample_def)
  show ?thesis
    using assms 1 2 by (simp add: binaryLog_Log_def thn_def bnd_def binaryWrite_def encodeSample_def)
qed

lemma read32_le32: "read32 (le32 v @ bs) = Inr (v, bs)"
  by (simp add: read32_def binaryRead_def)

lemma readEntries_encode:
  "distinct (map fst es) \<Longrightarrow> readEntries (length es) m (encodeEntries es @ bs) = Inr (m ++ map_of es, bs)"
proof (induction es arbitrary: m)
  case Nil
  then show ?case by (simp add: encodeEntries_def)
next
  case (Cons e es)
  obtain k v where e: "e = (k, v)" by fastforce
  have "k \<notin> dom (map_of es)" using Cons.prems e by (simp add: dom_map_of_conv_image_fst)
  then have "m(k \<mapsto> v) ++ map_of es = m ++ (map_of es)(k \<mapsto> v)"
    by (auto simp: map_add_def fun_eq_iff domIff split: option.split)
  with Cons.IH [of "m(k \<mapsto> v)"] Cons.prems show ?case
    by (simp add: e encodeEntries_def read32_le32 del: fun_upd_apply)
qed

definition sample_ok :: "entries \<Rightarrow> entries \<Rightarrow> bool" where
  "sample_ok gs ss \<longleftrightarrow> distinct (map fst gs) \<and> distinct (map fst ss) \<and>
     length gs < 2 ^ 32 \<and> length ss < 2 ^ 32"

lemma playback_encode:
  assumes "sample_ok gs ss"
  shows "playback_SnapshotGpio (encodeSample now gs ss @ bs) =
     Inr (Some \<lparr>Gpio = map_of gs, Scu = map_of ss\<rparr>, bs)"
proof -
  have "unat (of_nat (length gs) :: u32) = length gs" "unat (of_nat (length ss) :: u32) = length ss"
    using assms by (simp_all add: sample_ok_def unat_of_nat take_bit_eq_mod)
  then show ?thesis
    using assms readEntries_encode [of gs Map.empty "encodeEntries ss @ bs"]
      readEntries_encode [of ss Map.empty bs]
    by (simp add: playback_SnapshotGpio_def encodeSample_def binaryRead_def read32_le32 sample_ok_def)
qed

text \<open>A run of the watcher on a recording: the states it takes until the end of the input.\<close>

lemma readEntries_length: "readEntries n m bs = Inr (m', bs') \<Longrightarrow> length bs' \<le> length bs"
proof (induction n m bs rule: readEntries.induct)
  case (2 n m bs)
  from "2.prems" obtain k bs1 v bs2 where
    r: "read32 bs = Inr (k, bs1)" "read32 bs1 = Inr (v, bs2)" "readEntries n (m(k \<mapsto> v)) bs2 = Inr (m', bs')"
    by (auto split: sum.splits prod.splits)
  then have "length bs1 \<le> length bs" "length bs2 \<le> length bs1"
    by (auto simp: read32_def binaryRead_def split: if_splits)
  with "2.IH" [OF r(1) refl r(2) refl r(3)] show ?case by simp
qed simp

lemma playback_length:
  assumes "playback_SnapshotGpio bs = Inr (Some s, bs')"
  shows "length bs' < length bs"
proof -
  from assms obtain u bs1 g bs2 c bs3 mg bs4 ms where
    r: "binaryRead 8 bs = Inr (u, bs1)" "read32 bs1 = Inr (g, bs2)" "read32 bs2 = Inr (c, bs3)"
      "readEntries (unat g) Map.empty bs3 = Inr (mg, bs4)" "readEntries (unat c) Map.empty bs4 = Inr (ms, bs')"
    by (auto simp: playback_SnapshotGpio_def split: sum.splits prod.splits readErr.splits)
  have "length bs1 < length bs" "length bs2 \<le> length bs1" "length bs3 \<le> length bs2"
    using r(1-3) by (auto simp: read32_def binaryRead_def split: if_splits)
  with readEntries_length [OF r(4)] readEntries_length [OF r(5)] show ?thesis by simp
qed

text \<open>
  The loop of \<^verbatim>\<open>Gpiowatcher\<close> over a recording, with the outputter as a function on its state. (On
  live registers the loop has no end; there each round is one \<^verbatim>\<open>SnapshotGpio\<close> and one \<^verbatim>\<open>Log\<close>.)
\<close>

function watchLoop :: "('q \<Rightarrow> State \<Rightarrow> panic + 'q) \<Rightarrow> 'q \<Rightarrow> u8 list \<Rightarrow> panic + 'q" where
  "watchLoop logf q bs =
     (case playback_SnapshotGpio bs of
        Inl e \<Rightarrow> Inl e
      | Inr (None, _) \<Rightarrow> Inr q
      | Inr (Some s, bs') \<Rightarrow>
          (case logf q s of
             Inl e \<Rightarrow> Inl e
           | Inr q' \<Rightarrow> watchLoop logf q' bs'))"
  by pat_completeness auto
termination
  by (relation "measure (\<lambda>(logf, q, bs). length bs)") (auto intro: playback_length dest!: sym [of "Inr _"])

declare watchLoop.simps [simp del]

text \<open>
  The first sample goes to the constructor of the log, which dereferences it: an empty recording
  is a run-time error there (or the fatal error of a bad list of ignored lines before it).
\<close>

definition Gpiowatcher_playback ::
  "(State \<Rightarrow> panic + 'q) \<Rightarrow> ('q \<Rightarrow> State \<Rightarrow> panic + 'q) \<Rightarrow> u8 list \<Rightarrow> panic + 'q" where
  "Gpiowatcher_playback new logf bs =
     (case playback_SnapshotGpio bs of
        Inl e \<Rightarrow> Inl e
      | Inr (None, _) \<Rightarrow> Inl SegFault
      | Inr (Some p, bs') \<Rightarrow>
          (case new p of
             Inl e \<Rightarrow> Inl e
           | Inr q \<Rightarrow> watchLoop logf q bs'))"

text \<open>What the outputter sees of a list of states, in order.\<close>

fun feed :: "('q \<Rightarrow> State \<Rightarrow> panic + 'q) \<Rightarrow> 'q \<Rightarrow> State list \<Rightarrow> panic + 'q" where
  "feed logf q [] = Inr q"
| "feed logf q (s # ss) = (case logf q s of Inl e \<Rightarrow> Inl e | Inr q' \<Rightarrow> feed logf q' ss)"

type_synonym sample = "int \<times> entries \<times> entries"

definition recorded :: "sample list \<Rightarrow> u8 list" where
  "recorded xs = concat (map (\<lambda>(t, gs, ss). encodeSample t gs ss) xs)"

definition states :: "sample list \<Rightarrow> State list" where
  "states xs = map (\<lambda>(t, gs, ss). \<lparr>Gpio = map_of gs, Scu = map_of ss\<rparr>) xs"

lemma watchLoop_recorded:
  "\<forall>(t, gs, ss) \<in> set xs. sample_ok gs ss \<Longrightarrow> watchLoop logf q (recorded xs) = feed logf q (states xs)"
proof (induction xs arbitrary: q)
  case Nil
  show ?case
    by (subst watchLoop.simps) (simp add: recorded_def states_def playback_SnapshotGpio_def binaryRead_def)
next
  case (Cons x xs)
  obtain t gs ss where x: "x = (t, gs, ss)" by (metis prod_cases3)
  with Cons.prems have ok: "sample_ok gs ss" "\<forall>(t, gs, ss) \<in> set xs. sample_ok gs ss" by auto
  have "recorded (x # xs) = encodeSample t gs ss @ recorded xs" by (simp add: x recorded_def)
  with playback_encode [OF ok(1), of t "recorded xs"] Cons.IH [OF ok(2)] show ?case
    by (subst watchLoop.simps) (simp add: x states_def split: sum.split)
qed

lemma binaryLog_all:
  assumes "length (of_bytes f) + length (recorded xs) \<le> of_limit f"
  shows "forM (\<lambda>(t, gs, ss). binaryLog_Log t gs ss) xs f = (Inr (), f\<lparr>of_bytes := of_bytes f @ recorded xs\<rparr>)"
  using assms
proof (induction xs arbitrary: f)
  case Nil
  then show ?case by (simp add: recorded_def ret_def)
next
  case (Cons x xs)
  obtain t gs ss where x: "x = (t, gs, ss)" by (metis prod_cases3)
  have r: "recorded (x # xs) = encodeSample t gs ss @ recorded xs" by (simp add: x recorded_def)
  with Cons.prems Cons.IH [of "f\<lparr>of_bytes := of_bytes f @ encodeSample t gs ss\<rparr>"] show ?case
    by (simp add: x thn_def bnd_def binaryLog_Log_run)
qed

text \<open>C20.
  Recording and playing back: a run that logs samples with the binary log into a file that takes
  them, played back, ends, gives the first state to the constructor of the new log and the others to
  its \<^verbatim>\<open>Log\<close> in order, each with the register values of the sample it was recorded from, in
  whatever order the entries were written.
\<close>

theorem record_playback:
  assumes "\<forall>(t, gs, ss) \<in> set (x # xs). sample_ok gs ss" "length (recorded (x # xs)) \<le> n"
  shows "\<exists>f. forM (\<lambda>(t, gs, ss). binaryLog_Log t gs ss) (x # xs) \<lparr>of_bytes = [], of_limit = n\<rparr> = (Inr (), f) \<and>
     Gpiowatcher_playback new logf (of_bytes f) =
       (case new (hd (states (x # xs))) of Inl e \<Rightarrow> Inl e | Inr q \<Rightarrow> feed logf q (states xs))"
proof -
  obtain t gs ss where x: "x = (t, gs, ss)" by (metis prod_cases3)
  with assms(1) have ok: "sample_ok gs ss" "\<forall>(t, gs, ss) \<in> set xs. sample_ok gs ss" by auto
  have r: "recorded (x # xs) = encodeSample t gs ss @ recorded xs" by (simp add: x recorded_def)
  have "forM (\<lambda>(t, gs, ss). binaryLog_Log t gs ss) (x # xs) \<lparr>of_bytes = [], of_limit = n\<rparr> =
      (Inr (), \<lparr>of_bytes = recorded (x # xs), of_limit = n\<rparr>)"
    using binaryLog_all [of "\<lparr>of_bytes = [], of_limit = n\<rparr>" "x # xs"] assms(2) by simp
  moreover have "Gpiowatcher_playback new logf (recorded (x # xs)) =
      (case new (hd (states (x # xs))) of Inl e \<Rightarrow> Inl e | Inr q \<Rightarrow> feed logf q (states xs))"
    unfolding r Gpiowatcher_playback_def
    using playback_encode [OF ok(1), of t "recorded xs"] watchLoop_recorded [OF ok(2), of logf]
    by (simp add: x states_def split: sum.split)
  ultimately show ?thesis by auto
qed

theorem record_playback_witness:
  "\<exists>f. forM (\<lambda>(t, gs, ss). binaryLog_Log t gs ss) [(5, [(0, 1)], []), (6, [(0, 2)], [(8, 9)])]
       \<lparr>of_bytes = [], of_limit = 100\<rparr> = (Inr (), f) \<and>
     Gpiowatcher_playback (\<lambda>s. Inr [Gpio s 0]) (\<lambda>q s. Inr (q @ [Gpio s 0])) (of_bytes f) = Inr [Some 1, Some 2]"
  using record_playback [of "(5, [(0, 1)], [])" "[(6, [(0, 2)], [(8, 9)])]" 100
      "\<lambda>s. Inr [Gpio s 0]" "\<lambda>q s. Inr (q @ [Gpio s 0])"]
  by (simp add: sample_ok_def recorded_def encodeSample_def encodeEntries_def states_def)

section \<open>The text log knows the directions\<close>

text \<open>What the loop over the changes does to the direction of a line.\<close>

definition dirStep :: "(u32 \<Rightarrow> bool) \<Rightarrow> LineState \<Rightarrow> (u32 \<Rightarrow> bool) \<Rightarrow> u32 \<Rightarrow> bool" where
  "dirStep ign g d =
     (if ign (Port g) then d
      else if LState g = LINE_STATE_BECAME_INPUT then d(Port g := False)
      else if LState g = LINE_STATE_BECAME_OUTPUT then d(Port g := True)
      else d)"

lemma logLine_dir:
  assumes "mset datas = mset gpioDataRegs"
  shows "\<exists>out. logLine datas s l g = Inr (l\<lparr>sl_dir := dirStep (sl_ignore l) g (sl_dir l)\<rparr>, out)"
  by (auto simp: logLine_def dirStep_def Let_def PortValue_spec [OF assms] split: line_state.split)

lemma logLines_dir:
  assumes "mset datas = mset gpioDataRegs"
  shows "\<exists>out. logLines datas s l gs = Inr (l\<lparr>sl_dir := fold (dirStep (sl_ignore l)) gs (sl_dir l)\<rparr>, out)"
proof (induction gs arbitrary: l)
  case Nil
  show ?case by simp
next
  case (Cons g gs)
  obtain out where g: "logLine datas s l g = Inr (l\<lparr>sl_dir := dirStep (sl_ignore l) g (sl_dir l)\<rparr>, out)"
    using logLine_dir [OF assms] by blast
  with Cons.IH [of "l\<lparr>sl_dir := dirStep (sl_ignore l) g (sl_dir l)\<rparr>"] show ?case by auto
qed

lemma LineState_eta: "g = \<lparr>Port = Port g, LState = LState g\<rparr>" for g :: LineState
  by simp

lemma fold_dirStep:
  assumes "\<not> ign p"
    and "\<not> (\<lparr>Port = p, LState = LINE_STATE_BECAME_OUTPUT\<rparr> \<in> set gs \<and> \<lparr>Port = p, LState = LINE_STATE_BECAME_INPUT\<rparr> \<in> set gs)"
  shows "fold (dirStep ign) gs d p \<longleftrightarrow>
     \<lparr>Port = p, LState = LINE_STATE_BECAME_OUTPUT\<rparr> \<in> set gs \<or>
     d p \<and> \<lparr>Port = p, LState = LINE_STATE_BECAME_INPUT\<rparr> \<notin> set gs"
  using assms(2)
proof (induction gs arbitrary: d)
  case (Cons g gs)
  have eq: "(\<lparr>Port = p, LState = x\<rparr> = g) \<longleftrightarrow> Port g = p \<and> LState g = x" for x
    by (metis LineState.select_convs(1,2) LineState_eta)
  consider "Port g \<noteq> p \<or> LState g \<noteq> LINE_STATE_BECAME_OUTPUT \<and> LState g \<noteq> LINE_STATE_BECAME_INPUT"
    | "Port g = p" "LState g = LINE_STATE_BECAME_OUTPUT" | "Port g = p" "LState g = LINE_STATE_BECAME_INPUT"
    by blast
  then show ?case
  proof cases
    case 1
    then have "dirStep ign g d p = d p" by (auto simp: dirStep_def)
    with 1 Cons.IH [of "dirStep ign g d"] Cons.prems show ?thesis by (simp add: eq disj_ac) metis
  next
    case 2
    then have "dirStep ign g d p" using assms(1) by (simp add: dirStep_def)
    with 2 Cons.IH [of "dirStep ign g d"] Cons.prems show ?thesis by (simp add: eq)
  next
    case 3
    then have "\<not> dirStep ign g d p" using assms(1) by (simp add: dirStep_def)
    with 3 Cons.IH [of "dirStep ign g d"] Cons.prems show ?thesis by (simp add: eq)
  qed
qed simp

definition watch_inv :: "regOrder \<Rightarrow> stdoutLog \<Rightarrow> bool" where
  "watch_inv dirs l \<longleftrightarrow>
     (\<forall>p. dir_port p \<and> \<not> sl_ignore l p \<longrightarrow> PortDirection dirs (sl_p l) p = Inr (sl_dir l p))"

lemma dir_changes:
  assumes "mset datas = mset gpioDataRegs" "mset dirs = mset gpioDirRegs" "State_Diff dirs datas s b = Inr ds"
  shows "\<lparr>Port = p, LState = LINE_STATE_BECAME_OUTPUT\<rparr> \<in> set ds \<longleftrightarrow>
      dir_port p \<and> PortDirection dirs s p = Inr True \<and> PortDirection dirs b p = Inr False"
    and "\<lparr>Port = p, LState = LINE_STATE_BECAME_INPUT\<rparr> \<in> set ds \<longleftrightarrow>
      dir_port p \<and> PortDirection dirs s p = Inr False \<and> PortDirection dirs b p = Inr True"
proof -
  from diff_lines [OF assms(1,2), of s "Some b"] assms(3) have
    ds: "set ds = {d. \<exists>a k p. dir_port p \<and> dirLine p = Some (a, k) \<and> d \<in> set (diffDirLine s (Some b) a k p)} \<union>
              {d. \<exists>a k p. data_port p \<and> dataLine p = (a, k) \<and> d \<in> set (diffDataLine s (Some b) a k p)} \<union>
              set (diffScu s (Some b))" by (auto simp: State_Diff_def)
  note d = ds diffDirLine_def diffDataLine_def diffScu_def Let_def bitSet_bit PortDirection_spec [OF assms(2)]
  show "\<lparr>Port = p, LState = LINE_STATE_BECAME_OUTPUT\<rparr> \<in> set ds \<longleftrightarrow>
      dir_port p \<and> PortDirection dirs s p = Inr True \<and> PortDirection dirs b p = Inr False"
    by (cases "dirLine p") (auto simp: d split: if_splits)
  show "\<lparr>Port = p, LState = LINE_STATE_BECAME_INPUT\<rparr> \<in> set ds \<longleftrightarrow>
      dir_port p \<and> PortDirection dirs s p = Inr False \<and> PortDirection dirs b p = Inr True"
    by (cases "dirLine p") (auto simp: d split: if_splits)
qed

lemma dir_port_line: "dir_port p \<Longrightarrow> \<exists>a k. dirLine p = Some (a, k)"
  by (auto simp: dir_port_def dirLine_def)

text \<open>A sample that has an entry for each direction register, as every snapshot has.\<close>

definition complete :: "entries \<Rightarrow> bool" where
  "complete gs \<longleftrightarrow> fst ` set gpioDirRegs \<subseteq> fst ` set gs"

lemma Log_inv:
  assumes ord: "mset datas = mset gpioDataRegs" "mset dirs = mset gpioDirRegs"
    and inv: "watch_inv dirs l" and gs: "complete gs" and s_def: "s = \<lparr>Gpio = map_of gs, Scu = map_of ss\<rparr>"
  shows "\<exists>l' out. stdoutLog_Log dirs datas gs ss l s = Inr (l', out) \<and> watch_inv dirs l' \<and>
     sl_p l' = s \<and> sl_ignore l' = sl_ignore l \<and> sl_plt l' = sl_plt l"
proof (cases "State_Equal (sl_p l) gs ss")
  case True
  then have "lk (Gpio (sl_p l)) a = lk (Gpio s) a" if "a \<in> fst ` set gpioDirRegs" for a
    using sameEntries_lk [of "Gpio (sl_p l)" gs a] gs that by (auto simp: State_Equal_def complete_def s_def)
  then have "PortDirection dirs s p = PortDirection dirs (sl_p l) p" for p
    using dirLine_reg [of p] by (cases "dirLine p") (auto simp: PortDirection_spec [OF ord(2)])
  with True inv show ?thesis by (simp add: stdoutLog_Log_def watch_inv_def)
next
  case False
  obtain ds where ds: "State_Diff dirs datas s (sl_p l) = Inr ds"
    using diff_lines [OF ord, of s "Some (sl_p l)"] by (auto simp: State_Diff_def)
  obtain out where out: "logLines datas s l ds = Inr (l\<lparr>sl_dir := fold (dirStep (sl_ignore l)) ds (sl_dir l)\<rparr>, out)"
    using logLines_dir [OF ord(1)] by blast
  have "PortDirection dirs s p = Inr (fold (dirStep (sl_ignore l)) ds (sl_dir l) p)"
    if p: "dir_port p" "\<not> sl_ignore l p" for p
  proof -
    obtain v where v: "PortDirection dirs s p = Inr v"
      using dir_port_line [OF p(1)] by (auto simp: PortDirection_spec [OF ord(2)])
    have "PortDirection dirs (sl_p l) p = Inr (sl_dir l p)" using inv p by (simp add: watch_inv_def)
    then show ?thesis
      using fold_dirStep [of "sl_ignore l" p ds "sl_dir l"] dir_changes [OF ord ds, of p] v p by (cases v) auto
  qed
  with False ds out show ?thesis by (simp add: stdoutLog_Log_def watch_inv_def)
qed

lemma fold_output:
  "fold (\<lambda>g d. if LState g = LINE_STATE_OUTPUT then d(Port g := True) else d) gs d p \<longleftrightarrow>
     d p \<or> \<lparr>Port = p, LState = LINE_STATE_OUTPUT\<rparr> \<in> set gs"
proof (induction gs arbitrary: d)
  case (Cons g gs)
  have "(\<lparr>Port = p, LState = LINE_STATE_OUTPUT\<rparr> = g) \<longleftrightarrow> Port g = p \<and> LState g = LINE_STATE_OUTPUT"
    by (metis LineState.select_convs(1,2) LineState_eta)
  with Cons show ?case by auto
qed simp

lemma new_inv:
  assumes ord: "mset datas = mset gpioDataRegs" "mset dirs = mset gpioDirRegs"
    and new: "newStdoutLog dirs datas p ign plt = Inr (l, out)"
  shows "watch_inv dirs l \<and> sl_p l = p \<and> sl_plt l = plt"
proof -
  from diff_lines [OF ord, of p None] obtain gs where gs: "State_List dirs datas p = Inr gs"
    "set gs = {d. \<exists>a k q. dir_port q \<and> dirLine q = Some (a, k) \<and> d \<in> set (diffDirLine p None a k q)} \<union>
              {d. \<exists>a k q. data_port q \<and> dataLine q = (a, k) \<and> d \<in> set (diffDataLine p None a k q)} \<union>
              set (diffScu p None)" by (auto simp: State_List_def)
  have "\<lparr>Port = q, LState = LINE_STATE_OUTPUT\<rparr> \<in> set gs \<longleftrightarrow> dir_port q \<and> PortDirection dirs p q = Inr True" for q
    by (cases "dirLine q")
      (auto simp: gs(2) diffDirLine_def diffDataLine_def diffScu_def Let_def bitSet_bit
        PortDirection_spec [OF ord(2)])
  moreover have "PortDirection dirs p q = Inr True \<or> PortDirection dirs p q = Inr False" if "dir_port q" for q
    using dir_port_line [OF that] by (auto simp: PortDirection_spec [OF ord(2)])
  ultimately show ?thesis
    using new gs(1) by (fastforce simp: newStdoutLog_def watch_inv_def Let_def fold_output split: sum.splits)
qed

text \<open>Logging one sample after another, as the loop of the watcher does.\<close>

fun logAll :: "regOrder \<Rightarrow> regOrder \<Rightarrow> stdoutLog \<Rightarrow> (entries \<times> entries) list \<Rightarrow> panic + stdoutLog \<times> watchLine list" where
  "logAll dirs datas l [] = Inr (l, [])"
| "logAll dirs datas l ((gs, ss) # xs) =
     (case stdoutLog_Log dirs datas gs ss l \<lparr>Gpio = map_of gs, Scu = map_of ss\<rparr> of
        Inl e \<Rightarrow> Inl e
      | Inr (l1, out1) \<Rightarrow>
          (case logAll dirs datas l1 xs of
             Inl e \<Rightarrow> Inl e
           | Inr (l2, out2) \<Rightarrow> Inr (l2, out1 @ out2)))"

lemma logAll_inv:
  assumes ord: "mset datas = mset gpioDataRegs" "mset dirs = mset gpioDirRegs"
    and "watch_inv dirs l" "\<forall>(gs, ss) \<in> set xs. complete gs"
  shows "\<exists>l' out. logAll dirs datas l xs = Inr (l', out) \<and> watch_inv dirs l' \<and>
     sl_ignore l' = sl_ignore l \<and> sl_plt l' = sl_plt l"
  using assms(3,4)
proof (induction xs arbitrary: l)
  case (Cons x xs)
  obtain gs ss where x: "x = (gs, ss)" by fastforce
  with Cons.prems obtain l1 out1 where
    "stdoutLog_Log dirs datas gs ss l \<lparr>Gpio = map_of gs, Scu = map_of ss\<rparr> = Inr (l1, out1)"
    "watch_inv dirs l1" "sl_ignore l1 = sl_ignore l" "sl_plt l1 = sl_plt l"
    using Log_inv [OF ord Cons.prems(1) _ refl, of gs ss] by auto
  with Cons.IH [of l1] Cons.prems(2) show ?case by (auto simp: x)
qed simp

text \<open>The watcher's text log never fails on complete samples and always knows the directions: from a new
  log, after any sequence of samples, each line that has a direction and is not ignored is marked as
  an output exactly if the last sample has it as one, also when samples that \<^verbatim>\<open>Equal\<close> accepts are
  skipped.
\<close>

theorem stdoutLog_directions:
  assumes "mset datas = mset gpioDataRegs" "mset dirs = mset gpioDirRegs"
    and "newStdoutLog dirs datas p ign plt = Inr (l, out)" "\<forall>(gs, ss) \<in> set xs. complete gs"
  shows "\<exists>l' out'. logAll dirs datas l xs = Inr (l', out') \<and>
     (\<forall>q. dir_port q \<and> \<not> sl_ignore l q \<longrightarrow> PortDirection dirs (sl_p l') q = Inr (sl_dir l' q))"
  using logAll_inv [OF assms(1,2) _ assms(4)] new_inv [OF assms(1,2,3)]
  by (fastforce simp: watch_inv_def)

lemma new_total:
  assumes "mset datas = mset gpioDataRegs" "mset dirs = mset gpioDirRegs"
  shows "\<exists>l out. newStdoutLog dirs datas p [] plt = Inr (l, out) \<and> sl_ignore l = (\<lambda>_. False)"
  using diff_lines [OF assms, of p None] by (auto simp: newStdoutLog_def State_List_def Let_def)

definition zeroSample :: entries where
  "zeroSample = map (\<lambda>(a, _). (a, 0)) gpioDirRegs"

lemma complete_zero: "complete (zeroSample @ xs)"
  by (force simp: complete_def zeroSample_def)

theorem stdoutLog_directions_witness:
  "\<exists>l out l' out'. newStdoutLog gpioDirRegs gpioDataRegs \<lparr>Gpio = Map.empty, Scu = Map.empty\<rparr> [] GpioPortToFunction = Inr (l, out) \<and>
     logAll gpioDirRegs gpioDataRegs l [(zeroSample @ [(0x020, 0x100)], []), (zeroSample @ [(0x024, 0x100)], [(4, 5)])] = Inr (l', out') \<and>
     (\<forall>q. dir_port q \<and> \<not> sl_ignore l q \<longrightarrow> PortDirection gpioDirRegs (sl_p l') q = Inr (sl_dir l' q))"
proof -
  obtain l out where
    "newStdoutLog gpioDirRegs gpioDataRegs \<lparr>Gpio = Map.empty, Scu = Map.empty\<rparr> [] GpioPortToFunction = Inr (l, out)"
    using new_total [OF refl refl] by blast
  with stdoutLog_directions [OF refl refl this,
      of "[(zeroSample @ [(0x020, 0x100)], []), (zeroSample @ [(0x024, 0x100)], [(4, 5)])]"]
  show ?thesis by (auto simp: complete_zero)
qed

section \<open>How the text log describes an edge\<close>

lemma logLines_append:
  assumes "logLines datas s l xs = Inr (l1, out1)" "logLines datas s l1 ys = Inr (l2, out2)"
  shows "logLines datas s l (xs @ ys) = Inr (l2, out1 @ out2)"
  using assms
proof (induction xs arbitrary: l out1)
  case (Cons x xs)
  from Cons.prems(1) obtain la oa ob where
    "logLine datas s l x = Inr (la, oa)" "logLines datas s la xs = Inr (l1, ob)" "out1 = oa @ ob"
    by (auto split: sum.splits prod.splits)
  with Cons.IH [of la ob] Cons.prems(2) show ?case by simp
qed simp

lemma logLines_edge:
  assumes "\<forall>g \<in> set gs. LState g \<in> {LINE_STATE_BECAME_HIGH, LINE_STATE_BECAME_LOW, LINE_STATE_SCU_CHANGED}"
  shows "logLines datas s l gs = Inr (l, concat (map (\<lambda>g.
     if sl_ignore l (Port g) then []
     else if LState g = LINE_STATE_BECAME_HIGH
     then [if sl_dir l (Port g) then DrivingHigh (sl_plt l (Port g)) else SensingHigh (sl_plt l (Port g))]
     else if LState g = LINE_STATE_BECAME_LOW
     then [if sl_dir l (Port g) then DrivingLow (sl_plt l (Port g)) else SensingLow (sl_plt l (Port g))]
     else [ScuNow (Port g) (lk (Scu s) (Port g))]) gs))"
  using assms by (induction gs) (auto simp: logLine_def Let_def)

text \<open>When a sample shows a line (not ignored, with a direction) at a new level, the text log says that
  the BMC drives it if the same sample has the line as an output, and that it senses it otherwise,
  even if the direction changed in the same sample.
\<close>

theorem Log_describes_edges:
  assumes ord: "mset datas = mset gpioDataRegs" "mset dirs = mset gpioDirRegs"
    and inv: "watch_inv dirs l" and "complete gs" and s: "s = \<lparr>Gpio = map_of gs, Scu = map_of ss\<rparr>"
    and p: "dir_port p" "data_port p" "\<not> sl_ignore l p"
    and edge: "PortValue datas s p = Inr v" "PortValue datas (sl_p l) p = Inr (\<not> v)"
    and neq: "\<not> State_Equal (sl_p l) gs ss"
  shows "\<exists>l' out d. stdoutLog_Log dirs datas gs ss l s = Inr (l', out) \<and> PortDirection dirs s p = Inr d \<and>
     (if v then (if d then DrivingHigh (sl_plt l p) else SensingHigh (sl_plt l p))
      else (if d then DrivingLow (sl_plt l p) else SensingLow (sl_plt l p))) \<in> set out"
proof -
  define r1 where "r1 = concat (map (\<lambda>(a, k, p). diffDirLine s (Some (sl_p l)) a k p) (regLines dirs))"
  define r2 where "r2 = concat (map (\<lambda>(a, k, p). diffDataLine s (Some (sl_p l)) a k p) (regLines datas))
      @ diffScu s (Some (sl_p l))"
  have ds: "State_Diff dirs datas s (sl_p l) = Inr (r1 @ r2)"
    by (simp add: State_Diff_def diff_parts [OF ord] r1_def r2_def)
  obtain out1 where 1: "logLines datas s l r1 = Inr (l\<lparr>sl_dir := fold (dirStep (sl_ignore l)) r1 (sl_dir l)\<rparr>, out1)"
    using logLines_dir [OF ord(1)] by blast
  let ?l = "l\<lparr>sl_dir := fold (dirStep (sl_ignore l)) r1 (sl_dir l)\<rparr>"
  have kinds: "\<forall>g \<in> set r2. LState g \<in> {LINE_STATE_BECAME_HIGH, LINE_STATE_BECAME_LOW, LINE_STATE_SCU_CHANGED}"
    by (auto simp: r2_def diffDataLine_def diffScu_def Let_def split: if_splits)
  let ?line = "if v then (if sl_dir ?l p then DrivingHigh (sl_plt l p) else SensingHigh (sl_plt l p))
       else (if sl_dir ?l p then DrivingLow (sl_plt l p) else SensingLow (sl_plt l p))"
  obtain out2 where 2: "logLines datas s ?l r2 = Inr (?l, out2)"
    and out2: "\<lparr>Port = p, LState = if v then LINE_STATE_BECAME_HIGH else LINE_STATE_BECAME_LOW\<rparr> \<in> set r2 \<Longrightarrow>
      ?line \<in> set out2"
  proof (rule that [OF logLines_edge [OF kinds]])
    assume "\<lparr>Port = p, LState = if v then LINE_STATE_BECAME_HIGH else LINE_STATE_BECAME_LOW\<rparr> \<in> set r2"
    then show "?line \<in> set (concat (map (\<lambda>g.
     if sl_ignore ?l (Port g) then []
     else if LState g = LINE_STATE_BECAME_HIGH
     then [if sl_dir ?l (Port g) then DrivingHigh (sl_plt ?l (Port g)) else SensingHigh (sl_plt ?l (Port g))]
     else if LState g = LINE_STATE_BECAME_LOW
     then [if sl_dir ?l (Port g) then DrivingLow (sl_plt ?l (Port g)) else SensingLow (sl_plt ?l (Port g))]
     else [ScuNow (Port g) (lk (Scu s) (Port g))]) r2))"
      using p(3) by (cases v) (auto intro: rev_bexI)
  qed
  have "\<lparr>Port = p, LState = if v then LINE_STATE_BECAME_HIGH else LINE_STATE_BECAME_LOW\<rparr> \<in> set r2"
  proof -
    obtain a k where ak: "dataLine p = (a, k)" by fastforce
    with p(2) have "(a, k, p) \<in> set (regLines datas)" by (simp add: datas_lines [OF ord(1)])
    moreover have "\<lparr>Port = p, LState = if v then LINE_STATE_BECAME_HIGH else LINE_STATE_BECAME_LOW\<rparr>
        \<in> set (diffDataLine s (Some (sl_p l)) a k p)"
      using edge ak by (auto simp: diffDataLine_def Let_def bitSet_bit PortValue_spec [OF ord(1)])
    ultimately show ?thesis by (force simp: r2_def)
  qed
  note mem = out2 [OF this]
  have log: "stdoutLog_Log dirs datas gs ss l s = Inr (?l\<lparr>sl_p := s\<rparr>, out1 @ out2)"
    using neq ds logLines_append [OF 1 2] by (simp add: stdoutLog_Log_def)
  moreover have "PortDirection dirs s p = Inr (sl_dir ?l p)"
    using Log_inv [OF ord inv assms(4) s] log p(1,3) by (auto simp: watch_inv_def)
  ultimately show ?thesis using mem by auto
qed

theorem Log_describes_edges_witness:
  "\<exists>l0 out0 l' out.
     newStdoutLog gpioDirRegs gpioDataRegs \<lparr>Gpio = Map.empty, Scu = Map.empty\<rparr> [] GpioPortToFunction = Inr (l0, out0) \<and>
     stdoutLog_Log gpioDirRegs gpioDataRegs (zeroSample @ [(0x020, 0x100)]) [] l0
       \<lparr>Gpio = map_of (zeroSample @ [(0x020, 0x100)]), Scu = Map.empty\<rparr> = Inr (l', out) \<and>
     SensingHigh (GpioPortToFunction 40) \<in> set out"
proof -
  let ?gs = "zeroSample @ [(0x020, 0x100)] :: entries" and ?p = "\<lparr>Gpio = Map.empty, Scu = Map.empty\<rparr>"
  obtain l out0 where l: "newStdoutLog gpioDirRegs gpioDataRegs ?p [] GpioPortToFunction = Inr (l, out0)"
    "sl_ignore l = (\<lambda>_. False)"
    using new_total [OF refl refl] by blast
  have inv: "watch_inv gpioDirRegs l" "sl_p l = ?p" "sl_plt l = GpioPortToFunction"
    using new_inv [OF refl refl l(1)] by simp_all
  have "PortValue gpioDataRegs \<lparr>Gpio = map_of ?gs, Scu = map_of []\<rparr> 40 = Inr True" by code_simp
  moreover have "PortValue gpioDataRegs (sl_p l) 40 = Inr (\<not> True)" unfolding inv(2) by code_simp
  moreover have "\<not> State_Equal (sl_p l) ?gs []" unfolding inv(2) by code_simp
  moreover have "dir_port 40" "data_port 40" by code_simp+
  moreover have "PortDirection gpioDirRegs \<lparr>Gpio = map_of ?gs, Scu = map_of []\<rparr> 40 = Inr False" by code_simp
  ultimately show ?thesis
    using Log_describes_edges [OF refl refl inv(1) complete_zero refl, of 40 "[(0x020, 0x100)]" "[]" True] l inv
    by auto
qed

section \<open>Ignored lines\<close>

text \<open>
  The set of ignored lines is keyed by the number of the line, and a changed register of the SCU is
  reported with the number of the register in the same place: a line that is ignored hides the
  register of the same number. GPIO line U4 has the number of SCU register A4.
\<close>

lemma logLine_ignored:
  assumes "logLine datas s l g = Inr (l', out)"
  shows "sl_ignore l' = sl_ignore l \<and> (\<forall>q v. sl_ignore l q \<longrightarrow> ScuNow q v \<notin> set out)"
  using assms by (auto simp: logLine_def Let_def split: if_splits sum.splits line_state.splits)

lemma logLines_ignored:
  assumes "logLines datas s l gs = Inr (l', out)" "sl_ignore l q"
  shows "ScuNow q v \<notin> set out"
  using assms
proof (induction gs arbitrary: l out)
  case (Cons g gs)
  from Cons.prems(1) obtain l1 o1 o2 where
    "logLine datas s l g = Inr (l1, o1)" "logLines datas s l1 gs = Inr (l', o2)" "out = o1 @ o2"
    by (auto split: sum.splits prod.splits)
  with Cons.IH [of l1 o2] Cons.prems(2) logLine_ignored [of datas s l g l1 o1] show ?case by auto
qed simp

theorem ignored_line_hides_scu:
  assumes "newStdoutLog dirs datas p ''U4'' plt = Inr (l, out)"
    and "stdoutLog_Log dirs datas gs ss l s = Inr (l', out')"
  shows "ScuNow 0xA4 v \<notin> set out'"
proof -
  have "GpioPort ''U4'' = Inr 0xA4"
    by (simp add: GpioPort_def ToUpper_def upper_def Let_def ParseUint_def char_digit_def of_char_def)
  with assms(1) have "sl_ignore l 0xA4" by (auto simp: newStdoutLog_def Let_def split: sum.splits)
  with assms(2) logLines_ignored [of datas s l] show ?thesis
    by (auto simp: stdoutLog_Log_def split: if_splits sum.splits)
qed

section \<open>Watching the registers\<close>

text \<open>
  \<^verbatim>\<open>Gpiowatcher\<close> on the registers has no end; the model runs \<open>n\<close> rounds. In each round the maps of registers are gone through in an order
  of that round.
\<close>

fun liveLoop :: "nat \<Rightarrow> (nat \<Rightarrow> ('s, State) io) \<Rightarrow> ('q \<Rightarrow> State \<Rightarrow> panic + 'q) \<Rightarrow> 'q \<Rightarrow> ('s, 'q) io" where
  "liveLoop 0 snap logf q = ret q"
| "liveLoop (Suc n) snap logf q =
     bnd (snap n) (\<lambda>s. case logf q s of Inl e \<Rightarrow> raise e | Inr q' \<Rightarrow> liveLoop n snap logf q')"

definition Gpiowatcher_live ::
  "nat \<Rightarrow> ('s, 's memProvider) io \<Rightarrow> (nat \<Rightarrow> regOrder \<times> regOrder) \<Rightarrow> (State \<Rightarrow> panic + 'q) \<Rightarrow> ('q \<Rightarrow> State \<Rightarrow> panic + 'q) \<Rightarrow> ('s, 'q) io" where
  "Gpiowatcher_live n openMem orders new logf =
     bnd (Open openMem) (\<lambda>a.
     let snap = (\<lambda>i. SnapshotGpio (fst (orders i)) (snd (orders i)) a) in
     deferring (Close a)
      (bnd (snap n) (\<lambda>p. case new p of Inl e \<Rightarrow> raise e | Inr q \<Rightarrow> liveLoop n snap logf q)))"

text \<open>The outputter gets one state after the other, just as from a recording of them.\<close>

fun snapshots :: "nat \<Rightarrow> (nat \<Rightarrow> ('s, State) io) \<Rightarrow> ('s, State list) io" where
  "snapshots 0 snap = ret []"
| "snapshots (Suc n) snap = bnd (snap n) (\<lambda>s. bnd (snapshots n snap) (\<lambda>ss. ret (s # ss)))"

lemma liveLoop_feed:
  assumes "snapshots n snap w = (Inr ss, w')" "feed logf q ss = Inr q'"
  shows "liveLoop n snap logf q w = (Inr q', w')"
  using assms
proof (induction n arbitrary: q w ss)
  case (Suc n)
  from Suc.prems(1) obtain s u ss' where s: "snap n w = (Inr s, u)" "snapshots n snap u = (Inr ss', w')" "ss = s # ss'"
    by (auto simp: bnd_def ret_def split: prod.splits sum.splits)
  from Suc.prems(2) s(3) obtain q1 where "logf q s = Inr q1" "feed logf q1 ss' = Inr q'"
    by (auto split: sum.splits)
  with s(1) Suc.IH [OF s(2)] show ?case by (simp add: bnd_def)
qed (simp add: ret_def)

section \<open>The programs of the platforms\<close>

text \<open>The lines that are not printed unless a flag says otherwise.\<close>

definition quanta_ignoreLines :: string where
  "quanta_ignoreLines = ''U4,V2,O0,O2,N0,N1''"

definition ast2500_ignoreLines :: string where
  "ast2500_ignoreLines = ''U4,V2,T0''"

lemma ignored_ports:
  "GpioPort ''U4'' = Inr 164" "GpioPort ''V2'' = Inr 170" "GpioPort ''O0'' = Inr 112" "GpioPort ''O2'' = Inr 114"
  "GpioPort ''N0'' = Inr 104" "GpioPort ''N1'' = Inr 105" "GpioPort ''T0'' = Inr 152"
  using GpioPort_one [of 20 4] GpioPort_one [of 21 2] GpioPort_one [of 14 0] GpioPort_one [of 14 2] GpioPort_one [of 13 0]
    GpioPort_one [of 13 1] GpioPort_one [of 19 0]
  by (simp_all add: char_of_def digit_char_def bit_0)

text \<open>Both lists name ports: neither program panics on its defaults, and exactly the ports that are named are left out.\<close>

lemma default_ignore_lines:
  "ignorePorts (splitComma quanta_ignoreLines) (\<lambda>_. False) = Inr (\<lambda>p. p \<in> {164, 170, 112, 114, 104, 105})"
  "ignorePorts (splitComma ast2500_ignoreLines) (\<lambda>_. False) = Inr (\<lambda>p. p \<in> {164, 170, 152})"
  by (auto simp: quanta_ignoreLines_def ast2500_ignoreLines_def ignored_ports fun_eq_iff)

end
