(* ===== verification/Rdnss.thy ===== *)
theory Rdnss
  imports Go_Prelude
begin

text \<open>
  Name servers from router advertisements (\<^verbatim>\<open>pkg/bmc/rdnss.go\<close>): the parser of the kernel's
  neighbour discovery user options and the loop that passes the options on. A Go slice is its
  backing bytes from the start of the slice to the end of its capacity, with its length: slicing
  beyond the length is allowed up to the capacity, and panics after that. The lemmas show when the
  parser can panic, that it ends, and that it reads back what a router sends.
\<close>

unbundle bit_operations_syntax

section \<open>Slices\<close>

type_synonym slice = "u8 list \<times> nat"

definition slice_ok :: "slice \<Rightarrow> bool" where
  "slice_ok b \<longleftrightarrow> snd b \<le> length (fst b)"

definition slice_bytes :: "slice \<Rightarrow> u8 list" where
  "slice_bytes b = take (snd b) (fst b)"

text \<open>\<^verbatim>\<open>b[:hi]\<close> and \<^verbatim>\<open>b[lo:]\<close>.\<close>

definition slice_to :: "slice \<Rightarrow> nat \<Rightarrow> panic + slice" where
  "slice_to b hi = (if hi \<le> length (fst b) then Inr (fst b, hi) else Inl SlicePanic)"

definition slice_from :: "slice \<Rightarrow> nat \<Rightarrow> panic + slice" where
  "slice_from b lo = (if lo \<le> snd b then Inr (drop lo (fst b), snd b - lo) else Inl SlicePanic)"

section \<open>Messages\<close>

definition sizeofNDUseroptmsg :: nat where "sizeofNDUseroptmsg = 16"
definition sizeofNDUseropthdr :: nat where "sizeofNDUseropthdr = 4"
definition ND_ROUTER_ADVERT :: u8 where "ND_ROUTER_ADVERT = 134"
definition ND_OPT_RDNSS :: u8 where "ND_OPT_RDNSS = 25"

record ndUseroptmsg =
  msg_Family :: u8
  msg_OptsLen :: u16
  msg_Ifindex :: u32
  msg_IcmpType :: u8
  msg_IcmpCode :: u8

record ndUseropthdr =
  hdr_Type :: u8
  hdr_Length :: u8

text \<open>\<^verbatim>\<open>Lifetime\<close> is a \<^verbatim>\<open>time.Duration\<close>, in nanoseconds.\<close>

record RDNSSOption =
  Lifetime :: int
  Server :: "u8 list list"

record NDUserOpt =
  Family :: u8
  Ifindex :: u32
  ICMPType :: u8
  ICMPCode :: u8
  RDNSS :: "RDNSSOption list"

datatype ndError =
    MessageTooShort nat nat
  | TooShortForOptions nat nat
  | RanOut
  | OptionTooShort nat

text \<open>
  \<^verbatim>\<open>binary.Read\<close> of the two headers, the first with \<^verbatim>\<open>NativeEndian\<close>, which is little endian on
  every platform the daemon is built for.
\<close>

definition of_le16 :: "u8 \<Rightarrow> u8 \<Rightarrow> u16" where
  "of_le16 a b = ucast a OR push_bit 8 (ucast b)"

definition readUseroptmsg :: "u8 list \<Rightarrow> ndUseroptmsg" where
  "readUseroptmsg b =
     \<lparr>msg_Family = b ! 0, msg_OptsLen = of_le16 (b ! 2) (b ! 3),
      msg_Ifindex = of_le32 [b ! 4, b ! 5, b ! 6, b ! 7],
      msg_IcmpType = b ! 8, msg_IcmpCode = b ! 9\<rparr>"

definition readUseropthdr :: "u8 list \<Rightarrow> ndUseropthdr" where
  "readUseropthdr b = \<lparr>hdr_Type = b ! 0, hdr_Length = b ! 1\<rparr>"

section \<open>Parsing\<close>

fun rdnssServers :: "u8 list \<Rightarrow> u8 list list" where
  "rdnssServers b = (if 16 \<le> length b then take 16 b # rdnssServers (drop 16 b) else [])"

declare rdnssServers.simps [simp del]

definition parseRDNSSOption :: "u8 list \<Rightarrow> ndError + RDNSSOption" where
  "parseRDNSSOption b =
     (if length b < 24 then Inl (OptionTooShort (length b))
      else let b1 = drop 4 b in
        Inr \<lparr>Lifetime = wrap 64 (uint (of_le32 (rev (take 4 b1))) * 1000000000),
             Server = rdnssServers (drop 4 b1)\<rparr>)"

text \<open>The loop over the options. \<open>None\<close> is the nil result of a message to be ignored.\<close>

function parseOptions :: "slice \<Rightarrow> RDNSSOption list \<Rightarrow> panic + (ndError + RDNSSOption list option)" where
  "parseOptions b acc =
     (case slice_to b sizeofNDUseropthdr of
        Inl e \<Rightarrow> Inl e
      | Inr h \<Rightarrow>
          let m = readUseropthdr (slice_bytes h); l = unat (hdr_Length m) * 8 in
          if l = 0 then Inr (Inr None)
          else if snd b < l then Inr (Inl RanOut)
          else
            (case (if hdr_Type m = ND_OPT_RDNSS
                   then (case slice_to b l of
                           Inl e \<Rightarrow> Inl e
                         | Inr o1 \<Rightarrow>
                             (case parseRDNSSOption (slice_bytes o1) of
                                Inl e \<Rightarrow> Inr (Inl e)
                              | Inr r \<Rightarrow> Inr (Inr (acc @ [r]))))
                   else Inr (Inr acc)) of
               Inl e \<Rightarrow> Inl e
             | Inr (Inl e) \<Rightarrow> Inr (Inl e)
             | Inr (Inr acc') \<Rightarrow>
                 (case slice_from b l of
                    Inl e \<Rightarrow> Inl e
                  | Inr b' \<Rightarrow>
                      if snd b' < sizeofNDUseropthdr then Inr (Inr (Some acc'))
                      else parseOptions b' acc')))"
  by pat_completeness auto
termination
  by (relation "measure (\<lambda>(b, _). snd b)") (auto simp: slice_from_def split: if_splits)

declare parseOptions.simps [simp del]

definition parseNDUserOpt :: "slice \<Rightarrow> panic + (ndError + NDUserOpt option)" where
  "parseNDUserOpt b =
     (if snd b < sizeofNDUseroptmsg then Inr (Inl (MessageTooShort (snd b) sizeofNDUseroptmsg))
      else
        case slice_to b sizeofNDUseroptmsg of
          Inl e \<Rightarrow> Inl e
        | Inr h \<Rightarrow>
        let msg = readUseroptmsg (slice_bytes h) in
        case slice_from b sizeofNDUseroptmsg of
          Inl e \<Rightarrow> Inl e
        | Inr b1 \<Rightarrow>
        if snd b1 < unat (msg_OptsLen msg)
        then Inr (Inl (TooShortForOptions (snd b1) (unat (msg_OptsLen msg))))
        else
          case slice_to b1 (unat (msg_OptsLen msg)) of
            Inl e \<Rightarrow> Inl e
          | Inr b2 \<Rightarrow>
          (case parseOptions b2 [] of
             Inl e \<Rightarrow> Inl e
           | Inr (Inl e) \<Rightarrow> Inr (Inl e)
           | Inr (Inr None) \<Rightarrow> Inr (Inr None)
           | Inr (Inr (Some rs)) \<Rightarrow>
               Inr (Inr (Some \<lparr>Family = msg_Family msg, Ifindex = msg_Ifindex msg,
                              ICMPType = msg_IcmpType msg, ICMPCode = msg_IcmpCode msg,
                              RDNSS = rs\<rparr>))))"

text \<open>
  The receive loop: what it sends to the channel for the messages it receives, given as their types
  and data, until the socket fails (or the parser panics).
\<close>

definition RTM_NEWNDUSEROPT :: u16 where "RTM_NEWNDUSEROPT = 68"
definition AF_INET6 :: u8 where "AF_INET6 = 10"

definition rdnssMessage :: "u16 \<times> slice \<Rightarrow> panic + RDNSSOption list" where
  "rdnssMessage m =
     (if fst m \<noteq> RTM_NEWNDUSEROPT then Inr []
      else case parseNDUserOpt (snd m) of
        Inl e \<Rightarrow> Inl e
      | Inr (Inl _) \<Rightarrow> Inr []
      | Inr (Inr None) \<Rightarrow> Inr []
      | Inr (Inr (Some opt)) \<Rightarrow>
          Inr (if Family opt \<noteq> AF_INET6 then []
               else if ICMPCode opt \<noteq> 0 then []
               else if ICMPType opt \<noteq> ND_ROUTER_ADVERT then []
               else RDNSS opt))"

fun rdnss :: "(u16 \<times> slice) list \<Rightarrow> panic option \<times> RDNSSOption list" where
  "rdnss [] = (None, [])"
| "rdnss (m # ms) =
     (case rdnssMessage m of
        Inl e \<Rightarrow> (Some e, [])
      | Inr rs \<Rightarrow> (case rdnss ms of (e, out) \<Rightarrow> (e, rs @ out)))"

section \<open>When the parser panics\<close>

lemma slice_simps [simp]:
  "slice_to (buf, n) hi = (if hi \<le> length buf then Inr (buf, hi) else Inl SlicePanic)"
  "slice_from (buf, n) lo = (if lo \<le> n then Inr (drop lo buf, n - lo) else Inl SlicePanic)"
  "slice_bytes (buf, n) = take n buf"
  by (simp_all add: slice_to_def slice_from_def slice_bytes_def)

lemmas nd_consts = sizeofNDUseroptmsg_def sizeofNDUseropthdr_def

lemma parseOptions_step:
  assumes "n \<le> length buf" "4 \<le> length buf"
  shows "parseOptions (buf, n) acc =
     (let l = unat (buf ! 1) * 8 in
      if l = 0 then Inr (Inr None)
      else if n < l then Inr (Inl RanOut)
      else case (if buf ! 0 = ND_OPT_RDNSS
                 then map_sum id (\<lambda>r. acc @ [r]) (parseRDNSSOption (take l buf)) else Inr acc) of
             Inl e \<Rightarrow> Inr (Inl e)
           | Inr acc' \<Rightarrow>
               if n - l < 4 then Inr (Inr (Some acc')) else parseOptions (drop l buf, n - l) acc')"
  using assms
  by (subst parseOptions.simps)
    (simp add: nd_consts Let_def readUseropthdr_def split: sum.split)

lemma parseOptions_short: "length buf < 4 \<Longrightarrow> parseOptions (buf, n) acc = Inl SlicePanic"
  by (subst parseOptions.simps) (simp add: nd_consts)

lemma parseOptions_no_panic:
  assumes "n \<le> length buf" "4 \<le> length buf"
  shows "\<exists>r. parseOptions (buf, n) acc = Inr r"
  using assms
proof (induction n arbitrary: buf acc rule: less_induct)
  case (less n)
  let ?l = "unat (buf ! 1) * 8"
  have "\<exists>r. parseOptions (drop ?l buf, n - ?l) acc' = Inr r" if "?l \<noteq> 0" "\<not> n < ?l" "\<not> n - ?l < 4" for acc'
    using that less.prems by (intro less.IH) auto
  then show ?case
    using less.prems by (simp add: parseOptions_step Let_def split: sum.split)
qed

text \<open>The length field of the message.\<close>

definition optsLen :: "u8 list \<Rightarrow> nat" where
  "optsLen buf = unat (of_le16 (buf ! 2) (buf ! 3))"

lemma parseNDUserOpt_options:
  assumes "n \<le> length buf" "16 \<le> n" "optsLen buf \<le> n - 16"
  shows "parseNDUserOpt (buf, n) =
     (case parseOptions (drop 16 buf, optsLen buf) [] of
        Inl e \<Rightarrow> Inl e
      | Inr (Inl e) \<Rightarrow> Inr (Inl e)
      | Inr (Inr None) \<Rightarrow> Inr (Inr None)
      | Inr (Inr (Some rs)) \<Rightarrow>
          Inr (Inr (Some \<lparr>Family = buf ! 0, Ifindex = of_le32 [buf ! 4, buf ! 5, buf ! 6, buf ! 7],
            ICMPType = buf ! 8, ICMPCode = buf ! 9, RDNSS = rs\<rparr>)))"
proof -
  have "unat (of_le16 (buf ! 2) (buf ! 3)) \<le> length buf - 16" "16 \<le> length buf"
    using assms by (auto simp: optsLen_def)
  with assms show ?thesis
    by (simp add: parseNDUserOpt_def nd_consts Let_def readUseroptmsg_def optsLen_def
        split: sum.split option.split)
qed

text \<open>C23.
  The parser of router advertisements always ends, and it ends with a result or an error value on
  every message but one kind: a message that is nothing but its header, with no option data (and no
  spare capacity after it), makes it panic when it looks for the first option.
\<close>

theorem parseNDUserOpt_panic:
  assumes "n \<le> length buf"
  shows "parseNDUserOpt (buf, n) = Inl e \<longleftrightarrow>
     16 \<le> n \<and> optsLen buf \<le> n - 16 \<and> length buf < 20 \<and> e = SlicePanic"
proof -
  consider "n < 16" | "16 \<le> n" "n - 16 < optsLen buf" | "16 \<le> n" "optsLen buf \<le> n - 16" by linarith
  then show ?thesis
  proof cases
    case 1
    then show ?thesis by (simp add: parseNDUserOpt_def nd_consts)
  next
    case 2
    then show ?thesis
      using assms by (simp add: parseNDUserOpt_def nd_consts Let_def readUseroptmsg_def optsLen_def)
  next
    case 3
    show ?thesis
    proof (cases "length buf < 20")
      case True
      then have "parseOptions (drop 16 buf, optsLen buf) [] = Inl SlicePanic"
        using assms 3 by (intro parseOptions_short) simp
      with True assms 3 show ?thesis by (auto simp: parseNDUserOpt_options)
    next
      case False
      then have "\<exists>r. parseOptions (drop 16 buf, optsLen buf) [] = Inr r"
        using assms 3 by (intro parseOptions_no_panic) auto
      with False assms 3 show ?thesis
        by (auto simp: parseNDUserOpt_options split: sum.split option.split)
    qed
  qed
qed

theorem parseNDUserOpt_panic_witness:
  "parseNDUserOpt ([10, 0, 0, 0, 2, 0, 0, 0, 134, 0, 0, 0, 0, 0, 0, 0], 16) = Inl SlicePanic"
  using parseNDUserOpt_panic [of 16 "[10, 0, 0, 0, 2, 0, 0, 0, 134, 0, 0, 0, 0, 0, 0, 0]" SlicePanic]
  by (simp add: optsLen_def of_le16_def)

section \<open>Reading back what a router sends\<close>

text \<open>The options of a message: name servers with a lifetime in seconds, or anything else.\<close>

datatype ndOption =
    RdnssOpt u32 "u8 list list"
  | OtherOpt u8 "u8 list"

fun encodeOption :: "ndOption \<Rightarrow> u8 list" where
  "encodeOption (RdnssOpt t ips) = [ND_OPT_RDNSS, of_nat (1 + 2 * length ips), 0, 0] @ be32 t @ concat ips"
| "encodeOption (OtherOpt t d) = [t, of_nat ((2 + length d) div 8)] @ d"

fun option_ok :: "ndOption \<Rightarrow> bool" where
  "option_ok (RdnssOpt t ips) \<longleftrightarrow> ips \<noteq> [] \<and> length ips \<le> 127 \<and> (\<forall>ip \<in> set ips. length ip = 16)"
| "option_ok (OtherOpt t d) \<longleftrightarrow> t \<noteq> ND_OPT_RDNSS \<and> 8 dvd (2 + length d) \<and> length d < 2040"

fun optionServers :: "ndOption \<Rightarrow> RDNSSOption list" where
  "optionServers (RdnssOpt t ips) = [\<lparr>Lifetime = uint t * 1000000000, Server = ips\<rparr>]"
| "optionServers (OtherOpt _ _) = []"

lemma rdnssServers_concat:
  "\<forall>ip \<in> set ips. length ip = 16 \<Longrightarrow> rdnssServers (concat ips) = ips"
  by (induction ips) (subst rdnssServers.simps; simp)+

lemma length_concat_16: "\<forall>ip \<in> set ips. length ip = 16 \<Longrightarrow> length (concat ips) = 16 * length ips"
  by (induction ips) simp_all

text \<open>A lifetime in seconds is never too long for a \<^verbatim>\<open>time.Duration\<close>.\<close>

lemma lifetime_no_overflow: "wrap 64 (uint (t :: u32) * 1000000000) = uint t * 1000000000"
proof -
  have "- (2 ^ 63) \<le> uint t * 1000000000" by (rule order_trans [of _ 0]) simp_all
  moreover have "uint t * 1000000000 < 2 ^ 63" using uint_lt2p [of t] by simp
  ultimately show ?thesis using wrap_id [of 64 "uint t * 1000000000"] by simp
qed

lemma parseRDNSSOption_encode:
  assumes "option_ok (RdnssOpt t ips)"
  shows "parseRDNSSOption (encodeOption (RdnssOpt t ips)) =
    Inr \<lparr>Lifetime = uint t * 1000000000, Server = ips\<rparr>"
proof -
  have "length (concat ips) = 16 * length ips" "0 < length ips"
    using assms by (simp_all add: length_concat_16)
  then show ?thesis
    using assms by (simp add: parseRDNSSOption_def Let_def be32_def lifetime_no_overflow rdnssServers_concat)
qed

lemma encodeOption_length:
  assumes "option_ok x"
  shows "unat (encodeOption x ! 1) * 8 = length (encodeOption x) \<and> 8 \<le> length (encodeOption x) \<and>
    (encodeOption x ! 0 = ND_OPT_RDNSS \<longleftrightarrow> (\<exists>t ips. x = RdnssOpt t ips))"
proof (cases x)
  case (RdnssOpt t ips)
  with assms have "unat (of_nat (1 + 2 * length ips) :: u8) = 1 + 2 * length ips"
    by (subst unat_of_nat) (simp add: take_bit_eq_mod)
  then show ?thesis using assms RdnssOpt by (simp add: length_concat_16 be32_def)
next
  case (OtherOpt t d)
  with assms obtain k where k: "2 + length d = 8 * k" by (auto elim: dvdE)
  with assms OtherOpt have "unat (of_nat k :: u8) = k"
    by (subst unat_of_nat) (simp add: take_bit_eq_mod)
  then show ?thesis using assms OtherOpt k by simp
qed

lemma parseOptions_encode:
  assumes "\<forall>x \<in> set xs. option_ok x" "xs \<noteq> []"
  shows "parseOptions (concat (map encodeOption xs) @ rest, length (concat (map encodeOption xs))) acc =
    Inr (Inr (Some (acc @ concat (map optionServers xs))))"
  using assms
proof (induction xs arbitrary: acc)
  case (Cons x xs)
  let ?e = "encodeOption x" and ?es = "concat (map encodeOption xs)"
  have ok: "option_ok x" using Cons.prems(1) by simp
  from encodeOption_length [OF ok] have len: "unat (?e ! 1) * 8 = length ?e" "8 \<le> length ?e"
    "?e ! 0 = ND_OPT_RDNSS \<longleftrightarrow> (\<exists>t ips. x = RdnssOpt t ips)" by blast+
  have n1: "(?e @ ?es @ rest) ! 1 = ?e ! 1" "(?e @ ?es @ rest) ! 0 = ?e ! 0"
    using len(2) by (auto simp add: nth_append)
  have step: "parseOptions (?e @ ?es @ rest, length ?e + length ?es) acc =
      (if length ?es < 4 then Inr (Inr (Some (acc @ optionServers x)))
       else parseOptions (?es @ rest, length ?es) (acc @ optionServers x))"
  proof (cases x)
    case (RdnssOpt t ips)
    then show ?thesis
      using len Cons.prems(1) parseRDNSSOption_encode [of t ips]
      by (subst parseOptions_step) (auto simp: n1 Let_def)
  next
    case (OtherOpt t d)
    then show ?thesis
      using len by (subst parseOptions_step) (auto simp: n1 Let_def)
  qed
  show ?case
  proof (cases xs)
    case Nil
    then show ?thesis using step by simp
  next
    case (Cons y ys)
    with Cons.prems have "8 \<le> length (encodeOption y)" using encodeOption_length [of y] by simp
    with Cons Cons.prems Cons.IH [of "acc @ optionServers x"] step show ?thesis by simp
  qed
qed simp

text \<open>A message of the kernel: its header and the options.\<close>

definition le16 :: "u16 \<Rightarrow> u8 list" where
  "le16 v = [ucast v, ucast (drop_bit 8 v)]"

definition encodeMessage :: "u8 \<Rightarrow> u32 \<Rightarrow> u8 \<Rightarrow> u8 \<Rightarrow> ndOption list \<Rightarrow> u8 list" where
  "encodeMessage fam ifi typ code xs =
     [fam, 0] @ le16 (of_nat (length (concat (map encodeOption xs)))) @ le32 ifi @
     [typ, code, 0, 0, 0, 0, 0, 0] @ concat (map encodeOption xs)"

lemma of_le16_le16: "of_le16 (le16 v ! 0) (le16 v ! 1) = v"
  by (rule bit_word_eqI) (auto simp: of_le16_def le16_def bit_or_iff bit_push_bit_iff bit_ucast_iff bit_drop_bit_eq)

text \<open>C17.
  Reading back what a router sends: for a message with any header fields, any number of options, of
  which at least one, all well formed, with name server options in any place between others, and
  whatever bytes follow it, the parser returns the header fields and exactly the name server options,
  in order, each with its lifetime (which never overflows) and all its servers.
\<close>

theorem parseNDUserOpt_roundtrip:
  assumes "\<forall>x \<in> set xs. option_ok x" "xs \<noteq> []" "length (concat (map encodeOption xs)) < 65536"
  shows "parseNDUserOpt (encodeMessage fam ifi typ code xs @ rest, length (encodeMessage fam ifi typ code xs)) =
    Inr (Inr (Some \<lparr>Family = fam, Ifindex = ifi, ICMPType = typ, ICMPCode = code,
      RDNSS = concat (map optionServers xs)\<rparr>))"
proof -
  let ?es = "concat (map encodeOption xs)"
  define b where "b = encodeMessage fam ifi typ code xs @ rest"
  have n: "length (encodeMessage fam ifi typ code xs) = 16 + length ?es" "16 + length ?es \<le> length b"
    by (simp_all add: b_def encodeMessage_def le16_def)
  have "optsLen b = unat (of_nat (length ?es) :: u16)"
    using of_le16_le16 [of "of_nat (length ?es)"] by (simp add: b_def optsLen_def encodeMessage_def le16_def)
  also have "\<dots> = length ?es" using assms(3) by (simp add: unat_of_nat take_bit_eq_mod)
  finally have o: "optsLen b = length ?es" .
  have d: "drop 16 b = ?es @ rest" by (simp add: b_def encodeMessage_def le16_def)
  have f: "b ! 0 = fam" "b ! 8 = typ" "b ! 9 = code" "[b ! 4, b ! 5, b ! 6, b ! 7] = le32 ifi"
    by (simp_all add: b_def encodeMessage_def le16_def le32_def)
  show ?thesis
    unfolding b_def [symmetric] n(1) using parseOptions_encode [OF assms(1,2), of rest "[]"] n(2)
    by (subst parseNDUserOpt_options) (simp_all only: o d f, simp_all)
qed

theorem parseNDUserOpt_roundtrip_witness:
  "parseNDUserOpt (encodeMessage 10 2 134 0 [OtherOpt 31 [0, 0, 0, 0, 0, 0], RdnssOpt 300 [replicate 15 0 @ [1]]] @ [7],
      length (encodeMessage 10 2 134 0 [OtherOpt 31 [0, 0, 0, 0, 0, 0], RdnssOpt 300 [replicate 15 0 @ [1]]])) =
    Inr (Inr (Some \<lparr>Family = 10, Ifindex = 2, ICMPType = 134, ICMPCode = 0,
      RDNSS = [\<lparr>Lifetime = 300000000000, Server = [replicate 15 0 @ [1]]\<rparr>]\<rparr>))"
  using parseNDUserOpt_roundtrip [of "[OtherOpt 31 [0, 0, 0, 0, 0, 0], RdnssOpt 300 [replicate 15 0 @ [1]]]" 10 2 134 0 "[7]"]
  by (simp add: ND_OPT_RDNSS_def be32_def)

section \<open>Passing the options on\<close>

lemma rdnss_append:
  "rdnss (ms @ ns) = (case rdnss ms of
     (Some e, out) \<Rightarrow> (Some e, out)
   | (None, out) \<Rightarrow> (case rdnss ns of (e, out') \<Rightarrow> (e, out @ out')))"
  by (induction ms) (auto split: sum.split prod.split option.split)

text \<open>A message that cannot be parsed, or is not about IPv6 router advertisements, sends nothing.\<close>

lemma rdnssMessage_sends:
  assumes "rdnssMessage (t, b) = Inr rs" "rs \<noteq> []"
  shows "\<exists>opt. t = RTM_NEWNDUSEROPT \<and> parseNDUserOpt b = Inr (Inr (Some opt)) \<and> rs = RDNSS opt \<and>
    Family opt = AF_INET6 \<and> ICMPType opt = ND_ROUTER_ADVERT \<and> ICMPCode opt = 0"
  using assms by (auto simp: rdnssMessage_def split: if_splits sum.splits option.splits)

lemma rdnss_skips:
  assumes "\<forall>m \<in> set ms. rdnssMessage m = Inr []"
  shows "rdnss (ms @ ns) = rdnss ns"
  using assms by (induction ms) (simp_all split: prod.split)

end
