(* ===== verification/Buttons.thy ===== *)
theory Buttons
  imports Go_Prelude
begin

text \<open>
  Pressing buttons (\<^verbatim>\<open>GpioSystem.PressButton\<close> and \<^verbatim>\<open>GpioSystem.ManageButton\<close> of
  \<^verbatim>\<open>pkg/bmc/gpio.go\<close>, the handler of the RPC in \<^verbatim>\<open>pkg/bmc/grpc.go\<close>, and the handlers of the
  physical buttons of the Quanta platform). Several goroutines meet on unbuffered channels, so this is
  a step relation: a push is a channel \<^verbatim>\<open>pushc\<close>, offered to the goroutine that manages the button
  over the button's own channel; a send and its receive are one step. The state keeps, for every
  push, where its sender is, and where the manager is. The lemmas show what the line can do
  in every reachable state, that the system is never stuck, and which callers are never answered.
\<close>

section \<open>Registration of buttons\<close>

datatype button = BUTTON_POWER | BUTTON_RESET

datatype gpioError = MaxDuration | UnknownButton button

text \<open>The channels of the buttons, by number; the mutex makes each operation atomic.\<close>

record GpioSystem =
  gs_button :: "button \<rightharpoonup> nat"
  gs_next :: nat

definition NewGpioSystem :: GpioSystem where
  "NewGpioSystem = \<lparr>gs_button = Map.empty, gs_next = 0\<rparr>"

definition Button :: "button \<Rightarrow> GpioSystem \<Rightarrow> nat \<times> GpioSystem" where
  "Button b g =
     (case gs_button g b of
        Some c \<Rightarrow> (c, g)
      | None \<Rightarrow> (gs_next g, g\<lparr>gs_button := (gs_button g)(b \<mapsto> gs_next g), gs_next := gs_next g + 1\<rparr>))"

text \<open>The part of \<^verbatim>\<open>PressButton\<close> before the push is queued: the duration in ms and the channel.\<close>

definition PressButton_check :: "GpioSystem \<Rightarrow> button \<Rightarrow> u32 \<Rightarrow> gpioError + nat \<times> nat" where
  "PressButton_check g b durMs =
     (if durMs > 1000 * 10 then Inl MaxDuration
      else case gs_button g b of
             None \<Rightarrow> Inl (UnknownButton b)
           | Some c \<Rightarrow> Inr (unat durMs, c))"

text \<open>
  Asking for a button twice gives the same channel, different buttons have different channels, and
  a press lasts 10 s at most.
\<close>

definition buttons_ok :: "GpioSystem \<Rightarrow> bool" where
  "buttons_ok g \<longleftrightarrow> inj_on (gs_button g) (dom (gs_button g)) \<and> (\<forall>c \<in> ran (gs_button g). c < gs_next g)"

lemma Button_again: "Button b g = (c, g') \<Longrightarrow> Button b g' = (c, g')"
  by (auto simp: Button_def split: option.splits)

lemma buttons_ok_new: "buttons_ok NewGpioSystem"
  by (simp add: buttons_ok_def NewGpioSystem_def)

lemma buttons_ok_Button: "buttons_ok g \<Longrightarrow> buttons_ok (snd (Button b g))"
  by (auto simp: buttons_ok_def Button_def inj_on_def dom_def ran_def split: option.split)

lemma PressButton_check_bound: "PressButton_check g b durMs = Inr (d, c) \<Longrightarrow> d \<le> 10000 \<and> gs_button g b = Some c"
  by (auto simp: PressButton_check_def word_less_nat_alt split: if_splits option.splits)

section \<open>Pushes and the manager of one button\<close>

text \<open>
  Who pushes: an RPC for a number of milliseconds, the handler of the physical power button, or the
  one of the reset button.
\<close>

datatype pusher = RpcPush nat | PowerPush | ResetPush

text \<open>
  Where the sender of a push is: blocked on the button's channel; accepted, before the check of the
  context; committed, before the send of true; sleeping until a time; holding a physical button;
  before the send of false; before the close; the channel closed, before the best-effort signal; the
  channel closed because of a cancelled context; done. \<open>Free\<close> are the numbers not used yet.
\<close>

datatype phase =
    Free | Queued | Accepted | Committed | Sleeping nat | Held | Releasing | Closing
  | Signalling | Aborted | Done

text \<open>The manager waits for a push, ranges over one, or is about to set the line for it.\<close>

datatype manager = MWait | MRange nat | MSet nat bool

text \<open>
  The caller of an RPC: still in \<^verbatim>\<open>PressButton\<close>, back from it, waiting for \<^verbatim>\<open>cc\<close>, or answered.
\<close>

datatype caller = Calling | Returned | Waiting | Answered

record bsys =
  cnt :: nat
  phase :: "nat \<Rightarrow> phase"
  pusher :: "nat \<Rightarrow> pusher"
  cancelled :: "nat \<Rightarrow> bool"
  caller :: "nat \<Rightarrow> caller"
  mgr :: manager
  line :: bool
  faulty :: bool
  sends :: "(nat \<times> bool \<times> nat) list"
  clock :: nat
  pushc :: "nat option"

text \<open>
  \<open>sends\<close> records the values sent to the manager with their times (last one first), \<open>faulty\<close> that
  setting the line has failed once, \<open>pushc\<close> is the variable of \<^verbatim>\<open>PowerButtonHandler\<close>.
  \<^verbatim>\<open>ManageButton\<close> requests the line as an output with value true.
\<close>

definition ManageButton_init :: bsys where
  "ManageButton_init =
     \<lparr>cnt = 0, phase = (\<lambda>_. Free), pusher = (\<lambda>_. PowerPush), cancelled = (\<lambda>_. False),
      caller = (\<lambda>_. Calling), mgr = MWait, line = True, faulty = False, sends = [], clock = 0,
      pushc = None\<rparr>"

definition new_push :: "pusher \<Rightarrow> bsys \<Rightarrow> bsys" where
  "new_push k s = s\<lparr>cnt := cnt s + 1, phase := (phase s)(cnt s := Queued), pusher := (pusher s)(cnt s := k)\<rparr>"

abbreviation at :: "bsys \<Rightarrow> nat \<Rightarrow> phase \<Rightarrow> bsys" where
  "at s i p \<equiv> s\<lparr>phase := (phase s)(i := p)\<rparr>"

text \<open>The value set on the line, with the flag \<^verbatim>\<open>GPIO_INVERTED\<close>.\<close>

definition level :: "bool \<Rightarrow> bool \<Rightarrow> bool" where
  "level inverted p = (if inverted then \<not> p else p)"

definition closed :: "phase \<Rightarrow> bool" where
  "closed p \<longleftrightarrow> p = Signalling \<or> p = Aborted \<or> p = Done"

text \<open>
  The steps of the environment (calls, buttons, cancelled contexts, time) and of the goroutines. The
  lock of the system only delays the first ones.
\<close>

datatype label = Env | Work

inductive bstep :: "bool \<Rightarrow> label \<Rightarrow> bsys \<Rightarrow> bsys \<Rightarrow> bool" for inverted :: bool where
  Press: "d \<le> 10000 \<Longrightarrow> bstep inverted Env s (new_push (RpcPush d) s)"
| PowerDown: "pushc s = None \<or> (\<exists>i. pushc s = Some i \<and> phase s i = Held) \<Longrightarrow>
    bstep inverted Env s ((new_push PowerPush s)\<lparr>pushc := Some (cnt s)\<rparr>)"
| ResetDown: "\<forall>i. pusher s i = ResetPush \<longrightarrow> phase s i = Free \<or> phase s i = Done \<Longrightarrow>
    bstep inverted Env s (new_push ResetPush s)"
| Accept: "mgr s = MWait \<Longrightarrow> phase s i = Queued \<Longrightarrow>
    bstep inverted Work s ((at s i (case pusher s i of RpcPush _ \<Rightarrow> Accepted | _ \<Rightarrow> Committed))
      \<lparr>mgr := MRange i, caller := (caller s)(i := Returned)\<rparr>)"
| Cancel: "bstep inverted Env s (s\<lparr>cancelled := (cancelled s)(i := True)\<rparr>)"
| Abort: "phase s i = Accepted \<Longrightarrow> cancelled s i \<Longrightarrow> bstep inverted Work s (at s i Aborted)"
| Commit: "phase s i = Accepted \<Longrightarrow> \<not> cancelled s i \<Longrightarrow> bstep inverted Work s (at s i Committed)"
| SendPress: "phase s i = Committed \<Longrightarrow> mgr s = MRange i \<Longrightarrow>
    bstep inverted Work s
      ((at s i (case pusher s i of RpcPush d \<Rightarrow> Sleeping (clock s + d) | PowerPush \<Rightarrow> Held
                                 | ResetPush \<Rightarrow> Sleeping (clock s + 100)))
       \<lparr>mgr := MSet i True, sends := (i, True, clock s) # sends s\<rparr>)"
| SetValue: "mgr s = MSet i p \<Longrightarrow> bstep inverted Work s (s\<lparr>mgr := MRange i, line := level inverted p\<rparr>)"
| SetFails: "mgr s = MSet i p \<Longrightarrow> bstep inverted Work s (s\<lparr>mgr := MRange i, faulty := True\<rparr>)"
| Tick: "bstep inverted Env s (s\<lparr>clock := clock s + 1\<rparr>)"
| Wake: "phase s i = Sleeping t \<Longrightarrow> t \<le> clock s \<Longrightarrow> bstep inverted Work s (at s i Releasing)"
| PowerUp: "pushc s = Some i \<Longrightarrow> phase s i = Held \<Longrightarrow> bstep inverted Env s (at s i Releasing)"
| SendRelease: "phase s i = Releasing \<Longrightarrow> mgr s = MRange i \<Longrightarrow>
    bstep inverted Work s ((at s i Closing)\<lparr>mgr := MSet i False, sends := (i, False, clock s) # sends s\<rparr>)"
| Close: "phase s i = Closing \<Longrightarrow>
    bstep inverted Work s
      ((at s i (case pusher s i of RpcPush _ \<Rightarrow> Signalling | _ \<Rightarrow> Done))
       \<lparr>pushc := (if pushc s = Some i then None else pushc s)\<rparr>)"
| RangeEnd: "mgr s = MRange i \<Longrightarrow> closed (phase s i) \<Longrightarrow> bstep inverted Work s (s\<lparr>mgr := MWait\<rparr>)"
| CallerWaits: "pusher s i = RpcPush d \<Longrightarrow> caller s i = Returned \<Longrightarrow>
    bstep inverted Work s (s\<lparr>caller := (caller s)(i := Waiting)\<rparr>)"
| Signal: "phase s i = Signalling \<Longrightarrow> caller s i = Waiting \<Longrightarrow>
    bstep inverted Work s ((at s i Done)\<lparr>caller := (caller s)(i := Answered)\<rparr>)"
| NoSignal: "phase s i = Signalling \<Longrightarrow> caller s i \<noteq> Waiting \<Longrightarrow> bstep inverted Work s (at s i Done)"

text \<open>
  The handlers of the physical buttons, on the next value of the (inverted) line: \<open>None\<close> while they
  are still busy with the last one. Their events are the steps \<open>PowerDown\<close>, \<open>PowerUp\<close> and \<open>ResetDown\<close>.
\<close>

definition PowerButtonHandler :: "bool \<Rightarrow> bsys \<Rightarrow> bsys option" where
  "PowerButtonHandler state s =
     (if case pushc s of None \<Rightarrow> True | Some i \<Rightarrow> phase s i = Held
      then if \<not> state then Some ((new_push PowerPush s)\<lparr>pushc := Some (cnt s)\<rparr>)
           else case pushc s of Some i \<Rightarrow> Some (at s i Releasing) | None \<Rightarrow> Some s
      else None)"

definition ResetButtonHandler :: "bool \<Rightarrow> bsys \<Rightarrow> bsys option" where
  "ResetButtonHandler state s =
     (if list_all (\<lambda>i. pusher s i = ResetPush \<longrightarrow> phase s i = Free \<or> phase s i = Done) [0..<cnt s]
      then if \<not> state then Some (new_push ResetPush s) else Some s
      else None)"

inductive breach :: "bool \<Rightarrow> bsys \<Rightarrow> bool" for inverted :: bool where
  init: "breach inverted ManageButton_init"
| step: "breach inverted s \<Longrightarrow> bstep inverted l s s' \<Longrightarrow> breach inverted s'"

section \<open>The invariant\<close>

text \<open>The phases in which the manager belongs to the push.\<close>

definition served :: "phase \<Rightarrow> bool" where
  "served p \<longleftrightarrow> p \<in> {Accepted, Committed, Held, Releasing, Closing} \<or> (\<exists>t. p = Sleeping t)"

definition down :: "phase \<Rightarrow> bool" where
  "down p \<longleftrightarrow> p = Held \<or> p = Releasing \<or> (\<exists>t. p = Sleeping t)"

lemma phase_simps [simp]:
  "closed Signalling" "closed Aborted" "closed Done" "\<not> closed Free" "\<not> closed Queued"
  "\<not> closed Accepted" "\<not> closed Committed" "\<not> closed (Sleeping t)" "\<not> closed Held"
  "\<not> closed Releasing" "\<not> closed Closing"
  "\<not> served Signalling" "\<not> served Aborted" "\<not> served Done" "\<not> served Free" "\<not> served Queued"
  "served Accepted" "served Committed" "served (Sleeping t)" "served Held" "served Releasing" "served Closing"
  "\<not> down Signalling" "\<not> down Aborted" "\<not> down Done" "\<not> down Free" "\<not> down Queued"
  "\<not> down Accepted" "\<not> down Committed" "down (Sleeping t)" "down Held" "down Releasing" "\<not> down Closing"
  by (simp_all add: closed_def served_def down_def)

lemma served_cases: "p = Free \<or> p = Queued \<or> served p \<or> closed p"
  by (cases p) simp_all

lemma down_served: "down p \<Longrightarrow> served p"
  by (cases p) simp_all

fun servant :: "manager \<Rightarrow> nat option" where
  "servant MWait = None"
| "servant (MRange i) = Some i"
| "servant (MSet i _) = Some i"

text \<open>
  The values sent, last one first: a push sends true and then false before another push sends
  anything, and an RPC sends false no earlier than its duration after true.
\<close>

definition hold_time :: "pusher \<Rightarrow> nat" where
  "hold_time k = (case k of RpcPush d \<Rightarrow> d | PowerPush \<Rightarrow> 0 | ResetPush \<Rightarrow> 100)"

fun paired :: "(nat \<Rightarrow> pusher) \<Rightarrow> (nat \<times> bool \<times> nat) list \<Rightarrow> bool" where
  "paired k [] = True"
| "paired k ((j, False, u) # (i, True, t) # xs) = (i = j \<and> t + hold_time (k i) \<le> u \<and> paired k xs)"
| "paired k _ = False"

definition last_down :: "(nat \<times> bool \<times> nat) list \<Rightarrow> bool" where
  "last_down xs = (case xs of [] \<Rightarrow> False | (_, p, _) # _ \<Rightarrow> p)"

text \<open>
  The invariant: a served push has the manager, and the manager about to set the line for a push
  agrees with where the push is.
\<close>

definition minv :: "bsys \<Rightarrow> bool" where
  "minv s \<longleftrightarrow>
     (\<forall>i. served (phase s i) \<longrightarrow> servant (mgr s) = Some i) \<and>
     (\<forall>i p. mgr s = MSet i p \<longrightarrow> (if p then down (phase s i) else phase s i = Closing \<or> closed (phase s i))) \<and>
     (\<forall>i. servant (mgr s) = Some i \<longrightarrow> served (phase s i) \<or> closed (phase s i))"

definition cinv :: "bsys \<Rightarrow> bool" where
  "cinv s \<longleftrightarrow> (\<forall>i \<ge> cnt s. phase s i = Free \<and> caller s i = Calling) \<and>
     (\<forall>i < cnt s. phase s i \<noteq> Free \<and> (phase s i = Queued \<longrightarrow> caller s i = Calling)) \<and>
     (\<forall>x \<in> set (sends s). fst x < cnt s)"

text \<open>
  A push that is down is the one that sent last, and it sent true; the other values sent are paired.
\<close>

definition opened :: "bsys \<Rightarrow> nat \<Rightarrow> phase \<Rightarrow> bool" where
  "opened s i p =
     (case p of
        Sleeping t \<Rightarrow> (\<exists>u xs. sends s = (i, True, u) # xs \<and> t = u + hold_time (pusher s i))
      | Held \<Rightarrow> (\<exists>u xs. sends s = (i, True, u) # xs \<and> u \<le> clock s) \<and> pusher s i = PowerPush
      | Releasing \<Rightarrow> (\<exists>u xs. sends s = (i, True, u) # xs \<and> u + hold_time (pusher s i) \<le> clock s)
      | _ \<Rightarrow> True)"

definition complete_sends :: "(nat \<times> bool \<times> nat) list \<Rightarrow> (nat \<times> bool \<times> nat) list" where
  "complete_sends xs = (if last_down xs then tl xs else xs)"

definition sinv :: "bsys \<Rightarrow> bool" where
  "sinv s \<longleftrightarrow>
     (\<forall>i. opened s i (phase s i)) \<and>
     (last_down (sends s) \<longrightarrow> (\<exists>i. down (phase s i))) \<and>
     paired (pusher s) (complete_sends (sends s))"

text \<open>The line has the value last sent, unless the manager is still to set it or has failed to.\<close>

definition commanded :: "bool \<Rightarrow> (nat \<times> bool \<times> nat) list \<Rightarrow> bool" where
  "commanded inverted xs = (case xs of [] \<Rightarrow> True | (_, p, _) # _ \<Rightarrow> level inverted p)"

definition linv :: "bool \<Rightarrow> bsys \<Rightarrow> bool" where
  "linv inverted s \<longleftrightarrow>
     (\<forall>i p. mgr s = MSet i p \<longrightarrow> (\<exists>u xs. sends s = (i, p, u) # xs)) \<and>
     (\<not> faulty s \<longrightarrow>
        line s = commanded inverted (case mgr s of MSet _ _ \<Rightarrow> tl (sends s) | _ \<Rightarrow> sends s))"

definition binv :: "bool \<Rightarrow> bsys \<Rightarrow> bool" where
  "binv inverted s \<longleftrightarrow> minv s \<and> cinv s \<and> sinv s \<and> linv inverted s"

lemma closed_not_served: "closed p \<Longrightarrow> \<not> served p"
  by (cases p) simp_all

lemma minv_step: "bstep inverted l s s' \<Longrightarrow> minv s \<Longrightarrow> cinv s \<Longrightarrow> minv s'"
proof (induction rule: bstep.induct)
qed (auto simp: minv_def cinv_def new_push_def dest: closed_not_served split: pusher.splits if_splits)

lemma cinv_step: "bstep inverted l s s' \<Longrightarrow> cinv s \<Longrightarrow> cinv s'"
proof (induction rule: bstep.induct)
qed (fastforce simp: cinv_def new_push_def not_le split: pusher.splits if_splits)+

lemma linv_step: "bstep inverted l s s' \<Longrightarrow> linv inverted s \<Longrightarrow> linv inverted s'"
proof (induction rule: bstep.induct)
qed (auto simp: linv_def new_push_def commanded_def split: manager.splits)

lemma paired_cong:
  "(\<And>i p t. (i, p, t) \<in> set xs \<Longrightarrow> k i = k' i) \<Longrightarrow> paired k xs = paired k' xs"
proof (induction k xs rule: paired.induct)
  case (2 k j u i t xs)
  have "k i = k' i" using "2.prems" [of i True t] by simp
  with 2 show ?case by (metis list.set_intros(2) paired.simps(2))
qed simp_all

lemma down_update: "\<exists>j. down (phase s j) \<Longrightarrow> \<not> down (phase s i) \<or> down p \<Longrightarrow> \<exists>j. down (((phase s)(i := p)) j)"
  by (metis fun_upd_apply)

lemma opened_not_down [simp]: "\<not> down p \<Longrightarrow> opened s i p"
  by (cases p) (simp_all add: opened_def)

lemma opened_cong:
  assumes "opened s i p" "pusher t i = pusher s i" "sends t = sends s" "clock s \<le> clock t"
  shows "opened t i p"
  using assms by (cases p) (auto simp: opened_def)

lemma sinv_at:
  assumes "sinv s" "opened s i p" "\<not> down (phase s i) \<or> down p"
  shows "sinv (at s i p)"
proof -
  have "opened (at s i p) j q \<longleftrightarrow> opened s j q" for j q
    by (cases q) (simp_all add: opened_def)
  then show ?thesis using assms down_update [of s i p] by (simp add: sinv_def)
qed

lemma sinv_cong:
  assumes "sinv s" "phase t = phase s" "pusher t = pusher s" "sends t = sends s" "clock s \<le> clock t"
  shows "sinv t"
  using assms opened_cong [of s _ _ t] by (simp add: sinv_def)

lemma sinv_new_push:
  assumes "sinv s" "cinv s"
  shows "sinv (new_push k s)"
proof -
  let ?t = "s\<lparr>cnt := cnt s + 1, pusher := (pusher s)(cnt s := k)\<rparr>"
  have free: "phase s (cnt s) = Free" and old: "\<And>i p t. (i, p, t) \<in> set (sends s) \<Longrightarrow> i \<noteq> cnt s"
    using assms(2) by (auto simp: cinv_def)
  have "set (complete_sends (sends s)) \<subseteq> set (sends s)" by (cases "sends s") (auto simp: complete_sends_def)
  then have pk: "paired ((pusher s)(cnt s := k)) (complete_sends (sends s)) =
      paired (pusher s) (complete_sends (sends s))"
    using old by (intro paired_cong) auto
  have "opened ?t i (phase s i)" for i
    using assms(1) free opened_cong [of s i "phase s i" ?t]
    by (cases "i = cnt s") (simp_all add: sinv_def)
  with assms(1) pk have "sinv ?t" by (simp add: sinv_def)
  then have "sinv (at ?t (cnt s) Queued)" using free by (intro sinv_at) simp_all
  then show ?thesis by (rule sinv_cong) (simp_all add: new_push_def)
qed

lemma only_down: "minv s \<Longrightarrow> mgr s = MRange i \<Longrightarrow> down (phase s j) \<Longrightarrow> j = i"
  by (metis down_served minv_def option.inject servant.simps(2))

lemma sinv_send_press:
  assumes "sinv s" "minv s" "phase s i = Committed" "mgr s = MRange i"
  shows "sinv ((at s i (case pusher s i of RpcPush d \<Rightarrow> Sleeping (clock s + d) | PowerPush \<Rightarrow> Held
                                 | ResetPush \<Rightarrow> Sleeping (clock s + 100)))
       \<lparr>mgr := MSet i True, sends := (i, True, clock s) # sends s\<rparr>)"
proof -
  have others: "\<not> down (phase s j)" for j
    using only_down [OF assms(2,4), of j] assms(3) by auto
  then have "\<not> last_down (sends s)" using assms(1) by (auto simp: sinv_def)
  with assms(1) have p: "paired (pusher s) (sends s)" by (simp add: sinv_def complete_sends_def)
  let ?p = "case pusher s i of RpcPush d \<Rightarrow> Sleeping (clock s + d) | PowerPush \<Rightarrow> Held | ResetPush \<Rightarrow> Sleeping (clock s + 100)"
  let ?t = "(at s i ?p)\<lparr>mgr := MSet i True, sends := (i, True, clock s) # sends s\<rparr>"
  have "opened ?t i ?p" "down ?p" by (auto simp: opened_def hold_time_def split: pusher.split)
  with p others show ?thesis by (auto simp: sinv_def last_down_def complete_sends_def)
qed

lemma sinv_send_release:
  assumes "sinv s" "minv s" "phase s i = Releasing" "mgr s = MRange i"
  shows "sinv ((at s i Closing)\<lparr>mgr := MSet i False, sends := (i, False, clock s) # sends s\<rparr>)"
proof -
  have "\<not> down (phase s j)" if "j \<noteq> i" for j
    using only_down [OF assms(2,4), of j] that by auto
  moreover have "opened s i Releasing" using assms(1,3) by (metis sinv_def)
  then obtain u xs where u: "sends s = (i, True, u) # xs" "u + hold_time (pusher s i) \<le> clock s"
    by (auto simp: opened_def)
  moreover have "paired (pusher s) xs" using assms(1) u(1) by (simp add: sinv_def last_down_def complete_sends_def)
  ultimately show ?thesis by (simp add: sinv_def last_down_def complete_sends_def)
qed

lemma sinv_wake:
  assumes "sinv s" "phase s i = Sleeping t \<and> t \<le> clock s \<or> phase s i = Held"
  shows "sinv (at s i Releasing)"
proof (rule sinv_at [OF assms(1)])
  have "opened s i (phase s i)" using assms(1) by (simp add: sinv_def)
  with assms(2) show "opened s i Releasing" by (auto simp: opened_def hold_time_def)
qed simp

lemma sinv_step: "bstep inverted l s s' \<Longrightarrow> sinv s \<Longrightarrow> minv s \<Longrightarrow> cinv s \<Longrightarrow> sinv s'"
proof (induction rule: bstep.induct)
  case (SendPress s i)
  then show ?case by (intro sinv_send_press)
next
  case (SendRelease s i)
  then show ?case by (intro sinv_send_release)
next
  case (Accept s i)
  then have "sinv (at s i (case pusher s i of RpcPush _ \<Rightarrow> Accepted | _ \<Rightarrow> Committed))"
    by (intro sinv_at) (auto split: pusher.split)
  then show ?case by (rule sinv_cong) simp_all
next
  case (Close s i)
  then have "sinv (at s i (case pusher s i of RpcPush _ \<Rightarrow> Signalling | _ \<Rightarrow> Done))"
    by (intro sinv_at) (auto split: pusher.split)
  then show ?case by (rule sinv_cong) simp_all
next
  case (Signal s i)
  then have "sinv (at s i Done)" by (intro sinv_at) auto
  then show ?case by (rule sinv_cong) simp_all
next
  case (PowerDown s)
  then have "sinv (new_push PowerPush s)" by (intro sinv_new_push)
  then show ?case by (rule sinv_cong) simp_all
next
  case (Abort s i)
  then show ?case by (intro sinv_at) auto
next
  case (Commit s i)
  then show ?case by (intro sinv_at) auto
next
  case (NoSignal s i)
  then show ?case by (intro sinv_at) auto
next
  case (Wake s i t)
  then show ?case by (intro sinv_wake) auto
next
  case (PowerUp s i)
  then show ?case by (intro sinv_wake) auto
qed (blast intro: sinv_new_push | (erule sinv_cong; simp))+

lemma breach_binv: "breach inverted s \<Longrightarrow> binv inverted s"
proof (induction rule: breach.induct)
  case init
  show ?case
    by (simp add: binv_def minv_def cinv_def sinv_def linv_def ManageButton_init_def last_down_def commanded_def complete_sends_def)
next
  case (step s l s')
  then show ?case
    using minv_step cinv_step sinv_step linv_step unfolding binv_def by blast
qed

lemma PowerButtonHandler_step:
  "PowerButtonHandler state s = Some s' \<Longrightarrow> s' = s \<or> bstep inverted Env s s'"
  by (auto simp: PowerButtonHandler_def split: if_splits option.splits intro: bstep.PowerDown bstep.PowerUp)

lemma ResetButtonHandler_step:
  assumes "breach inverted s" "ResetButtonHandler state s = Some s'"
  shows "s' = s \<or> bstep inverted Env s s'"
proof -
  have "phase s i = Free" if "cnt s \<le> i" for i
    using breach_binv [OF assms(1)] that by (simp add: binv_def cinv_def)
  then have "\<forall>i. pusher s i = ResetPush \<longrightarrow> phase s i = Free \<or> phase s i = Done"
    if "list_all (\<lambda>i. pusher s i = ResetPush \<longrightarrow> phase s i = Free \<or> phase s i = Done) [0..<cnt s]"
    using that by (auto simp: list_all_iff not_le [symmetric])
  with assms(2) show ?thesis
    by (auto simp: ResetButtonHandler_def split: if_splits intro: bstep.ResetDown)
qed

section \<open>The line\<close>

lemma last_down_line:
  assumes "sinv s" "last_down (sends s)"
  shows "\<exists>i. down (phase s i)"
  using assms by (simp add: sinv_def)

text \<open>C3.
  Pressing a button, from any number of RPCs and physical presses in any interleaving: pushes never
  overlap (each sends its press and then its release before another push sends anything), the line is
  never held for less than the time asked for (10 s at most), and as long as the kernel has set the
  line every time, the line of an inverted button is low only while the push that pressed it is not
  released yet, and that push has the manager of the button for itself.
\<close>

theorem button_presses_serialized:
  assumes "breach True s"
  shows "paired (pusher s) (complete_sends (sends s)) \<and>
    (\<not> faulty s \<and> \<not> line s \<longrightarrow>
      (\<exists>i. servant (mgr s) = Some i \<and> (down (phase s i) \<or> mgr s = MSet i False) \<and>
           (\<forall>j. served (phase s j) \<longrightarrow> j = i)))"
proof -
  from breach_binv [OF assms] have inv: "minv s" "cinv s" "sinv s" "linv True s" by (simp_all add: binv_def)
  have "\<exists>i. servant (mgr s) = Some i \<and> (down (phase s i) \<or> mgr s = MSet i False)"
    if "\<not> faulty s" "\<not> line s"
  proof (cases "\<exists>i. mgr s = MSet i False")
    case False
    have "last_down (sends s)"
    proof (cases "mgr s")
      case (MSet i p)
      with inv(4) False show ?thesis by (auto simp: linv_def last_down_def)
    qed (use inv(4) that in \<open>auto simp: linv_def last_down_def commanded_def level_def split: list.splits\<close>)
    then obtain i where "down (phase s i)" using last_down_line [OF inv(3)] by blast
    moreover from this have "servant (mgr s) = Some i" using inv(1) down_served by (auto simp: minv_def)
    ultimately show ?thesis by blast
  qed auto
  moreover have "served (phase s j) \<Longrightarrow> servant (mgr s) = Some i \<Longrightarrow> j = i" for i j
    using inv(1) by (auto simp: minv_def)
  ultimately show ?thesis using inv(3) by (metis sinv_def)
qed

text \<open>A run with one press, up to the line being low.\<close>

definition pressed_state :: bsys where
  "pressed_state =
     \<lparr>cnt = 1, phase = (\<lambda>_. Free)(0 := Held), pusher = (\<lambda>_. PowerPush), cancelled = (\<lambda>_. False),
      caller = (\<lambda>_. Calling)(0 := Returned), mgr = MRange 0, line = False, faulty = False,
      sends = [(0, True, 0)], clock = 0, pushc = Some 0\<rparr>"

lemma pressed_state_reached: "breach True pressed_state"
proof -
  let ?s1 = "(new_push PowerPush ManageButton_init)\<lparr>pushc := Some (cnt ManageButton_init)\<rparr>"
  have 1: "breach True ?s1"
    by (rule breach.step [OF breach.init bstep.PowerDown]) (simp add: ManageButton_init_def)
  let ?s2 = "(at ?s1 0 (case pusher ?s1 0 of RpcPush _ \<Rightarrow> Accepted | _ \<Rightarrow> Committed))
      \<lparr>mgr := MRange 0, caller := (caller ?s1)(0 := Returned)\<rparr>"
  have 2: "breach True ?s2"
    by (rule breach.step [OF 1 bstep.Accept]) (simp_all add: ManageButton_init_def new_push_def)
  let ?s3 = "(at ?s2 0 (case pusher ?s2 0 of RpcPush d \<Rightarrow> Sleeping (clock ?s2 + d) | PowerPush \<Rightarrow> Held
                                 | ResetPush \<Rightarrow> Sleeping (clock ?s2 + 100)))
       \<lparr>mgr := MSet 0 True, sends := (0, True, clock ?s2) # sends ?s2\<rparr>"
  have 3: "breach True ?s3"
    by (rule breach.step [OF 2 bstep.SendPress]) (simp_all add: ManageButton_init_def new_push_def)
  have "breach True (?s3\<lparr>mgr := MRange 0, line := level True True\<rparr>)"
    by (rule breach.step [OF 3 bstep.SetValue]) (simp_all add: ManageButton_init_def new_push_def)
  then show ?thesis
    by (simp add: ManageButton_init_def new_push_def pressed_state_def level_def fun_upd_def cong: if_cong)
qed

theorem button_presses_serialized_witness:
  "breach True pressed_state \<and> \<not> line pressed_state \<and>
   (\<exists>i. servant (mgr pressed_state) = Some i \<and> down (phase pressed_state i))"
proof -
  have s: "\<not> faulty pressed_state" "\<not> line pressed_state" "mgr pressed_state = MRange 0"
    by (simp_all add: pressed_state_def)
  with button_presses_serialized [OF pressed_state_reached] show ?thesis
    using pressed_state_reached by auto
qed

section \<open>Progress\<close>

text \<open>How much work is left: by where the senders, the callers and the manager are.\<close>

fun phase_work :: "phase \<Rightarrow> nat" where
  "phase_work Queued = 11"
| "phase_work Accepted = 8"
| "phase_work Committed = 7"
| "phase_work (Sleeping _) = 5"
| "phase_work Held = 5"
| "phase_work Releasing = 4"
| "phase_work Closing = 2"
| "phase_work Signalling = 1"
| "phase_work _ = 0"

definition caller_work :: "caller \<Rightarrow> nat" where
  "caller_work c = (if c = Returned then 1 else 0)"

fun manager_work :: "manager \<Rightarrow> nat" where
  "manager_work MWait = 0"
| "manager_work (MRange _) = 1"
| "manager_work (MSet _ _) = 2"

definition work :: "bsys \<Rightarrow> nat" where
  "work s = (\<Sum>i<cnt s. phase_work (phase s i)) + (\<Sum>i<cnt s. caller_work (caller s i)) + manager_work (mgr s)"

lemma sum_update:
  fixes g :: "'a \<Rightarrow> nat" and n :: nat
  assumes "i < n"
  shows "(\<Sum>j<n. g ((f(i := x)) j)) + g (f i) = (\<Sum>j<n. g (f j)) + g x"
proof -
  have "(\<Sum>j<n. g ((f(i := x)) j)) = g x + (\<Sum>j\<in>{..<n} - {i}. g (f j))"
    using assms by (subst sum.remove [of _ i]) auto
  moreover have "(\<Sum>j<n. g (f j)) = g (f i) + (\<Sum>j\<in>{..<n} - {i}. g (f j))"
    using assms by (subst sum.remove [of _ i]) auto
  ultimately show ?thesis by simp
qed

lemma cinv_in_use: "cinv s \<Longrightarrow> phase s i \<noteq> Free \<or> caller s i \<noteq> Calling \<Longrightarrow> i < cnt s"
  by (metis cinv_def not_le)

lemma work_at:
  assumes "cinv s" "phase s i \<noteq> Free \<or> caller s i \<noteq> Calling"
    and "cnt t = cnt s" "phase t = (phase s)(i := phase t i)" "caller t = (caller s)(i := caller t i)"
  shows "work t + phase_work (phase s i) + caller_work (caller s i) + manager_work (mgr s) =
    work s + phase_work (phase t i) + caller_work (caller t i) + manager_work (mgr t)"
  using sum_update [OF cinv_in_use [OF assms(1,2)], of phase_work "phase s" "phase t i"]
    sum_update [OF cinv_in_use [OF assms(1,2)], of caller_work "caller s" "caller t i"]
  unfolding work_def assms(3) by (simp only: assms(4,5) [symmetric])

lemma work_decreases:
  assumes "bstep inverted Work s s'" "cinv s"
  shows "work s' < work s"
  using assms(1)
proof (cases rule: bstep.cases)
  case (Accept i)
  moreover from this have "caller s i = Calling"
    using assms(2) cinv_in_use [OF assms(2), of i] by (simp add: cinv_def)
  ultimately show ?thesis
    using work_at [OF assms(2), of i s'] by (auto simp: caller_work_def fun_eq_iff split: pusher.splits)
next
  case (CallerWaits i d)
  then show ?thesis using work_at [OF assms(2), of i s'] by (auto simp: caller_work_def fun_eq_iff)
next
  case (Signal i)
  then show ?thesis using work_at [OF assms(2), of i s'] by (auto simp: caller_work_def fun_eq_iff)
next
  case (SendPress i)
  then show ?thesis using work_at [OF assms(2), of i s'] by (auto simp: fun_eq_iff split: pusher.splits)
next
  case (Close i)
  then show ?thesis using work_at [OF assms(2), of i s'] by (auto simp: fun_eq_iff split: pusher.splits)
next
  case (Abort i)
  then show ?thesis using work_at [OF assms(2), of i s'] by (auto simp: fun_eq_iff)
next
  case (Commit i)
  then show ?thesis using work_at [OF assms(2), of i s'] by (auto simp: fun_eq_iff)
next
  case (Wake i t)
  then show ?thesis using work_at [OF assms(2), of i s'] by (auto simp: fun_eq_iff)
next
  case (SendRelease i)
  then show ?thesis using work_at [OF assms(2), of i s'] by (auto simp: fun_eq_iff)
next
  case (NoSignal i)
  then show ?thesis using work_at [OF assms(2), of i s'] by (auto simp: fun_eq_iff)
qed (auto simp: work_def)

text \<open>C24.
  The goroutines that press a button never run forever without new calls, button events or time
  passing: every sequence of their own steps from a reachable state is finite.
\<close>

theorem button_work_terminates: "wf {(s', s). breach inverted s \<and> bstep inverted Work s s'}"
proof (rule wf_subset [OF wf_measure [of work]])
  show "{(s', s). breach inverted s \<and> bstep inverted Work s s'} \<subseteq> measure work"
    using work_decreases breach_binv by (auto simp: binv_def)
qed

lemma range_progress:
  assumes "mgr s = MRange i" "served (phase s i)" "\<nexists>s'. bstep inverted Work s s'"
  shows "phase s i = Held \<or> (\<exists>t. phase s i = Sleeping t \<and> clock s < t)"
proof (cases "phase s i")
  case Accepted
  then show ?thesis using assms(3) bstep.Abort bstep.Commit by blast
next
  case (Sleeping t)
  then show ?thesis using assms(3) bstep.Wake by (metis not_le)
next
  case Committed
  then show ?thesis using assms bstep.SendPress by blast
next
  case Releasing
  then show ?thesis using assms bstep.SendRelease by blast
next
  case Closing
  then show ?thesis using assms bstep.Close by blast
qed (use assms(2) in auto)



section \<open>Pushes that are not answered\<close>

abbreviation bsteps :: "bool \<Rightarrow> bsys \<Rightarrow> bsys \<Rightarrow> bool" where
  "bsteps inverted \<equiv> rtranclp (\<lambda>s s'. \<exists>l. bstep inverted l s s')"

lemma bsteps_invariant:
  assumes "bsteps inverted s s'" "P s" "\<And>l t t'. bstep inverted l t t' \<Longrightarrow> P t \<Longrightarrow> P t'"
  shows "P s'"
  using assms by (induction rule: rtranclp_induct) auto

lemma aborted_step:
  "bstep inverted l s s' \<Longrightarrow> phase s i = Aborted \<and> caller s i \<noteq> Answered \<and> i < cnt s \<Longrightarrow>
   phase s' i = Aborted \<and> caller s' i \<noteq> Answered \<and> i < cnt s'"
  by (induction rule: bstep.induct) (auto simp: new_push_def)

lemma answered_done:
  "breach inverted s \<Longrightarrow> (caller s i = Answered \<longrightarrow> phase s i = Done) \<and> (phase s i = Free \<longleftrightarrow> cnt s \<le> i)"
proof (induction rule: breach.induct)
  case init
  show ?case by (simp add: ManageButton_init_def)
next
  case (step s l s')
  from step.hyps(2) step.IH show ?case
    by (induction rule: bstep.induct) (auto simp: new_push_def split: pusher.splits)
qed

text \<open>A push whose context was cancelled before it started never touches the line and never signals: the
  caller, who waits for the signal, is not answered in any continuation.
\<close>

theorem cancelled_push_never_answered:
  assumes "breach inverted s" "phase s i = Aborted" "bsteps inverted s s'"
  shows "caller s' i \<noteq> Answered"
proof -
  have "phase s i = Aborted \<and> caller s i \<noteq> Answered \<and> i < cnt s"
    using answered_done [OF assms(1), of i] assms(2) by auto
  with bsteps_invariant [OF assms(3), of "\<lambda>s. phase s i = Aborted \<and> caller s i \<noteq> Answered \<and> i < cnt s"]
  show ?thesis using aborted_step by blast
qed

text \<open>A press that is cancelled after the manager took it.\<close>

definition aborted_state :: bsys where
  "aborted_state =
     \<lparr>cnt = 1, phase = (\<lambda>_. Free)(0 := Aborted), pusher = (\<lambda>_. PowerPush)(0 := RpcPush 5),
      cancelled = (\<lambda>_. False)(0 := True), caller = (\<lambda>_. Calling)(0 := Returned), mgr = MRange 0,
      line = True, faulty = False, sends = [], clock = 0, pushc = None\<rparr>"

lemma aborted_state_reached: "breach True aborted_state"
proof -
  let ?s1 = "new_push (RpcPush 5) ManageButton_init"
  have 1: "breach True ?s1" by (rule breach.step [OF breach.init bstep.Press]) simp
  let ?s2 = "(at ?s1 0 (case pusher ?s1 0 of RpcPush _ \<Rightarrow> Accepted | _ \<Rightarrow> Committed))
      \<lparr>mgr := MRange 0, caller := (caller ?s1)(0 := Returned)\<rparr>"
  have 2: "breach True ?s2"
    by (rule breach.step [OF 1 bstep.Accept]) (simp_all add: ManageButton_init_def new_push_def)
  let ?s3 = "?s2\<lparr>cancelled := (cancelled ?s2)(0 := True)\<rparr>"
  have 3: "breach True ?s3" by (rule breach.step [OF 2 bstep.Cancel])
  have "breach True (at ?s3 0 Aborted)"
    by (rule breach.step [OF 3 bstep.Abort]) (simp_all add: ManageButton_init_def new_push_def)
  then show ?thesis
    by (simp add: ManageButton_init_def new_push_def aborted_state_def fun_upd_def cong: if_cong)
qed

theorem cancelled_push_never_answered_witness:
  "phase aborted_state 0 = Aborted \<and> caller (aborted_state\<lparr>mgr := MWait\<rparr>) 0 \<noteq> Answered"
proof -
  have "phase aborted_state 0 = Aborted" "mgr aborted_state = MRange 0" by (simp_all add: aborted_state_def)
  moreover from this have "bstep True Work aborted_state (aborted_state\<lparr>mgr := MWait\<rparr>)"
    by (intro bstep.RangeEnd [of _ 0]) (simp_all only: phase_simps)
  then have "bsteps True aborted_state (aborted_state\<lparr>mgr := MWait\<rparr>)" by blast
  ultimately show ?thesis using cancelled_push_never_answered [OF aborted_state_reached, of 0] by blast
qed

lemma stuck_step:
  assumes "bstep inverted l s s'" "binv inverted s \<and> phase s i = Held \<and> pushc s \<noteq> Some i \<and> i < cnt s \<and>
     j < cnt s \<and> (phase s j = Queued \<or> j = i)"
  shows "binv inverted s' \<and> phase s' i = Held \<and> pushc s' \<noteq> Some i \<and> i < cnt s' \<and>
     j < cnt s' \<and> (phase s' j = Queued \<or> j = i)"
proof -
  have inv: "binv inverted s'"
    using assms minv_step cinv_step sinv_step linv_step unfolding binv_def by blast
  have "servant (mgr s) = Some i" using assms(2) by (auto simp: binv_def minv_def)
  then have "mgr s \<noteq> MWait" "\<And>k. mgr s = MRange k \<Longrightarrow> k = i" by auto
  with assms inv show ?thesis
    by (cases rule: bstep.cases) (auto simp: new_push_def)
qed

text \<open>Two press edges of the physical power button with no release edge between them block the button
  forever: the handler has overwritten the channel of the first push, which then never ends, so the
  second push and every other push that is queued stay queued in every continuation.
\<close>

theorem power_double_press_blocks:
  assumes "breach inverted s" "phase s i = Held" "pushc s \<noteq> Some i" "phase s j = Queued" "bsteps inverted s s'"
  shows "phase s' i = Held \<and> phase s' j = Queued"
proof -
  have ij: "i < cnt s" "j < cnt s"
    using answered_done [OF assms(1), of i] answered_done [OF assms(1), of j] assms(2,4) by auto
  let ?P = "\<lambda>s. binv inverted s \<and> phase s i = Held \<and> pushc s \<noteq> Some i \<and> i < cnt s \<and>
     j < cnt s \<and> (phase s j = Queued \<or> j = i)"
  have "?P s'"
    using bsteps_invariant [OF assms(5), of ?P] breach_binv [OF assms(1)] assms(2-4) ij stuck_step by blast
  moreover have "j \<noteq> i" using assms(2,4) by auto
  ultimately show ?thesis by simp
qed

lemma blocked_reached:
  "breach True ((new_push PowerPush pressed_state)\<lparr>pushc := Some (cnt pressed_state)\<rparr>)"
  by (rule breach.step [OF pressed_state_reached bstep.PowerDown]) (simp add: pressed_state_def)

theorem power_double_press_blocks_witness:
  "phase ((new_push PowerPush pressed_state)\<lparr>pushc := Some (cnt pressed_state)\<rparr>) 0 = Held \<and>
   phase ((new_push PowerPush pressed_state)\<lparr>pushc := Some (cnt pressed_state)\<rparr>) 1 = Queued"
  using power_double_press_blocks [OF blocked_reached, of 0 1, OF _ _ _ rtranclp.rtrancl_refl]
  by (simp add: new_push_def pressed_state_def)

end
