(* ===== verification/Gpio_System.thy ===== *)
theory Gpio_System
  imports Go_Prelude
begin

text \<open>
  The GPIO system of the daemon apart from its buttons (\<^verbatim>\<open>pkg/bmc/gpio.go\<close>: monitors and hogs),
  its implementation on Linux (\<^verbatim>\<open>pkg/bmc/gpio_linux.go\<close>) and the fake of the tests
  (\<^verbatim>\<open>pkg/bmc/gpio_fake.go\<close>). The kernel's answers to the ioctls, and the sequence of
  reads of an event file, are arguments.
\<close>

unbundle bit_operations_syntax

section \<open>The character device\<close>

record gpiohandle_request =
  lineoffsets :: "u32 list"
  req_flags :: u32
  default_values :: "u8 list"
  consumer_label :: "u8 list"
  req_lines :: u32
  req_fd :: u32

record gpiohandle_data =
  gpio_values :: "u8 list"

record gpioevent_request =
  lineoffset :: u32
  handleflags :: u32
  eventflags :: u32
  ev_label :: "u8 list"
  ev_fd :: u32

record gpioevent_data =
  Timestamp :: u64
  Id :: u32

definition GPIOHANDLE_REQUEST_INPUT :: u32 where "GPIOHANDLE_REQUEST_INPUT = 1"
definition GPIOHANDLE_REQUEST_OUTPUT :: u32 where "GPIOHANDLE_REQUEST_OUTPUT = 2"
definition GPIOEVENT_REQUEST_RISING_EDGE :: u32 where "GPIOEVENT_REQUEST_RISING_EDGE = 1"
definition GPIOEVENT_REQUEST_FALLING_EDGE :: u32 where "GPIOEVENT_REQUEST_FALLING_EDGE = 2"
definition GPIOEVENT_REQUEST_BOTH_EDGES :: u32 where
  "GPIOEVENT_REQUEST_BOTH_EDGES = GPIOEVENT_REQUEST_RISING_EDGE OR GPIOEVENT_REQUEST_FALLING_EDGE"
definition GPIOEVENT_EVENT_RISING_EDGE :: u32 where "GPIOEVENT_EVENT_RISING_EDGE = 1"
definition GPIOEVENT_EVENT_FALLING_EDGE :: u32 where "GPIOEVENT_EVENT_FALLING_EDGE = 2"

definition GPIO_EVENT_UNKNOWN :: int where "GPIO_EVENT_UNKNOWN = 0"
definition GPIO_EVENT_RISING_EDGE :: int where "GPIO_EVENT_RISING_EDGE = 1"
definition GPIO_EVENT_FALLING_EDGE :: int where "GPIO_EVENT_FALLING_EDGE = 2"

datatype gpioErr =
    Errno string int
  | ReadEvent
  | UnknownEvent gpioevent_data
  | Unresolved string

text \<open>
  Writing the elements of a slice to the first places of an array, as the loops over \<^verbatim>\<open>lines\<close>
  and \<^verbatim>\<open>out\<close> do: an index past the end of the array panics.
\<close>

definition fillArray :: "'a list \<Rightarrow> 'a list \<Rightarrow> panic + 'a list" where
  "fillArray arr xs = (if length xs \<le> length arr then Inr (xs @ drop (length xs) arr) else Inl IndexPanic)"

text \<open>In the loops over \<^verbatim>\<open>out\<close> only the true entries are written, so only they can panic.\<close>

fun fillTrue :: "nat \<Rightarrow> u8 list \<Rightarrow> bool list \<Rightarrow> panic + u8 list" where
  "fillTrue i arr [] = Inr arr"
| "fillTrue i arr (v # vs) =
     (if v then (if i < length arr then fillTrue (i + 1) (arr[i := 1]) vs else Inl IndexPanic)
      else fillTrue (i + 1) arr vs)"

definition ubmc_label :: "u8 list" where
  "ubmc_label = map of_char ''u-bmc'' @ replicate 27 0"

text \<open>The request that \<^verbatim>\<open>requestLineHandle\<close> passes to the kernel.\<close>

definition lineHandleRequest :: "u32 list \<Rightarrow> bool list \<Rightarrow> panic + gpiohandle_request" where
  "lineHandleRequest lines out =
     (case fillArray (replicate 64 0) lines of
        Inl e \<Rightarrow> Inl e
      | Inr offs \<Rightarrow>
     (case fillTrue 0 (replicate 64 0) out of
        Inl e \<Rightarrow> Inl e
      | Inr vals \<Rightarrow>
          Inr \<lparr>lineoffsets = offs,
               req_flags = (if length out > 0 then GPIOHANDLE_REQUEST_OUTPUT else GPIOHANDLE_REQUEST_INPUT),
               default_values = vals, consumer_label = ubmc_label,
               req_lines = of_nat (length lines), req_fd = 0\<rparr>))"

text \<open>The kernel answers with an error number, or fills in the file of the handle.\<close>

definition requestLineHandle ::
  "(gpiohandle_request \<Rightarrow> int + u32) \<Rightarrow> u32 list \<Rightarrow> bool list \<Rightarrow> panic + (gpioErr + u32)" where
  "requestLineHandle ioctl lines out =
     (case lineHandleRequest lines out of
        Inl e \<Rightarrow> Inl e
      | Inr r \<Rightarrow>
          (case ioctl r of
             Inl errno \<Rightarrow> Inr (Inl (Errno ''GPIO_GET_LINEHANDLE_IOCTL'' errno))
           | Inr fd \<Rightarrow> Inr (Inr fd)))"

definition getLineValues :: "(gpiohandle_data \<Rightarrow> int + gpiohandle_data) \<Rightarrow> gpioErr + bool list" where
  "getLineValues ioctl =
     (case ioctl \<lparr>gpio_values = replicate 64 0\<rparr> of
        Inl errno \<Rightarrow> Inl (Errno ''GPIOHANDLE_GET_LINE_VALUES_IOCTL'' errno)
      | Inr h \<Rightarrow> Inr (map (\<lambda>v. v \<noteq> 0) (gpio_values h)))"

definition setLineValues ::
  "(gpiohandle_data \<Rightarrow> int option) \<Rightarrow> bool list \<Rightarrow> panic + gpioErr option" where
  "setLineValues ioctl out =
     (case fillTrue 0 (replicate 64 0) out of
        Inl e \<Rightarrow> Inl e
      | Inr vals \<Rightarrow>
          Inr (case ioctl \<lparr>gpio_values = vals\<rparr> of
                 Some errno \<Rightarrow> Some (Errno ''GPIOHANDLE_SET_LINE_VALUES_IOCTL'' errno)
               | None \<Rightarrow> None))"

definition lineEventRequest :: "u32 \<Rightarrow> gpioevent_request" where
  "lineEventRequest line =
     \<lparr>lineoffset = line, handleflags = GPIOHANDLE_REQUEST_INPUT,
      eventflags = GPIOEVENT_REQUEST_BOTH_EDGES, ev_label = replicate 32 0, ev_fd = 0\<rparr>"

definition getLineEvent :: "(gpioevent_request \<Rightarrow> int + u32) \<Rightarrow> u32 \<Rightarrow> gpioErr + u32" where
  "getLineEvent ioctl line =
     (case ioctl (lineEventRequest line) of
        Inl errno \<Rightarrow> Inl (Errno ''GPIO_GET_LINEEVENT_IOCTL'' errno)
      | Inr fd \<Rightarrow> Inr fd)"

definition gpioLnxEvent_getValue :: "(gpiohandle_data \<Rightarrow> int + gpiohandle_data) \<Rightarrow> panic + (gpioErr + bool)" where
  "gpioLnxEvent_getValue ioctl =
     (case getLineValues ioctl of
        Inl e \<Rightarrow> Inr (Inl e)
      | Inr b \<Rightarrow> if b = [] then Inl IndexPanic else Inr (Inr (b ! 0)))"

text \<open>
  Reading an event: 16 bytes, the last four of which are padding. The result is the event and the error, as
  the code returns both for an unknown event.
\<close>

datatype fileRead = FileEOF | FileError | FileBytes "u8 list"

definition readEventData :: "u8 list \<Rightarrow> gpioevent_data" where
  "readEventData b =
     \<lparr>Timestamp = ucast (of_le32 (take 4 b)) OR push_bit 32 (ucast (of_le32 (take 4 (drop 4 b)))),
      Id = of_le32 (take 4 (drop 8 b))\<rparr>"

definition gpioLnxEvent_read :: "fileRead \<Rightarrow> int option \<times> gpioErr option" where
  "gpioLnxEvent_read f =
     (case f of
        FileEOF \<Rightarrow> (None, None)
      | FileError \<Rightarrow> (None, Some ReadEvent)
      | FileBytes b \<Rightarrow>
          let e = readEventData b in
          if Id e = GPIOEVENT_EVENT_FALLING_EDGE then (Some GPIO_EVENT_FALLING_EDGE, None)
          else if Id e = GPIOEVENT_EVENT_RISING_EDGE then (Some GPIO_EVENT_RISING_EDGE, None)
          else (Some GPIO_EVENT_UNKNOWN, Some (UnknownEvent e)))"

section \<open>Monitors\<close>

text \<open>
  How a monitor ends: it waits for the next event, it has failed (with the callback's channel left
  open), or it has stopped with the channel closed.
\<close>

datatype monitorEnd = Watching | MonitorFailed gpioErr | MonitorStopped

text \<open>The loop over the events: what it sends to the callback, and how it ends.\<close>

fun monitorLoop :: "(int option \<times> gpioErr option) list \<Rightarrow> bool list \<times> monitorEnd" where
  "monitorLoop [] = ([], Watching)"
| "monitorLoop ((None, Some e) # rs) = ([], MonitorFailed e)"
| "monitorLoop ((None, None) # rs) = ([], MonitorStopped)"
| "monitorLoop ((Some ev, err) # rs) =
     (case monitorLoop rs of (out, e) \<Rightarrow>
        (if ev = GPIO_EVENT_FALLING_EDGE then False # out
         else if ev = GPIO_EVENT_RISING_EDGE then True # out
         else out, e))"

text \<open>\<^verbatim>\<open>monitorOne\<close>: the initial value given to the callback and the edges, or the error.\<close>

definition monitorOne ::
  "(string \<Rightarrow> u32 option) \<Rightarrow> (u32 \<Rightarrow> gpioErr + 'h) \<Rightarrow> ('h \<Rightarrow> gpioErr + bool) \<Rightarrow>
   ('h \<Rightarrow> (int option \<times> gpioErr option) list) \<Rightarrow> string \<Rightarrow> gpioErr + bool \<times> bool list \<times> monitorEnd" where
  "monitorOne GpioNameToPort lineEvent getValue reads line =
     (case GpioNameToPort line of
        None \<Rightarrow> Inl (Unresolved line)
      | Some port \<Rightarrow>
     (case lineEvent port of
        Inl e \<Rightarrow> Inl e
      | Inr h \<Rightarrow>
     (case getValue h of
        Inl e \<Rightarrow> Inl e
      | Inr d \<Rightarrow> Inr (d, monitorLoop (reads h)))))"

text \<open>
  \<^verbatim>\<open>Monitor\<close> starts one monitor with its callback per line, each in a goroutine of its own, so that none waits for another; an error
  that a monitor ends with is logged with the line.
\<close>

definition monitorError :: "gpioErr + bool \<times> bool list \<times> monitorEnd \<Rightarrow> gpioErr option" where
  "monitorError r = (case r of Inl e \<Rightarrow> Some e | Inr (d, out, MonitorFailed e) \<Rightarrow> Some e | _ \<Rightarrow> None)"

definition Monitor ::
  "(string \<Rightarrow> u32 option) \<Rightarrow> (u32 \<Rightarrow> gpioErr + 'h) \<Rightarrow> ('h \<Rightarrow> gpioErr + bool) \<Rightarrow>
   ('h \<Rightarrow> (int option \<times> gpioErr option) list) \<Rightarrow> (string \<times> 'cb) list \<Rightarrow>
   (string \<times> 'cb \<times> (gpioErr + bool \<times> bool list \<times> monitorEnd)) list \<times> (string \<times> gpioErr) list" where
  "Monitor GpioNameToPort lineEvent getValue reads lines =
     (let rs = map (\<lambda>(l, cb). (l, cb, monitorOne GpioNameToPort lineEvent getValue reads l)) lines in
      (rs, List.map_filter (\<lambda>(l, cb, r). map_option (Pair l) (monitorError r)) rs))"

text \<open>\<^verbatim>\<open>LogGpio\<close>: the gauge of the line, which is zero before, after the edges received so far.\<close>

definition LogGpio :: "bool \<Rightarrow> bool list \<Rightarrow> nat" where
  "LogGpio d edges = fold (\<lambda>value g. if value then 1 else 0) edges (if d then 1 else 0)"

section \<open>Hogs\<close>

fun resolveAll :: "(string \<Rightarrow> u32 option) \<Rightarrow> (string \<times> bool) list \<Rightarrow> gpioErr + u32 list \<times> bool list" where
  "resolveAll f [] = Inr ([], [])"
| "resolveAll f ((l, v) # ls) =
     (case f l of
        None \<Rightarrow> Inl (Unresolved l)
      | Some port \<Rightarrow>
          (case resolveAll f ls of
             Inl e \<Rightarrow> Inl e
           | Inr (ps, vs) \<Rightarrow> Inr (port # ps, v # vs)))"

datatype hogResult = TooManyLines nat | HogUnresolved gpioErr | HogFailed gpioErr | Hogged u32

text \<open>The map of the lines in the order in which Go ranges over it.\<close>

definition Hog ::
  "(string \<Rightarrow> u32 option) \<Rightarrow> (u32 list \<Rightarrow> bool list \<Rightarrow> panic + (gpioErr + u32)) \<Rightarrow>
   (string \<times> bool) list \<Rightarrow> panic + hogResult" where
  "Hog GpioNameToPort lineHandle lines =
     (if length lines > 64 then Inr (TooManyLines (length lines))
      else case resolveAll GpioNameToPort lines of
             Inl e \<Rightarrow> Inr (HogUnresolved e)
           | Inr (lidx, vals) \<Rightarrow>
               (case lineHandle lidx vals of
                  Inl e \<Rightarrow> Inl e
                | Inr (Inl e) \<Rightarrow> Inr (HogFailed e)
                | Inr (Inr fd) \<Rightarrow> Inr (Hogged fd)))"

section \<open>The fake\<close>

text \<open>
  The fake keeps the value of each line. Its ports are unbuffered channels, made for the lines of the start-up state; the channel
  of any other line is nil, and a send to it or a receive from it blocks forever. The arguments say who waits on the other end: a
  reader of the port, or a sender with a value.
\<close>

record fakeGpio =
  fg_ports :: "u32 \<Rightarrow> bool"
  fg_v :: "u32 \<Rightarrow> bool"
  fg_delivered :: "(u32 \<times> bool) list"

fun fakeGpioLine_setValues :: "(u32 \<Rightarrow> bool) \<Rightarrow> u32 list \<Rightarrow> bool list \<Rightarrow> fakeGpio \<Rightarrow> panic + fakeGpio" where
  "fakeGpioLine_setValues waiting lines [] g = Inr g"
| "fakeGpioLine_setValues waiting [] (v # vs) g = Inl IndexPanic"
| "fakeGpioLine_setValues waiting (p # ps) (v # vs) g =
     fakeGpioLine_setValues waiting ps vs
       (g\<lparr>fg_v := (fg_v g)(p := v),
          fg_delivered := (if fg_ports g p \<and> waiting p then fg_delivered g @ [(p, v)] else fg_delivered g)\<rparr>)"

definition fakeGpio_Current :: "u32 \<Rightarrow> fakeGpio \<Rightarrow> bool" where
  "fakeGpio_Current p g = fg_v g p"

text \<open>\<^verbatim>\<open>Set\<close> changes the value before it waits for the reader: the flag tells whether it returns.\<close>

definition fakeGpio_Set :: "(u32 \<Rightarrow> bool) \<Rightarrow> u32 \<Rightarrow> bool \<Rightarrow> fakeGpio \<Rightarrow> fakeGpio \<times> bool" where
  "fakeGpio_Set waiting p v g =
     (let g1 = g\<lparr>fg_v := (fg_v g)(p := v)\<rparr> in
      if fg_ports g p \<and> waiting p then (g1\<lparr>fg_delivered := fg_delivered g @ [(p, v)]\<rparr>, True) else (g1, False))"

text \<open>The receives, with the value of the sender that waits: None means that they block.\<close>

definition fakeGpio_WaitForChange :: "(u32 \<Rightarrow> bool option) \<Rightarrow> u32 \<Rightarrow> fakeGpio \<Rightarrow> bool option" where
  "fakeGpio_WaitForChange sent p g = (if fg_ports g p then sent p else None)"

definition fakeGpio_requestLineHandle :: "u32 list \<Rightarrow> bool list \<Rightarrow> gpioErr + u32 list" where
  "fakeGpio_requestLineHandle lines out = Inr lines"

definition fakeGpio_getLineEvent :: "u32 \<Rightarrow> gpioErr + u32" where
  "fakeGpio_getLineEvent line = Inr line"

definition fakeGpioEvent_getValue :: "fakeGpio \<Rightarrow> u32 \<Rightarrow> gpioErr + bool" where
  "fakeGpioEvent_getValue g line = Inr (fg_v g line)"

definition fakeEvent :: "bool \<Rightarrow> int option \<times> gpioErr option" where
  "fakeEvent nv = (Some (if nv then GPIO_EVENT_RISING_EDGE else GPIO_EVENT_FALLING_EDGE), None)"

definition fakeGpioEvent_read :: "(u32 \<Rightarrow> bool option) \<Rightarrow> u32 \<Rightarrow> fakeGpio \<Rightarrow> (int option \<times> gpioErr option) option" where
  "fakeGpioEvent_read sent line g = (if fg_ports g line then map_option fakeEvent (sent line) else None)"

definition FakeGpioImpl :: "(u32 \<rightharpoonup> bool) \<Rightarrow> fakeGpio" where
  "FakeGpioImpl startup =
     \<lparr>fg_ports = (\<lambda>p. startup p \<noteq> None), fg_v = (\<lambda>p. case startup p of Some v \<Rightarrow> v | None \<Rightarrow> False), fg_delivered = []\<rparr>"

section \<open>Interfaces\<close>

text \<open>
  \<^verbatim>\<open>GpioPlatform\<close>: the names of the lines and their ports belong together. Then lines with different names have different ports, and what is
  requested for a set of lines has no port twice.
\<close>

locale line_names =
  fixes nameToPort :: "string \<Rightarrow> u32 option"
    and portToName :: "u32 \<Rightarrow> string option"
  assumes names_inverse: "portToName p = Some l \<longleftrightarrow> nameToPort l = Some p"
begin

lemma port_unique: "nameToPort l = Some p \<Longrightarrow> nameToPort l' = Some p \<Longrightarrow> l = l'"
  using names_inverse by (metis option.inject)

lemma resolveAll_distinct:
  "resolveAll nameToPort ls = Inr (ps, vs) \<Longrightarrow> distinct (map fst ls) \<Longrightarrow>
   distinct ps \<and> (\<forall>p \<in> set ps. \<exists>l \<in> fst ` set ls. nameToPort l = Some p)"
proof (induction ls arbitrary: ps vs)
  case (Cons lv ls)
  obtain l v where lv: "lv = (l, v)" by fastforce
  with Cons.prems(1) obtain p ps' vs' where r: "nameToPort l = Some p" "resolveAll nameToPort ls = Inr (ps', vs')" "ps = p # ps'"
    by (auto split: option.splits sum.splits)
  have ih: "distinct ps'" "\<forall>q \<in> set ps'. \<exists>k \<in> fst ` set ls. nameToPort k = Some q"
    using Cons.IH [OF r(2)] Cons.prems(2) by auto
  have "p \<notin> set ps'" using ih(2) port_unique Cons.prems(2) r(1) lv by fastforce
  with ih r lv show ?case by auto
qed simp

end

text \<open>
  \<^verbatim>\<open>gpioEventImpl\<close>: a read gives the edge of the line as an event. Then a monitor passes every edge on in order, and the gauge of a logged line
  is at the level of the last one. The implementation on Linux and the fake of the tests both keep this.
\<close>

locale gpio_events =
  fixes readEdge :: "bool \<Rightarrow> int option \<times> gpioErr option"
  assumes read_edge: "readEdge v = (Some (if v then GPIO_EVENT_RISING_EDGE else GPIO_EVENT_FALLING_EDGE), None)"
begin

lemma edges_received: "monitorLoop (map readEdge vs @ rs) = (vs @ fst (monitorLoop rs), snd (monitorLoop rs))"
  by (induction vs) (auto simp: read_edge GPIO_EVENT_RISING_EDGE_def GPIO_EVENT_FALLING_EDGE_def)

lemma monitored:
  assumes "f name = Some p" "lineEvent p = Inr h" "getValue h = Inr d" "reads h = map readEdge vs"
  shows "monitorOne f lineEvent getValue reads name = Inr (d, vs, Watching)"
  using assms edges_received [of vs "[]"] by (simp add: monitorOne_def)

lemma gauge_level: "LogGpio d vs = (if last (d # vs) then 1 else 0)"
  by (induction vs rule: rev_induct) (auto simp: LogGpio_def)

end

section \<open>What the kernel is asked\<close>

lemma fillTrue_ok:
  "i + length vs \<le> length arr \<Longrightarrow> fillTrue i arr vs = Inr (take i arr @ map2 (\<lambda>v x. if v then 1 else x) vs (drop i arr) @ drop (i + length vs) arr)"
proof (induction i arr vs rule: fillTrue.induct)
  case (2 i arr v vs)
  then have i: "i < length arr" by simp
  then have d: "drop i arr = arr ! i # drop (i + 1) arr" by (simp add: Cons_nth_drop_Suc)
  show ?case
  proof (cases v)
    case True
    with 2 i d show ?thesis by (simp add: take_Suc_conv_app_nth)
  next
    case False
    with 2 i d show ?thesis by (simp add: take_Suc_conv_app_nth)
  qed
qed simp

lemma lineHandleRequest_ok:
  assumes "length lines \<le> 64" "length out \<le> 64"
  shows "lineHandleRequest lines out = Inr
     \<lparr>lineoffsets = lines @ replicate (64 - length lines) 0,
      req_flags = (if length out > 0 then GPIOHANDLE_REQUEST_OUTPUT else GPIOHANDLE_REQUEST_INPUT),
      default_values = map (\<lambda>v. if v then 1 else 0) out @ replicate (64 - length out) 0,
      consumer_label = ubmc_label, req_lines = of_nat (length lines), req_fd = 0\<rparr>"
proof -
  have "map2 (\<lambda>v x. if v then 1 else x) out (replicate 64 0) = map (\<lambda>v. if v then 1 else (0::u8)) out"
    using assms(2) by (intro nth_equalityI) (auto simp: min_def)
  then show ?thesis
    using assms fillTrue_ok [of 0 out "replicate 64 0"]
    by (simp add: lineHandleRequest_def fillArray_def)
qed

lemma resolveAll_ok:
  "resolveAll f ls = Inr (ps, vs) \<Longrightarrow> map (f \<circ> fst) ls = map Some ps \<and> vs = map snd ls"
proof (induction f ls arbitrary: ps vs rule: resolveAll.induct)
  case (2 f l v ls)
  from "2.prems" obtain p ps' vs' where "f l = Some p" "resolveAll f ls = Inr (ps', vs')" "ps = p # ps'" "vs = v # vs'"
    by (auto split: option.splits sum.splits)
  with "2.IH" [of p ps' vs'] show ?case by simp
qed simp

lemma resolveAll_length: "resolveAll f ls = Inr (ps, vs) \<Longrightarrow> length ps = length ls \<and> length vs = length ls"
  using resolveAll_ok [of f ls ps vs] by (metis length_map)

text \<open>Hogging lines on Linux never panics, for any set of lines and any answers of the kernel. If it
  succeeds, the kernel has been asked once, for exactly the named lines as outputs with exactly the given
  values, in the same order.
\<close>

theorem Hog_request:
  "\<exists>r. Hog f (requestLineHandle ioctl) lines = Inr r \<and>
     (case r of Hogged fd \<Rightarrow> length lines \<le> 64 \<and> (\<exists>ports. map (f \<circ> fst) lines = map Some ports \<and>
        ioctl \<lparr>lineoffsets = ports @ replicate (64 - length lines) 0,
               req_flags = (if lines = [] then GPIOHANDLE_REQUEST_INPUT else GPIOHANDLE_REQUEST_OUTPUT),
               default_values = map (\<lambda>(_, v). if v then 1 else 0) lines @ replicate (64 - length lines) 0,
               consumer_label = ubmc_label, req_lines = of_nat (length lines), req_fd = 0\<rparr> = Inr fd) | _ \<Rightarrow> True)"
proof (cases "length lines \<le> 64")
  case True
  show ?thesis
  proof (cases "resolveAll f lines")
    case (Inl e)
    with True show ?thesis by (simp add: Hog_def)
  next
    case (Inr pv)
    then obtain ps vs where pv: "resolveAll f lines = Inr (ps, vs)" by (cases pv) auto
    note ok = resolveAll_ok [OF pv] and len = resolveAll_length [OF pv]
    have "lineHandleRequest ps vs = Inr
       \<lparr>lineoffsets = ps @ replicate (64 - length lines) 0,
        req_flags = (if lines = [] then GPIOHANDLE_REQUEST_INPUT else GPIOHANDLE_REQUEST_OUTPUT),
        default_values = map (\<lambda>(_, v). if v then 1 else 0) lines @ replicate (64 - length lines) 0,
        consumer_label = ubmc_label, req_lines = of_nat (length lines), req_fd = 0\<rparr>"
      using lineHandleRequest_ok [of ps vs] True ok len by (simp add: comp_def case_prod_unfold)
    then show ?thesis
      using True pv ok by (auto simp: Hog_def requestLineHandle_def split: sum.split)
  qed
qed (simp add: Hog_def)

section \<open>What a monitor reports\<close>

text \<open>The event files of the kernel: a time, the edge and four bytes of padding.\<close>

definition encodeEvent :: "u64 \<times> u32 \<Rightarrow> u8 list" where
  "encodeEvent e = le32 (ucast (fst e)) @ le32 (ucast (drop_bit 32 (fst e))) @ le32 (snd e) @ replicate 4 0"

text \<open>The level of the line after the events, given its level before.\<close>

fun lineLevel :: "bool \<Rightarrow> (u64 \<times> u32) list \<Rightarrow> bool" where
  "lineLevel d [] = d"
| "lineLevel d ((t, i) # es) =
     lineLevel (if i = GPIOEVENT_EVENT_RISING_EDGE then True
                else if i = GPIOEVENT_EVENT_FALLING_EDGE then False else d) es"

lemma readEventData_encode: "Id (readEventData (encodeEvent e)) = snd e"
  by (simp add: readEventData_def encodeEvent_def)

lemma monitorLoop_events:
  "\<exists>out. monitorLoop (map (\<lambda>e. gpioLnxEvent_read (FileBytes (encodeEvent e))) es @ rs) =
     (out @ fst (monitorLoop rs), snd (monitorLoop rs)) \<and> LogGpio d out = (if lineLevel d es then 1 else 0)"
proof (induction es arbitrary: d)
  case Nil
  show ?case by (rule exI [of _ "[]"]) (simp add: LogGpio_def)
next
  case (Cons e es)
  obtain t i where e: "e = (t, i)" by fastforce
  let ?d = "if i = GPIOEVENT_EVENT_RISING_EDGE then True else if i = GPIOEVENT_EVENT_FALLING_EDGE then False else d"
  obtain out where out: "monitorLoop (map (\<lambda>e. gpioLnxEvent_read (FileBytes (encodeEvent e))) es @ rs) =
     (out @ fst (monitorLoop rs), snd (monitorLoop rs))" "LogGpio ?d out = (if lineLevel ?d es then 1 else 0)"
    using Cons.IH [of ?d] by blast
  note defs = gpioLnxEvent_read_def readEventData_encode e Let_def
    GPIO_EVENT_RISING_EDGE_def GPIO_EVENT_FALLING_EDGE_def GPIO_EVENT_UNKNOWN_def
    GPIOEVENT_EVENT_RISING_EDGE_def GPIOEVENT_EVENT_FALLING_EDGE_def
  show ?case
    using out by (cases "i = 1"; cases "i = 2") (auto simp: defs LogGpio_def)
qed

text \<open>A monitored line: for every initial value and every sequence of events the kernel reports (events
  of unknown kinds among them), the gauge of the line ends at the level the line has after them. The
  monitor then waits for more, ends with the channel closed at the end of the file, and on an error
  ends without closing it.
\<close>

theorem monitor_gauge:
  assumes "f name = Some port" "lineEvent port = Inr h" "getValue h = Inr d"
    and "reads h = map (\<lambda>e. gpioLnxEvent_read (FileBytes (encodeEvent e))) es @ map gpioLnxEvent_read rest"
    and "rest = [] \<or> hd rest = FileEOF \<or> hd rest = FileError"
  shows "\<exists>edges. monitorOne f lineEvent getValue reads name =
      Inr (d, edges, if rest = [] then Watching else if hd rest = FileEOF then MonitorStopped else MonitorFailed ReadEvent) \<and>
      LogGpio d edges = (if lineLevel d es then 1 else 0)"
proof -
  obtain out where "monitorLoop (reads h) =
      (out @ fst (monitorLoop (map gpioLnxEvent_read rest)), snd (monitorLoop (map gpioLnxEvent_read rest)))"
    "LogGpio d out = (if lineLevel d es then 1 else 0)"
    using monitorLoop_events [of es "map gpioLnxEvent_read rest" d] assms(4) by auto
  moreover have "monitorLoop (map gpioLnxEvent_read rest) =
      ([], if rest = [] then Watching else if hd rest = FileEOF then MonitorStopped else MonitorFailed ReadEvent)"
    using assms(5) by (cases rest) (auto simp: gpioLnxEvent_read_def)
  ultimately show ?thesis using assms(1-3) by (simp add: monitorOne_def)
qed

theorem monitor_gauge_witness:
  "\<exists>edges. monitorOne (\<lambda>_. Some 3) (\<lambda>p. Inr p) (\<lambda>_. Inr False)
      (\<lambda>_. map (\<lambda>e. gpioLnxEvent_read (FileBytes (encodeEvent e))) [(7, 1), (8, 9)] @ map gpioLnxEvent_read [FileEOF]) ''SLP_S3_N'' =
      Inr (False, edges, MonitorStopped) \<and> LogGpio False edges = 1"
  using monitor_gauge [of "\<lambda>_. Some 3" "''SLP_S3_N''" 3 "\<lambda>p. Inr p" 3 "\<lambda>_. Inr False" False
      "\<lambda>_. map (\<lambda>e. gpioLnxEvent_read (FileBytes (encodeEvent e))) [(7, 1), (8, 9)] @ map gpioLnxEvent_read [FileEOF]"
      "[(7, 1), (8, 9)]" "[FileEOF]"]
  by (simp add: GPIOEVENT_EVENT_RISING_EDGE_def GPIOEVENT_EVENT_FALLING_EDGE_def)

section \<open>The fake keeps its lines\<close>

text \<open>Setting lines on the fake gives each the last value set, and panics only with too few lines.\<close>

lemma fake_setValues:
  "length vs \<le> length ls \<Longrightarrow> distinct ls \<Longrightarrow>
   \<exists>g'. fakeGpioLine_setValues waiting ls vs g = Inr g' \<and>
     (\<forall>i < length vs. fakeGpio_Current (ls ! i) g' = vs ! i) \<and>
     (\<forall>p. p \<notin> set ls \<longrightarrow> fakeGpio_Current p g' = fakeGpio_Current p g)"
proof (induction waiting ls vs g rule: fakeGpioLine_setValues.induct)
  case (3 waiting p ps v vs g)
  let ?g = "g\<lparr>fg_v := (fg_v g)(p := v), fg_delivered := (if fg_ports g p \<and> waiting p then fg_delivered g @ [(p, v)] else fg_delivered g)\<rparr>"
  from 3 obtain g' where g': "fakeGpioLine_setValues waiting ps vs ?g = Inr g'"
    "\<forall>i < length vs. fakeGpio_Current (ps ! i) g' = vs ! i"
    "\<forall>q. q \<notin> set ps \<longrightarrow> fakeGpio_Current q g' = fakeGpio_Current q ?g" by auto
  have "fakeGpio_Current p g' = v" using g'(3) "3.prems"(2) by (simp add: fakeGpio_Current_def)
  then have "\<forall>i < length (v # vs). fakeGpio_Current ((p # ps) ! i) g' = (v # vs) ! i"
    using g'(2) by (auto simp: less_Suc_eq_0_disj)
  with g' show ?case by (auto simp: fakeGpio_Current_def)
qed (simp_all add: fakeGpio_Current_def)

text \<open>The two implementations of \<^verbatim>\<open>gpioEventImpl\<close>, with the encoding of the kernel on Linux.\<close>

interpretation linux: gpio_events
  "\<lambda>v. gpioLnxEvent_read (FileBytes (encodeEvent (time, if v then GPIOEVENT_EVENT_RISING_EDGE else GPIOEVENT_EVENT_FALLING_EDGE)))" for time
  by unfold_locales
    (simp add: gpioLnxEvent_read_def readEventData_encode Let_def GPIOEVENT_EVENT_RISING_EDGE_def GPIOEVENT_EVENT_FALLING_EDGE_def)

interpretation fake: gpio_events fakeEvent
  by unfold_locales (simp add: fakeEvent_def)

text \<open>
  A monitor over the fake: its callback is given the value of the start-up state and then what the test harness sets, in order; the
  value that \<^verbatim>\<open>Current\<close> reports is the one that was set last, also while \<^verbatim>\<open>Set\<close> still waits.
\<close>

lemma fake_monitor:
  assumes "f name = Some p" "startup p = Some d"
  shows "monitorOne f fakeGpio_getLineEvent (fakeGpioEvent_getValue (FakeGpioImpl startup))
      (\<lambda>h. map fakeEvent vs) name = Inr (d, vs, Watching)"
  by (intro fake.monitored [where h = p]) (simp_all add: assms fakeGpio_getLineEvent_def fakeGpioEvent_getValue_def FakeGpioImpl_def)

lemma fake_Set:
  "fakeGpio_Current q (fst (fakeGpio_Set waiting p v g)) = (if q = p then v else fakeGpio_Current q g)"
  "startup p = None \<Longrightarrow> \<not> snd (fakeGpio_Set waiting p v (FakeGpioImpl startup))"
  "startup p = None \<Longrightarrow> fakeGpio_WaitForChange sent p (FakeGpioImpl startup) = None"
  "fakeGpioEvent_read sent p g = map_option fakeEvent (fakeGpio_WaitForChange sent p g)"
  by (simp_all add: fakeGpio_Set_def fakeGpio_Current_def FakeGpioImpl_def fakeGpio_WaitForChange_def
      fakeGpioEvent_read_def Let_def)

lemma Monitor_independent:
  "(l, cb) \<in> set lines \<Longrightarrow>
     (l, cb, monitorOne f lineEvent getValue reads l) \<in> set (fst (Monitor f lineEvent getValue reads lines))"
  by (force simp: Monitor_def Let_def)

end
