(* ===== verification/Ttime.thy ===== *)
theory Ttime
  imports Go_Prelude
begin

text \<open>
  Trusted time (\<^verbatim>\<open>pkg/bmc/ttime/roughtime.go\<close>): one roughtime answer fixes a window, and the first NTP
  time inside the window refines it. Times and durations are in nanoseconds. The network is an argument: what
  each server answers, and in which order the goroutines that ask the roughtime servers end.
\<close>

section \<open>One roughtime answer\<close>

record RoughtimeServer =
  Protocol :: string
  Address :: string
  PublicKey :: string
  PublicKeyType :: string

text \<open>The midpoint of an answer and its radius in microseconds.\<close>

record Roughtime =
  Midpoint :: int
  Radius :: u32

text \<open>
  \<open>finished\<close> lists the servers that were asked, in the order in which their goroutines end, with their
  answers or \<open>None\<close> for an error. The channel has room for all of them; after the last one the goroutine
  that waits for the group adds nil if one of them has failed. Reading from the channel gives its first
  element, and never returns if there will be none.
\<close>

definition roughtimeChannel :: "Roughtime option list \<Rightarrow> Roughtime option list" where
  "roughtimeChannel finished =
     filter (\<lambda>r. r \<noteq> None) finished @ (if None \<in> set finished then [None] else [])"

definition getOneRoughtime :: "Roughtime option list \<Rightarrow> panic + Roughtime option" where
  "getOneRoughtime finished =
     (case roughtimeChannel finished of [] \<Rightarrow> Inl NoReturn | r # _ \<Rightarrow> Inr r)"

text \<open>The servers that are asked: those whose key can be decoded (by a base64 decoder).\<close>

definition askedServers :: "(string \<Rightarrow> 'k option) \<Rightarrow> RoughtimeServer list \<Rightarrow> RoughtimeServer list" where
  "askedServers DecodeString rs = filter (\<lambda>r. DecodeString (PublicKey r) \<noteq> None) rs"

section \<open>The time\<close>

datatype timeError = NoRoughtimeServers

text \<open>
  The loop over the NTP servers: each answers with a time, and some time after the start, or fails.
  A time that is too late after rewinding, or too early, is skipped.
\<close>

fun firstNtp :: "int \<Rightarrow> int \<Rightarrow> (int \<times> int) option list \<Rightarrow> int option" where
  "firstNtp earliest latest [] = None"
| "firstNtp earliest latest (None # ns) = firstNtp earliest latest ns"
| "firstNtp earliest latest (Some (t, diff) # ns) =
     (let ct = t + diff * -1 in
      if ct > latest then firstNtp earliest latest ns
      else if t < earliest then firstNtp earliest latest ns
      else Some t)"

definition AcquireTime :: "Roughtime option list \<Rightarrow> (int \<times> int) option list \<Rightarrow> panic + (timeError + int)" where
  "AcquireTime finished ntps =
     (case getOneRoughtime finished of
        Inl e \<Rightarrow> Inl e
      | Inr None \<Rightarrow> Inr (Inl NoRoughtimeServers)
      | Inr (Some rt) \<Rightarrow>
          let midpoint = Midpoint rt; radius = wrap 64 (uint (Radius rt) * 1000);
              earliest = midpoint + radius * -1; latest = midpoint + radius in
          Inr (Inr (case firstNtp earliest latest ntps of Some t \<Rightarrow> t | None \<Rightarrow> midpoint)))"

section \<open>Lemmas\<close>

lemma radius_no_overflow: "wrap 64 (uint (r :: u32) * 1000) = uint r * 1000"
proof -
  have "- (2 ^ 63) \<le> uint r * 1000" by (rule order_trans [of _ 0]) simp_all
  moreover have "uint r * 1000 < 2 ^ 63" using uint_lt2p [of r] by simp
  ultimately show ?thesis using wrap_id [of 64 "uint r * 1000"] by simp
qed

lemma getOneRoughtime_cases:
  "getOneRoughtime finished =
     (if finished = [] then Inl NoReturn
      else case filter (\<lambda>r. r \<noteq> None) finished of [] \<Rightarrow> Inr None | r # _ \<Rightarrow> Inr r)"
  by (cases finished) (auto simp: getOneRoughtime_def roughtimeChannel_def split: list.split)

lemma firstNtp_Some:
  "firstNtp earliest latest ns = Some t \<Longrightarrow>
   \<exists>diff. Some (t, diff) \<in> set ns \<and> earliest \<le> t \<and> t - diff \<le> latest"
  by (induction earliest latest ns rule: firstNtp.induct) (auto simp: Let_def split: if_splits)

lemma firstNtp_None:
  "firstNtp earliest latest ns = None \<Longrightarrow> Some (t, diff) \<in> set ns \<Longrightarrow> latest < t - diff \<or> t < earliest"
  by (induction earliest latest ns rule: firstNtp.induct) (auto simp: Let_def split: if_splits)

text \<open>
  The time that is accepted, as a specification: it comes from a roughtime answer, and either an NTP
  server gave it and it is in the window around that answer (the upper end moved by the time since the
  start), or it is the answer itself and no NTP time was acceptable.
\<close>

definition acceptable :: "Roughtime \<Rightarrow> int \<Rightarrow> int \<Rightarrow> bool" where
  "acceptable rt t diff \<longleftrightarrow>
     Midpoint rt - uint (Radius rt) * 1000 \<le> t \<and> t - diff \<le> Midpoint rt + uint (Radius rt) * 1000"



text \<open>
  Only the upper end of the window is checked on the rewound time: a time can be accepted that was
  already before the window when the roughtime answer was valid.
\<close>

lemma AcquireTime_early:
  "AcquireTime [Some \<lparr>Midpoint = 5000, Radius = 1\<rparr>] [Some (4100, 1000)] = Inr (Inr 4100) \<and>
   (4100 :: int) - 1000 < 5000 - 1 * 1000"
  by (simp add: AcquireTime_def getOneRoughtime_def roughtimeChannel_def Let_def wrap_id)

text \<open>With no server to ask, because none is configured or every key is corrupt, acquiring the time never
  returns: nothing is ever put on the channel. With a key that decodes, it always returns.
\<close>

theorem AcquireTime_blocks:
  assumes "length finished = length (askedServers DecodeString rs)"
  shows "AcquireTime finished ntps = Inl NoReturn \<longleftrightarrow> (\<forall>r \<in> set rs. DecodeString (PublicKey r) = None)"
proof -
  have "AcquireTime finished ntps = Inl NoReturn \<longleftrightarrow> finished = []"
    by (auto simp: AcquireTime_def getOneRoughtime_cases Let_def split: list.split option.split)
  also have "\<dots> \<longleftrightarrow> askedServers DecodeString rs = []" using assms by (metis length_0_conv)
  finally show ?thesis by (auto simp: askedServers_def filter_empty_conv)
qed

theorem AcquireTime_blocks_witness:
  "AcquireTime [] [] = Inl NoReturn"
  using AcquireTime_blocks [of "[]" "\<lambda>k. if k = ''%'' then None else Some k"
      "[\<lparr>Protocol = ''udp'', Address = ''a:2002'', PublicKey = ''%'', PublicKeyType = ''ed25519''\<rparr>]" "[]"]
  by (simp add: askedServers_def)

end
