(* ===== verification/Go_Error.thy ===== *)
theory Go_Error
  imports Go_Prelude
begin

text \<open>
  Programs that return a value and an error, as most Go functions do: a world-passing program whose value is
  \<open>Inl\<close> the error or \<open>Inr\<close> the result, with the \<^verbatim>\<open>if err != nil { return err }\<close> after each call as a
  composition. The equations run such a program call by call.
\<close>

type_synonym ('s, 'e, 'a) eio = "('s, 'e + 'a) io"

definition succeed :: "'a \<Rightarrow> ('s, 'e, 'a) eio" where
  "succeed x = ret (Inr x)"

definition fail :: "'e \<Rightarrow> ('s, 'e, 'a) eio" where
  "fail e = ret (Inl e)"

definition ebnd :: "('s, 'e, 'a) eio \<Rightarrow> ('a \<Rightarrow> ('s, 'e, 'b) eio) \<Rightarrow> ('s, 'e, 'b) eio" where
  "ebnd m f = bnd m (\<lambda>r. case r of Inl e \<Rightarrow> fail e | Inr x \<Rightarrow> f x)"

definition ethn :: "('s, 'e, 'a) eio \<Rightarrow> ('s, 'e, 'b) eio \<Rightarrow> ('s, 'e, 'b) eio" where
  "ethn m n = ebnd m (\<lambda>_. n)"

text \<open>A call whose result does not depend on the world.\<close>

definition pure_result :: "'e + 'a \<Rightarrow> ('s, 'e, 'a) eio" where
  "pure_result r = ret r"

lemma succeed_run [io_simps]: "succeed x s = (Inr (Inr x), s)"
  by (simp add: succeed_def ret_def)

lemma fail_run [io_simps]: "fail e s = (Inr (Inl e), s)"
  by (simp add: fail_def ret_def)

lemma ebnd_run [io_simps]:
  "m s = (Inr (Inr x), s') \<Longrightarrow> ebnd m f s = f x s'"
  "m s = (Inr (Inl e), s') \<Longrightarrow> ebnd m f s = (Inr (Inl e), s')"
  "m s = (Inl p, s') \<Longrightarrow> ebnd m f s = (Inl p, s')"
  by (simp_all add: ebnd_def bnd_def fail_run)

lemma ebnd_succeed [simp]: "ebnd (succeed x) f = f x"
  by (simp add: ebnd_def succeed_def)

lemma ebnd_fail [simp]: "ebnd (fail e) f = fail e"
  by (simp add: ebnd_def fail_def)

lemma ebnd_raise [simp]: "ebnd (raise p) f = raise p"
  by (simp add: ebnd_def)

lemma ethn_succeed [simp]: "ethn (succeed x) n = n"
  by (simp add: ethn_def)

lemma ethn_fail [simp]: "ethn (fail e) n = fail e"
  by (simp add: ethn_def)

lemma ebnd_cases:
  "ebnd m f s = (r, t) \<longleftrightarrow>
     (\<exists>p. m s = (Inl p, t) \<and> r = Inl p) \<or> (\<exists>e. m s = (Inr (Inl e), t) \<and> r = Inr (Inl e)) \<or>
     (\<exists>x u. m s = (Inr (Inr x), u) \<and> f x u = (r, t))"
  by (cases "m s"; cases "fst (m s)") (auto simp: ebnd_def bnd_def fail_def ret_def split: sum.splits)

text \<open>Two programs that agree after every successful first call agree.\<close>

lemma ebnd_cong_run:
  assumes "m s = n s" "\<And>x t. m s = (Inr (Inr x), t) \<Longrightarrow> f x t = g x t"
  shows "ebnd m f s = ebnd n g s"
  using assms by (auto simp: ebnd_def bnd_def fail_def ret_def split: sum.splits prod.splits)

lemma ebnd_success:
  "ebnd m f s = (Inr (Inr y), t) \<longleftrightarrow> (\<exists>x u. m s = (Inr (Inr x), u) \<and> f x u = (Inr (Inr y), t))"
  by (simp add: ebnd_cases)

section \<open>Invariants of programs\<close>

text \<open>
  \<open>safe I P m\<close>: from a world with the invariant \<open>I\<close>, the program \<open>m\<close> keeps the invariant, whatever it returns
  and also if it panics, and it panics only in the ways that \<open>P\<close> allows.
\<close>

definition safe :: "('s \<Rightarrow> bool) \<Rightarrow> (panic \<Rightarrow> bool) \<Rightarrow> ('s, 'a) io \<Rightarrow> bool" where
  "safe I P m \<longleftrightarrow> (\<forall>s. I s \<longrightarrow> I (snd (m s)) \<and> (\<forall>p. fst (m s) = Inl p \<longrightarrow> P p))"

named_theorems safe_rules \<open>introduction rules for keeping an invariant\<close>

lemma safeI: "(\<And>s r t. I s \<Longrightarrow> m s = (r, t) \<Longrightarrow> I t \<and> (\<forall>p. r = Inl p \<longrightarrow> P p)) \<Longrightarrow> safe I P m"
  unfolding safe_def by (metis prod.collapse)

lemma safeD: "safe I P m \<Longrightarrow> I s \<Longrightarrow> m s = (r, t) \<Longrightarrow> I t \<and> (\<forall>p. r = Inl p \<longrightarrow> P p)"
  unfolding safe_def by (metis fst_conv snd_conv)

lemma safe_ret [safe_rules]: "safe I P (ret x)"
  by (simp add: safe_def ret_def)

lemma safe_raise [safe_rules]: "P p \<Longrightarrow> safe I P (raise p)"
  by (simp add: safe_def raise_def)

lemma safe_bnd [safe_rules]:
  assumes "safe I P m" "\<And>x. safe I P (f x)"
  shows "safe I P (bnd m f)"
proof (rule safeI)
  fix s r t assume s: "I s" "bnd m f s = (r, t)"
  obtain r1 u where m: "m s = (r1, u)" by fastforce
  note u = safeD [OF assms(1) s(1) m]
  show "I t \<and> (\<forall>p. r = Inl p \<longrightarrow> P p)"
  proof (cases r1)
    case (Inl p)
    with s(2) m u show ?thesis by (auto simp: bnd_def)
  next
    case (Inr x)
    with s(2) m have "f x u = (r, t)" by (simp add: bnd_def)
    with safeD [OF assms(2)] u show ?thesis by blast
  qed
qed

lemma safe_thn [safe_rules]: "safe I P m \<Longrightarrow> safe I P n \<Longrightarrow> safe I P (thn m n)"
  unfolding thn_def by (rule safe_bnd)

lemma safe_succeed [safe_rules]: "safe I P (succeed x)"
  unfolding succeed_def by (rule safe_ret)

lemma safe_fail [safe_rules]: "safe I P (fail e)"
  unfolding fail_def by (rule safe_ret)

lemma safe_pure_result [safe_rules]: "safe I P (pure_result r)"
  unfolding pure_result_def by (rule safe_ret)

lemma safe_ebnd [safe_rules]: "safe I P m \<Longrightarrow> (\<And>x. safe I P (f x)) \<Longrightarrow> safe I P (ebnd m f)"
  unfolding ebnd_def by (auto intro!: safe_bnd safe_fail split: sum.split)

lemma safe_ethn [safe_rules]: "safe I P m \<Longrightarrow> safe I P n \<Longrightarrow> safe I P (ethn m n)"
  unfolding ethn_def by (rule safe_ebnd)

lemma safe_if [safe_rules]: "(b \<Longrightarrow> safe I P m) \<Longrightarrow> (\<not> b \<Longrightarrow> safe I P n) \<Longrightarrow> safe I P (if b then m else n)"
  by simp

lemma safe_case_option [safe_rules]:
  "safe I P m \<Longrightarrow> (\<And>x. safe I P (f x)) \<Longrightarrow> safe I P (case v of None \<Rightarrow> m | Some x \<Rightarrow> f x)"
  by (cases v) simp_all

lemma safe_case_sum [safe_rules]:
  "(\<And>x. safe I P (f x)) \<Longrightarrow> (\<And>x. safe I P (g x)) \<Longrightarrow> safe I P (case v of Inl x \<Rightarrow> f x | Inr x \<Rightarrow> g x)"
  by (cases v) simp_all

section \<open>What a successful call returns\<close>

text \<open>\<open>yields Q m\<close>: every result that \<open>m\<close> returns without an error satisfies \<open>Q\<close>.\<close>

definition yields :: "('a \<Rightarrow> bool) \<Rightarrow> ('s, 'e, 'a) eio \<Rightarrow> bool" where
  "yields Q m \<longleftrightarrow> (\<forall>s x t. m s = (Inr (Inr x), t) \<longrightarrow> Q x)"

named_theorems yields_rules \<open>introduction rules for the results of calls\<close>

lemma yieldsD: "yields Q m \<Longrightarrow> m s = (Inr (Inr x), t) \<Longrightarrow> Q x"
  unfolding yields_def by blast

lemma yields_succeed [yields_rules]: "Q x \<Longrightarrow> yields Q (succeed x)"
  by (simp add: yields_def succeed_run)

lemma yields_fail [yields_rules]: "yields Q (fail e)"
  by (simp add: yields_def fail_run)

lemma yields_raise [yields_rules]: "yields Q (raise p)"
  by (simp add: yields_def raise_def)

lemma yields_ebnd [yields_rules]: "(\<And>x. yields Q (f x)) \<Longrightarrow> yields Q (ebnd m f)"
  unfolding yields_def ebnd_success by blast

lemma yields_ebnd_result: "yields R m \<Longrightarrow> (\<And>x. R x \<Longrightarrow> yields Q (f x)) \<Longrightarrow> yields Q (ebnd m f)"
  unfolding yields_def ebnd_success by blast

lemma yields_ethn [yields_rules]: "yields Q n \<Longrightarrow> yields Q (ethn m n)"
  unfolding ethn_def by (rule yields_ebnd)

lemma yields_bnd [yields_rules]:
  assumes "\<And>x. yields Q (f x)"
  shows "yields Q (bnd m f)"
  unfolding yields_def
proof (intro allI impI)
  fix s x t assume "bnd m f s = (Inr (Inr x), t)"
  then obtain y u where "f y u = (Inr (Inr x), t)" by (auto simp: bnd_def split: prod.splits sum.splits)
  with assms show "Q x" by (rule yieldsD)
qed

lemma yields_if [yields_rules]: "(b \<Longrightarrow> yields Q m) \<Longrightarrow> (\<not> b \<Longrightarrow> yields Q n) \<Longrightarrow> yields Q (if b then m else n)"
  by simp

lemma yields_case_option [yields_rules]:
  "yields Q m \<Longrightarrow> (\<And>x. yields Q (f x)) \<Longrightarrow> yields Q (case v of None \<Rightarrow> m | Some x \<Rightarrow> f x)"
  by (cases v) simp_all

lemma yields_case_sum [yields_rules]:
  "(\<And>x. yields Q (f x)) \<Longrightarrow> (\<And>x. yields Q (g x)) \<Longrightarrow> yields Q (case v of Inl x \<Rightarrow> f x | Inr x \<Rightarrow> g x)"
  by (cases v) simp_all

end
