(* ===== verification/Acme_Types.thy ===== *)
theory Acme_Types
  imports Go_Error
begin

text \<open>
  The data of the ACME client (\<^verbatim>\<open>pkg/acme/types.go\<close>): its records, the errors it returns and their
  texts, and the conversion of what the server sends. A time is in nanoseconds, and the zero time is
  \<open>None\<close>. Of the headers of a response the three that the client reads are kept; \<open>[]\<close> is a missing one.
\<close>

section \<open>Numbers and times in headers\<close>

text \<open>\<^verbatim>\<open>strconv.Atoi\<close> for an \<^verbatim>\<open>int\<close> of \<open>w\<close> bits.\<close>

definition Atoi :: "nat \<Rightarrow> string \<Rightarrow> int option" where
  "Atoi w s =
     (case s of
        [] \<Rightarrow> None
      | c # cs \<Rightarrow>
          let neg = (c = CHR ''-''); ds = (if neg \<or> c = CHR ''+'' then cs else s) in
          if ds = [] then None
          else case parse_digits 0 ds of
                 None \<Rightarrow> None
               | Some n \<Rightarrow>
                   if neg then (if int n \<le> 2 ^ (w - 1) then Some (- int n) else None)
                   else (if int n < 2 ^ (w - 1) then Some (int n) else None))"

text \<open>
  \<^verbatim>\<open>retryAfter\<close>: a number of seconds from now, or a date, which \<^verbatim>\<open>http.ParseTime\<close> reads.
\<close>

definition retryAfter :: "nat \<Rightarrow> (string \<Rightarrow> int option) \<Rightarrow> int \<Rightarrow> string \<Rightarrow> int option" where
  "retryAfter w ParseTime now v =
     (case Atoi w v of
        Some i \<Rightarrow> Some (now + wrap 64 (i * 1000000000))
      | None \<Rightarrow> ParseTime v)"

section \<open>Records\<close>

definition StatusUnknown :: string where "StatusUnknown = ''unknown''"
definition StatusPending :: string where "StatusPending = ''pending''"
definition StatusProcessing :: string where "StatusProcessing = ''processing''"
definition StatusValid :: string where "StatusValid = ''valid''"
definition StatusInvalid :: string where "StatusInvalid = ''invalid''"
definition StatusRevoked :: string where "StatusRevoked = ''revoked''"
definition StatusDeactivated :: string where "StatusDeactivated = ''deactivated''"
definition StatusReady :: string where "StatusReady = ''ready''"

lemmas status_defs = StatusUnknown_def StatusPending_def StatusProcessing_def StatusValid_def
  StatusInvalid_def StatusRevoked_def StatusDeactivated_def StatusReady_def

record httpHeader =
  Replay_Nonce :: string
  Location :: string
  Retry_After :: string

record AuthzID =
  id_Type :: string
  id_Value :: string

record Subproblem =
  sub_Type :: string
  sub_Detail :: string
  sub_Identifier :: "AuthzID option"

record AcmeError =
  err_StatusCode :: int
  err_Type :: string
  err_Detail :: string
  err_Subproblems :: "Subproblem list"
  err_Header :: "httpHeader option"

record Account =
  AccountURL :: string
  ac_Status :: string
  Contact :: "string list"
  TermsAgreed :: bool
  OrdersURL :: string

record Directory =
  NewNonceURL :: string
  NewAccountURL :: string
  NewOrderURL :: string
  NewAuthzURL :: string
  RevokeCertURL :: string
  KeyChangeURL :: string
  Terms :: string
  Website :: string
  CAA :: "string list"
  ExternalAccountRequired :: bool

record Order =
  ord_URL :: string
  ord_Status :: string
  ord_Expires :: "int option"
  ord_Identifiers :: "AuthzID list"
  ord_NotBefore :: "int option"
  ord_NotAfter :: "int option"
  ord_Error :: "AcmeError option"
  ord_Authorizations :: "string list"
  ord_FinalizeURL :: string
  ord_CertificateURL :: string
  ord_RetryAfter :: "int option"

definition NewOrder :: "string list \<Rightarrow> Order" where
  "NewOrder domains =
     \<lparr>ord_URL = [], ord_Status = [], ord_Expires = None,
      ord_Identifiers = map (\<lambda>d. \<lparr>id_Type = ''dns'', id_Value = d\<rparr>) domains,
      ord_NotBefore = None, ord_NotAfter = None, ord_Error = None, ord_Authorizations = [],
      ord_FinalizeURL = [], ord_CertificateURL = [], ord_RetryAfter = None\<rparr>"

record Challenge =
  ch_Type :: string
  ch_URL :: string
  ch_Token :: string
  ch_Validated :: "int option"
  ch_Status :: string
  ch_Error :: "AcmeError option"

record Authorization =
  auth_URL :: string
  auth_Status :: string
  auth_Identifier :: AuthzID
  auth_Wildcard :: bool
  auth_Expires :: "int option"
  auth_Challenges :: "Challenge list"

section \<open>Errors\<close>

datatype acmeError =
    ServerError AcmeError
  | OrderInvalidError Order
  | OrderPendingError Order
  | AuthorizationError Authorization
  | ErrUnsupportedKey
  | TransportError string
  | BadRequest string
  | ContextDone
  | InvalidResponse string
  | UnexpectedStatus string
  | NonceNotFound
  | ChainTooBig
  | ChainTooLong
  | InvalidChain
  | InvalidBlock string

definition AcmeError_Error :: "AcmeError \<Rightarrow> string" where
  "AcmeError_Error e = ''acme: '' @ err_Type e @ '': '' @ err_Detail e"

definition OrderInvalidError_Error :: "Order option \<Rightarrow> string" where
  "OrderInvalidError_Error o1 =
     (case o1 of
        None \<Rightarrow> ''acme: order is invalid''
      | Some ord \<Rightarrow>
          (case ord_Error ord of
             None \<Rightarrow> ''acme: order is invalid''
           | Some e \<Rightarrow> ''acme: invalid order ('' @ err_Type e @ ''): '' @ err_Detail e))"

definition OrderPendingError_Error :: string where
  "OrderPendingError_Error = ''acme: order is pending due to incomplete authorization''"

definition AuthorizationError_Error :: "Authorization option \<Rightarrow> string" where
  "AuthorizationError_Error a =
     (case a of
        None \<Rightarrow> ''acme: authorization is invalid''
      | Some z \<Rightarrow> ''acme: authorization for identifier '' @ id_Value (auth_Identifier z) @ '' is '' @ auth_Status z)"

text \<open>When a rate limited call may be tried again.\<close>

definition RateLimit :: "(string \<Rightarrow> int option) \<Rightarrow> acmeError \<Rightarrow> int option \<times> bool" where
  "RateLimit retry err =
     (case err of
        ServerError e \<Rightarrow>
          if err_Type e \<noteq> ''urn:ietf:params:acme:error:rateLimited'' then (None, False)
          else (case err_Header e of None \<Rightarrow> (None, True) | Some h \<Rightarrow> (retry (Retry_After h), True))
      | _ \<Rightarrow> (None, False))"

section \<open>What the server sends\<close>

record wireChallenge =
  wc_URL :: string
  wc_Type :: string
  wc_Token :: string
  wc_Status :: string
  wc_Validated :: "int option"
  wc_Error :: "AcmeError option"

definition challenge_of :: "wireChallenge \<Rightarrow> Challenge" where
  "challenge_of c =
     \<lparr>ch_Type = wc_Type c, ch_URL = wc_URL c, ch_Token = wc_Token c, ch_Validated = wc_Validated c,
      ch_Status = (if wc_Status c = [] then StatusUnknown else wc_Status c), ch_Error = wc_Error c\<rparr>"

record wireAuthz =
  wa_Status :: string
  wa_Challenges :: "wireChallenge list"
  wa_Expires :: "int option"
  wa_Identifier :: AuthzID
  wa_Wildcard :: bool

definition authorization_of :: "wireAuthz \<Rightarrow> string \<Rightarrow> Authorization" where
  "authorization_of z url =
     \<lparr>auth_URL = url, auth_Status = wa_Status z,
      auth_Identifier = \<lparr>id_Type = id_Type (wa_Identifier z), id_Value = id_Value (wa_Identifier z)\<rparr>,
      auth_Wildcard = wa_Wildcard z, auth_Expires = wa_Expires z,
      auth_Challenges = map challenge_of (wa_Challenges z)\<rparr>"

record wireError =
  we_Status :: int
  we_Type :: string
  we_Detail :: string
  we_Subproblems :: "Subproblem list"

definition error_of :: "wireError \<Rightarrow> httpHeader \<Rightarrow> AcmeError" where
  "error_of e h =
     \<lparr>err_StatusCode = we_Status e, err_Type = we_Type e, err_Detail = we_Detail e,
      err_Subproblems = we_Subproblems e, err_Header = Some h\<rparr>"

record wireOrder =
  wo_Status :: string
  wo_Expires :: "int option"
  wo_Identifiers :: "AuthzID list"
  wo_NotBefore :: "int option"
  wo_NotAfter :: "int option"
  wo_Error :: "AcmeError option"
  wo_Authorizations :: "string list"
  wo_Finalize :: string
  wo_Certificate :: string

definition order_of :: "(string \<Rightarrow> int option) \<Rightarrow> wireOrder \<Rightarrow> string \<Rightarrow> string \<Rightarrow> Order" where
  "order_of retry wo url retryHeader =
     \<lparr>ord_URL = url, ord_Status = wo_Status wo, ord_Expires = wo_Expires wo,
      ord_Identifiers = wo_Identifiers wo, ord_NotBefore = wo_NotBefore wo, ord_NotAfter = wo_NotAfter wo,
      ord_Error = wo_Error wo, ord_Authorizations = wo_Authorizations wo,
      ord_FinalizeURL = wo_Finalize wo, ord_CertificateURL = wo_Certificate wo,
      ord_RetryAfter = retry retryHeader\<rparr>"

section \<open>Backoff\<close>

text \<open>\<^verbatim>\<open>backoff\<close>, with the random number of milliseconds (\<open>None\<close> if there is no randomness).\<close>

definition backoff :: "int option \<Rightarrow> int \<Rightarrow> int \<Rightarrow> int" where
  "backoff jitter n0 mx =
     (let n = (if n0 < 0 then 0 else if n0 > 30 then 30 else n0);
          d = (case jitter of Some x \<Rightarrow> wrap 64 (x * 1000000) | None \<Rightarrow> 0);
          d2 = wrap 64 (d + wrap 64 (2 ^ nat n * 1000000000)) in
      if d2 > mx then mx else d2)"

lemma wrap64_nonneg: "0 \<le> x \<Longrightarrow> x < 2 ^ 63 \<Longrightarrow> wrap 64 x = x"
  by (rule wrap_id) simp_all

lemma backoff_exact:
  assumes "case jitter of Some x \<Rightarrow> 0 \<le> x \<and> x < 1000 | None \<Rightarrow> True"
  shows "backoff jitter n mx =
    min mx ((case jitter of Some x \<Rightarrow> x * 1000000 | None \<Rightarrow> 0) + 2 ^ nat (min 30 n) * 1000000000)"
proof -
  let ?n = "if n < 0 then 0 else if n > 30 then 30 else n"
  have n: "nat ?n = nat (min 30 n)" by (auto simp: min_def)
  have p: "(2::int) ^ nat ?n \<le> 2 ^ 30" by (rule power_increasing) auto
  then have w1: "wrap 64 (2 ^ nat ?n * 1000000000) = 2 ^ nat ?n * 1000000000"
    by (intro wrap64_nonneg) auto
  define d where "d = (case jitter of Some x \<Rightarrow> x * 1000000 | None \<Rightarrow> 0)"
  have d: "0 \<le> d" "d < 1000000000" using assms by (auto simp: d_def split: option.splits)
  have "wrap 64 (x * 1000000) = x * 1000000" if "jitter = Some x" for x
    using assms that by (intro wrap64_nonneg) auto
  then have wd: "(case jitter of Some x \<Rightarrow> wrap 64 (x * 1000000) | None \<Rightarrow> 0) = d"
    by (auto simp: d_def split: option.split)
  have w2: "wrap 64 (d + 2 ^ nat ?n * 1000000000) = d + 2 ^ nat ?n * 1000000000"
    using d p by (intro wrap64_nonneg) auto
  have "backoff jitter n mx = (if d + 2 ^ nat ?n * 1000000000 > mx then mx else d + 2 ^ nat ?n * 1000000000)"
    unfolding backoff_def Let_def wd w1 w2 ..
  then show ?thesis unfolding n d_def [symmetric] by (auto simp: min_def)
qed

text \<open>The waits between retries, for every count of retries and every random number: a first retry waits
  one to two seconds, no retry waits longer than the maximum or less than the smaller of the
  maximum and one second, retry \<open>n\<close> waits at least \<open>2 ^ n\<close> seconds or the maximum, and nothing
  overflows, however long the client has been retrying.
\<close>

theorem backoff_bounds:
  assumes "0 \<le> x" "x < 1000" "1000000000 \<le> mx"
  shows "1000000000 \<le> backoff (Some x) n mx \<and> backoff (Some x) n mx \<le> mx \<and>
    (n \<le> 0 \<longrightarrow> backoff (Some x) n mx < 2000000000) \<and>
    (0 \<le> n \<and> n \<le> 30 \<longrightarrow> min mx (2 ^ nat n * 1000000000) \<le> backoff (Some x) n mx)"
proof -
  have b: "backoff (Some x) n mx = min mx (x * 1000000 + 2 ^ nat (min 30 n) * 1000000000)"
    using backoff_exact [of "Some x" n mx] assms by simp
  have "(1::int) \<le> 2 ^ nat (min 30 n)" by simp
  with assms have "1000000000 \<le> x * 1000000 + 2 ^ nat (min 30 n) * 1000000000" by linarith
  with assms b show ?thesis by (auto simp: min_def)
qed

theorem backoff_bounds_witness:
  "1000000000 \<le> backoff (Some 999) 3 10000000000 \<and> backoff (Some 999) 3 10000000000 \<le> 10000000000"
  using backoff_bounds [of 999 10000000000 3] by simp

end
