(* ===== verification/Jws.thy ===== *)
theory Jws
  imports Acme_Types
begin

text \<open>
  Signing requests (\<^verbatim>\<open>pkg/acme/jws.go\<close>): the algorithm for a key, the JSON form of a public key, the
  signature and the thumbprint. The elliptic curve signature and the hash functions are arguments;
  the unpadded base64 of URLs, the bytes of big integers and the copies into fixed-width fields are
  modelled.
\<close>

unbundle bit_operations_syntax

section \<open>Encodings of the standard library\<close>

definition b64chars :: string where
  "b64chars = ''ABCDEFGHIJKLMNOPQRSTUVWXYZabcdefghijklmnopqrstuvwxyz0123456789-_''"

definition b64char :: "nat \<Rightarrow> char" where
  "b64char n = b64chars ! n"

text \<open>\<^verbatim>\<open>base64.RawURLEncoding\<close>.\<close>

fun base64url :: "u8 list \<Rightarrow> string" where
  "base64url [] = []"
| "base64url [a] = (let n = unat a * 16 in [b64char (n div 64), b64char (n mod 64)])"
| "base64url [a, b] =
     (let n = (unat a * 256 + unat b) * 4 in
      [b64char (n div 4096), b64char (n div 64 mod 64), b64char (n mod 64)])"
| "base64url (a # b # c # ds) =
     (let n = unat a * 65536 + unat b * 256 + unat c in
      [b64char (n div 262144), b64char (n div 4096 mod 64), b64char (n div 64 mod 64), b64char (n mod 64)]
      @ base64url ds)"

text \<open>\<^verbatim>\<open>big.Int.Bytes\<close>: big endian, with no leading zeros.\<close>

fun intBytes :: "nat \<Rightarrow> u8 list" where
  "intBytes n = (if n = 0 then [] else intBytes (n div 256) @ [of_nat (n mod 256)])"

declare intBytes.simps [simp del]

section \<open>Keys\<close>

record curve =
  curve_Name :: string
  curve_BitSize :: nat

datatype publicKey =
    RsaPublic nat nat
  | EcPublic curve nat nat
  | OtherPublic

datatype hash = SHA256 | SHA384 | SHA512

text \<open>\<^verbatim>\<open>jwsHasher\<close>, on the public part of the key; \<open>None\<close> is the empty name.\<close>

definition jwsHasher :: "publicKey \<Rightarrow> (string \<times> hash) option" where
  "jwsHasher key =
     (case key of
        RsaPublic _ _ \<Rightarrow> Some (''RS256'', SHA256)
      | EcPublic c _ _ \<Rightarrow>
          if curve_Name c = ''P-256'' then Some (''ES256'', SHA256)
          else if curve_Name c = ''P-384'' then Some (''ES384'', SHA384)
          else if curve_Name c = ''P-521'' then Some (''ES512'', SHA512)
          else None
      | OtherPublic \<Rightarrow> None)"

text \<open>The padding of a coordinate to \<open>n\<close> bytes.\<close>

definition padTo :: "nat \<Rightarrow> u8 list \<Rightarrow> u8 list" where
  "padTo n x = (if n > length x then replicate (n - length x) 0 @ x else x)"

definition quoted :: "string \<Rightarrow> string" where
  "quoted s = [CHR 0x22] @ s @ [CHR 0x22]"

definition jsonField :: "string \<Rightarrow> string \<Rightarrow> string" where
  "jsonField k v = quoted k @ '':'' @ quoted v"

definition jwkEncode :: "publicKey \<Rightarrow> acmeError + string" where
  "jwkEncode pub =
     (case pub of
        RsaPublic n e \<Rightarrow>
          Inr (''{'' @ jsonField ''e'' (base64url (intBytes e)) @ '','' @ jsonField ''kty'' ''RSA'' @ '','' @
               jsonField ''n'' (base64url (intBytes n)) @ ''}'')
      | EcPublic c x y \<Rightarrow>
          let n0 = curve_BitSize c div 8; n = (if curve_BitSize c mod 8 \<noteq> 0 then n0 + 1 else n0);
              xb = padTo n (intBytes x); yb = padTo n (intBytes y) in
          Inr (''{'' @ jsonField ''crv'' (curve_Name c) @ '','' @ jsonField ''kty'' ''EC'' @ '','' @
               jsonField ''x'' (base64url xb) @ '','' @ jsonField ''y'' (base64url yb) @ ''}'')
      | OtherPublic \<Rightarrow> Inl ErrUnsupportedKey)"

text \<open>\<^verbatim>\<open>copy(sig[i:], b)\<close> for \<^verbatim>\<open>i = end - len(b)\<close>, which panics if \<open>b\<close> is longer than \<open>end\<close>.\<close>

definition copyEndingAt :: "u8 list \<Rightarrow> nat \<Rightarrow> u8 list \<Rightarrow> panic + u8 list" where
  "copyEndingAt sig e b =
     (if length b \<le> e \<and> e \<le> length sig then Inr (take (e - length b) sig @ b @ drop e sig) else Inl SlicePanic)"

text \<open>
  \<^verbatim>\<open>jwsSign\<close>: an RSA key signs itself, an EC key gives two numbers, and the result has them side by
  side. The size is computed as the source does it.
\<close>

definition sigSize :: "nat \<Rightarrow> nat" where
  "sigSize bits = (let size = bits div 8 in if size mod 8 > 0 then size + 1 else size)"

definition jwsSign ::
  "(u8 list \<Rightarrow> acmeError + u8 list) \<Rightarrow> (u8 list \<Rightarrow> acmeError + nat \<times> nat) \<Rightarrow> publicKey \<Rightarrow> u8 list \<Rightarrow>
   panic + (acmeError + u8 list)" where
  "jwsSign rsaSign ecdsaSign key digest =
     (case key of
        RsaPublic _ _ \<Rightarrow> Inr (rsaSign digest)
      | EcPublic c _ _ \<Rightarrow>
          (case ecdsaSign digest of
             Inl e \<Rightarrow> Inr (Inl e)
           | Inr (r, s) \<Rightarrow>
               let size = sigSize (curve_BitSize c); sig = replicate (size * 2) 0 in
               (case copyEndingAt sig size (intBytes r) of
                  Inl p \<Rightarrow> Inl p
                | Inr sig1 \<Rightarrow>
                    (case copyEndingAt sig1 (size * 2) (intBytes s) of
                       Inl p \<Rightarrow> Inl p
                     | Inr sig2 \<Rightarrow> Inr (Inr sig2))))
      | OtherPublic \<Rightarrow> Inr (Inl ErrUnsupportedKey))"

definition JWKThumbprint :: "(string \<Rightarrow> u8 list) \<Rightarrow> publicKey \<Rightarrow> acmeError + string" where
  "JWKThumbprint sha256 pub =
     (case jwkEncode pub of Inl e \<Rightarrow> Inl e | Inr jwk \<Rightarrow> Inr (base64url (sha256 jwk)))"

definition keyAuth :: "(string \<Rightarrow> u8 list) \<Rightarrow> publicKey \<Rightarrow> string \<Rightarrow> acmeError + string" where
  "keyAuth sha256 pub token =
     (case JWKThumbprint sha256 pub of Inl e \<Rightarrow> Inl e | Inr th \<Rightarrow> Inr (token @ ''.'' @ th))"

definition DNS01Record :: "(string \<Rightarrow> u8 list) \<Rightarrow> publicKey \<Rightarrow> string \<Rightarrow> acmeError + string" where
  "DNS01Record sha256 pub token =
     (case keyAuth sha256 pub token of Inl e \<Rightarrow> Inl e | Inr ka \<Rightarrow> Inr (base64url (sha256 ka)))"

definition HTTP01ChallengeResponse :: "(string \<Rightarrow> u8 list) \<Rightarrow> publicKey \<Rightarrow> string \<Rightarrow> acmeError + string" where
  "HTTP01ChallengeResponse sha256 pub token = keyAuth sha256 pub token"

definition HTTP01ChallengePath :: "string \<Rightarrow> string" where
  "HTTP01ChallengePath token = ''/.well-known/acme-challenge/'' @ token"

section \<open>Numbers keep their value\<close>

definition beValue :: "u8 list \<Rightarrow> nat" where
  "beValue bs = foldl (\<lambda>a b. a * 256 + unat b) 0 bs"

lemma beValue_append1: "beValue (bs @ [b]) = beValue bs * 256 + unat b"
  by (simp add: beValue_def)

lemma beValue_intBytes: "beValue (intBytes n) = n"
proof (induction n rule: intBytes.induct)
  case (1 n)
  show ?case
  proof (cases "n = 0")
    case False
    then have "intBytes n = intBytes (n div 256) @ [of_nat (n mod 256)]" by (subst intBytes.simps) simp
    with 1 [OF False] show ?thesis
      by (simp add: beValue_append1 unat_of_nat take_bit_eq_mod)
  qed (simp add: intBytes.simps beValue_def)
qed

lemma intBytes_length: "n < 256 ^ k \<Longrightarrow> length (intBytes n) \<le> k"
proof (induction n arbitrary: k rule: intBytes.induct)
  case (1 n)
  show ?case
  proof (cases "n = 0")
    case False
    with "1.prems" obtain j where k: "k = Suc j" by (cases k) auto
    then have "n div 256 < 256 ^ j" using "1.prems" by (simp add: less_mult_imp_div_less mult.commute)
    with 1 False k show ?thesis by (subst intBytes.simps) simp
  qed (simp add: intBytes.simps)
qed

lemma beValue_zeros: "beValue (replicate k 0 @ bs) = beValue bs"
  by (induction k) (simp_all add: beValue_def)

text \<open>The curves that \<^verbatim>\<open>jwsHasher\<close> accepts, with their sizes.\<close>

definition standardCurve :: "curve \<Rightarrow> bool" where
  "standardCurve c \<longleftrightarrow>
     (curve_Name c = ''P-256'' \<and> curve_BitSize c = 256) \<or>
     (curve_Name c = ''P-384'' \<and> curve_BitSize c = 384) \<or>
     (curve_Name c = ''P-521'' \<and> curve_BitSize c = 521)"

definition curveBytes :: "curve \<Rightarrow> nat" where
  "curveBytes c = (curve_BitSize c + 7) div 8"

lemma sigSize_standard: "standardCurve c \<Longrightarrow> sigSize (curve_BitSize c) = curveBytes c"
  by (auto simp: standardCurve_def sigSize_def curveBytes_def)

lemma curve_range:
  fixes n :: nat
  assumes n: "n < 2 ^ curve_BitSize c"
  shows "n < 256 ^ curveBytes c"
proof -
  have "(2::nat) ^ curve_BitSize c \<le> 2 ^ (8 * curveBytes c)"
    by (rule power_increasing) (simp_all add: curveBytes_def)
  also have "\<dots> = 256 ^ curveBytes c" by (simp add: power_mult)
  finally show ?thesis using n by linarith
qed

text \<open>C21.
  Signatures of elliptic curve keys: for each curve the client supports and all numbers the curve
  can produce, however many leading zero bytes they have, signing does not panic and gives exactly twice
  the width of the curve, the first half with the value of r and the second half with that of s.
\<close>

theorem jwsSign_fixed_width:
  assumes "standardCurve c" "r < 2 ^ curve_BitSize c" "s < 2 ^ curve_BitSize c" "ecdsaSign digest = Inr (r, s)"
  shows "\<exists>sig. jwsSign rsaSign ecdsaSign (EcPublic c x y) digest = Inr (Inr sig) \<and>
    length sig = 2 * curveBytes c \<and> beValue (take (curveBytes c) sig) = r \<and> beValue (drop (curveBytes c) sig) = s"
proof -
  let ?n = "curveBytes c"
  have len: "length (intBytes r) \<le> ?n" "length (intBytes s) \<le> ?n"
    using assms(2,3) curve_range intBytes_length by blast+
  let ?rb = "replicate (?n - length (intBytes r)) 0 @ intBytes r"
  let ?sb = "replicate (?n - length (intBytes s)) 0 @ intBytes s"
  have 1: "copyEndingAt (replicate (?n * 2) 0) ?n (intBytes r) = Inr (?rb @ replicate ?n 0)"
    using len by (auto simp: copyEndingAt_def min_def)
  have 2: "copyEndingAt (?rb @ replicate ?n 0) (?n * 2) (intBytes s) = Inr (?rb @ ?sb)"
    using len by (auto simp: copyEndingAt_def min_def)
  have "jwsSign rsaSign ecdsaSign (EcPublic c x y) digest = Inr (Inr (?rb @ ?sb))"
    using assms(4) 1 2 by (simp add: jwsSign_def Let_def sigSize_standard [OF assms(1)])
  moreover have "length (?rb @ ?sb) = 2 * ?n" "take ?n (?rb @ ?sb) = ?rb" "drop ?n (?rb @ ?sb) = ?sb"
    using len by simp_all
  moreover have "beValue ?rb = r" "beValue ?sb = s" by (simp_all add: beValue_zeros beValue_intBytes)
  ultimately show ?thesis by metis
qed

theorem jwsSign_fixed_width_witness:
  "\<exists>sig. jwsSign (\<lambda>_. Inr []) (\<lambda>_. Inr (5, 7)) (EcPublic \<lparr>curve_Name = ''P-521'', curve_BitSize = 521\<rparr> 1 2) [] = Inr (Inr sig) \<and>
    length sig = 132"
  using jwsSign_fixed_width [of "\<lparr>curve_Name = ''P-521'', curve_BitSize = 521\<rparr>" 5 7 "\<lambda>_. Inr (5, 7)" "[]" "\<lambda>_. Inr []" 1 2]
  by (auto simp: standardCurve_def curveBytes_def)

text \<open>
  The size is right for these curves only because the test looks at the number of bytes: for another
  curve, such as one of 224 bits, it would be one byte too long. The client refuses such a key before.
\<close>

lemma sigSize_224: "sigSize 224 = 29"
  by (simp add: sigSize_def)

lemma unsupported_curve_refused: "jwsHasher (EcPublic \<lparr>curve_Name = ''P-224'', curve_BitSize = 224\<rparr> x y) = None"
  by (simp add: jwsHasher_def)

text \<open>The coordinates of public keys are padded to one length and keep their value.\<close>

lemma padTo_value: "beValue (padTo n (intBytes v)) = v"
  by (simp add: padTo_def beValue_zeros beValue_intBytes)

lemma padTo_length: "v < 256 ^ n \<Longrightarrow> length (padTo n (intBytes v)) = n"
  using intBytes_length [of v n] by (auto simp: padTo_def)

end
