(* ===== verification/Acme.thy ===== *)
theory Acme
  imports Jws
begin

text \<open>
  The ACME client (\<^verbatim>\<open>pkg/acme/acme.go\<close>): its pool of nonces, the signed requests with their retries,
  and the operations on accounts, orders, authorizations, challenges and certificates. The world of the
  client holds its cached directory, its account URL, its nonces and the network; the network, the
  clock, the context and the JSON decoders are the fields of an environment. The loops that may run
  as long as the server wants take fuel, and running out of it is \<open>NoReturn\<close>.
\<close>

section \<open>The environment\<close>

definition LetsEncryptURL :: string where
  "LetsEncryptURL = ''https://acme-v02.api.letsencrypt.org/directory''"

definition maxChainLen :: nat where "maxChainLen = 5"
definition maxChainSize :: nat where "maxChainSize = 2 ^ 20 * maxChainLen"
definition maxNonces :: nat where "maxNonces = 100"
definition userAgent :: string where "userAgent = ''go-acme/2''"

text \<open>What is signed: the bodies of the requests.\<close>

datatype payload =
    NoPayload
  | OrderRequest "AuthzID list" "int option" "int option"
  | FinalizeRequest "u8 list"
  | AccountRequest "string list" bool bool
  | RevokeRequest "u8 list" int
  | RawRequest string

text \<open>A signed request: the algorithm, the account (none means that the key itself is sent), the nonce, the URL.\<close>

record jws =
  jws_alg :: string
  jws_kid :: string
  jws_nonce :: string
  jws_url :: string
  jws_payload :: payload

record httpRequest =
  rq_Method :: string
  rq_URL :: string
  rq_UserAgent :: string
  rq_ContentType :: string
  rq_Body :: "jws option"

record 'b httpResponse =
  rs_StatusCode :: int
  rs_Status :: string
  rs_Header :: httpHeader
  rs_Body :: 'b

record wireAccount =
  wac_Status :: string
  wac_Contact :: "string list"
  wac_Orders :: string

record ('w, 'b) env =
  env_parseURL :: "string \<Rightarrow> bool"
  env_do :: "httpRequest \<Rightarrow> 'w \<Rightarrow> (string + 'b httpResponse) \<times> 'w"
  env_ctxDone :: "'w \<Rightarrow> bool"
  env_wait :: "int \<Rightarrow> 'w \<Rightarrow> bool \<times> 'w"
  env_now :: "'w \<Rightarrow> int"
  env_jitter :: "'w \<Rightarrow> int option \<times> 'w"
  env_pick :: "'w \<Rightarrow> nat"
  env_intWidth :: nat
  env_ParseTime :: "string \<Rightarrow> int option"
  env_resolve :: "string \<Rightarrow> string \<Rightarrow> string option"
  env_key :: publicKey
  env_DirectoryURL :: string
  env_UserAgent :: string
  dec_directory :: "'b \<Rightarrow> Directory option"
  dec_order :: "'b \<Rightarrow> wireOrder option"
  dec_authz :: "'b \<Rightarrow> wireAuthz option"
  dec_challenge :: "string \<Rightarrow> 'b \<Rightarrow> wireChallenge option"
  dec_account :: "'b \<Rightarrow> wireAccount option"
  dec_error :: "wireError \<Rightarrow> 'b \<Rightarrow> bool \<times> wireError"
  env_text :: "'b \<Rightarrow> string"
  env_bytes :: "'b \<Rightarrow> u8 list option"
  env_pem :: "u8 list \<Rightarrow> ((string \<times> u8 list) \<times> u8 list) option"

record 'w client =
  cl_dir :: "Directory option"
  cl_accountURL :: string
  cl_nonces :: "string list"
  cl_net :: 'w

text \<open>Programs that read or change the client, or use the network.\<close>

definition gets :: "('s \<Rightarrow> 'a) \<Rightarrow> ('s, 'e, 'a) eio" where
  "gets f s = (Inr (Inr (f s)), s)"

definition change :: "('s \<Rightarrow> 's) \<Rightarrow> ('s, 'e, unit) eio" where
  "change f s = (Inr (Inr ()), f s)"

definition onNet :: "('w \<Rightarrow> 'a \<times> 'w) \<Rightarrow> ('w client, 'e, 'a) eio" where
  "onNet f s = (case f (cl_net s) of (r, w) \<Rightarrow> (Inr (Inr r), s\<lparr>cl_net := w\<rparr>))"

text \<open>The cached directory; reading a field of it panics when there is none.\<close>

definition theDir :: "(Directory \<Rightarrow> 'a) \<Rightarrow> ('w client, 'e, 'a) eio" where
  "theDir f s = (case cl_dir s of None \<Rightarrow> (Inl SegFault, s) | Some d \<Rightarrow> (Inr (Inr (f d)), s))"

section \<open>Requests\<close>

text \<open>\<^verbatim>\<open>http.NewRequest\<close> fails exactly if the URL does not parse; the methods are fixed.\<close>

definition newRequest ::
  "('w, 'b) env \<Rightarrow> string \<Rightarrow> string \<Rightarrow> string \<Rightarrow> jws option \<Rightarrow> acmeError + httpRequest" where
  "newRequest env method url ctype body =
     (if \<not> env_parseURL env url then Inl (BadRequest url)
      else Inr \<lparr>rq_Method = method, rq_URL = url,
                rq_UserAgent = userAgent @ (if env_UserAgent env \<noteq> [] then '' '' @ env_UserAgent env else []),
                rq_ContentType = ctype, rq_Body = body\<rparr>)"

definition do_request :: "('w, 'b) env \<Rightarrow> httpRequest \<Rightarrow> ('w client, acmeError, 'b httpResponse) eio" where
  "do_request env rq =
     ebnd (onNet (env_do env rq)) (\<lambda>r.
     case r of
       Inl e \<Rightarrow> ebnd (gets (\<lambda>s. env_ctxDone env (cl_net s))) (\<lambda>done.
                 if done then fail ContextDone else fail (TransportError e))
     | Inr res \<Rightarrow> succeed res)"

definition acme_get :: "('w, 'b) env \<Rightarrow> string \<Rightarrow> ('w client, acmeError, 'b httpResponse) eio" where
  "acme_get env url = ebnd (pure_result (newRequest env ''GET'' url [] None)) (do_request env)"

definition acme_head :: "('w, 'b) env \<Rightarrow> string \<Rightarrow> ('w client, acmeError, 'b httpResponse) eio" where
  "acme_head env url = ebnd (pure_result (newRequest env ''HEAD'' url [] None)) (do_request env)"

definition acme_post :: "('w, 'b) env \<Rightarrow> string \<Rightarrow> string \<Rightarrow> jws \<Rightarrow> ('w client, acmeError, 'b httpResponse) eio" where
  "acme_post env url ctype body = ebnd (pure_result (newRequest env ''POST'' url ctype (Some body))) (do_request env)"

definition responseError :: "('w, 'b) env \<Rightarrow> 'b httpResponse \<Rightarrow> AcmeError" where
  "responseError env resp =
     (let e0 = \<lparr>we_Status = rs_StatusCode resp, we_Type = [], we_Detail = [], we_Subproblems = []\<rparr>;
          r = dec_error env e0 (rs_Body resp);
          txt = env_text env (rs_Body resp);
          e = (if fst r then snd r else (snd r)\<lparr>we_Detail := if txt = [] then rs_Status resp else txt\<rparr>) in
      error_of e (rs_Header resp))"

definition resolveLocation :: "('w, 'b) env \<Rightarrow> string \<Rightarrow> httpHeader \<Rightarrow> acmeError + string" where
  "resolveLocation env base h =
     (case env_resolve env base (Location h) of None \<Rightarrow> Inl (InvalidResponse ''Location'') | Some u \<Rightarrow> Inr u)"

section \<open>Nonces\<close>

definition nonceFromHeader :: "httpHeader \<Rightarrow> string" where
  "nonceFromHeader h = Replay_Nonce h"

definition addNonce :: "httpHeader \<Rightarrow> ('w client, acmeError, unit) eio" where
  "addNonce h =
     (let v = nonceFromHeader h in
      if v = [] then succeed ()
      else change (\<lambda>s. if length (cl_nonces s) \<ge> maxNonces then s
                       else s\<lparr>cl_nonces := List.insert v (cl_nonces s)\<rparr>))"

definition clearNonces :: "('w client, acmeError, unit) eio" where
  "clearNonces = change (\<lambda>s. s\<lparr>cl_nonces := []\<rparr>)"

definition fetchNonce :: "('w, 'b) env \<Rightarrow> ('w client, acmeError, string) eio" where
  "fetchNonce env =
     ebnd (theDir NewNonceURL) (\<lambda>url.
     ebnd (acme_head env url) (\<lambda>resp.
     let nonce = nonceFromHeader (rs_Header resp) in
     if nonce = []
     then (if rs_StatusCode resp > 299 then fail (ServerError (responseError env resp)) else fail NonceNotFound)
     else succeed nonce))"

text \<open>The nonce that Go's iteration over the map gives first is any of them.\<close>

definition popNonce :: "('w, 'b) env \<Rightarrow> ('w client, acmeError, string) eio" where
  "popNonce env s =
     (if cl_nonces s = [] then fetchNonce env s
      else let nonce = cl_nonces s ! (env_pick env (cl_net s) mod length (cl_nonces s)) in
           (Inr (Inr nonce), s\<lparr>cl_nonces := removeAll nonce (cl_nonces s)\<rparr>))"

section \<open>Signed requests\<close>

definition jwsEncodeJSON :: "payload \<Rightarrow> publicKey \<Rightarrow> string \<Rightarrow> string \<Rightarrow> string \<Rightarrow> acmeError + jws" where
  "jwsEncodeJSON claimset key accountURL url nonce =
     (case jwsHasher key of
        None \<Rightarrow> Inl ErrUnsupportedKey
      | Some (alg, _) \<Rightarrow>
          Inr \<lparr>jws_alg = alg, jws_kid = accountURL, jws_nonce = nonce, jws_url = url, jws_payload = claimset\<rparr>)"

definition postJWS ::
  "('w, 'b) env \<Rightarrow> publicKey \<Rightarrow> string \<Rightarrow> string \<Rightarrow> payload \<Rightarrow> ('w client, acmeError, 'b httpResponse) eio" where
  "postJWS env key accountURL url body =
     ebnd (popNonce env) (\<lambda>nonce.
     ebnd (pure_result (jwsEncodeJSON body key accountURL url nonce)) (\<lambda>b.
     ebnd (acme_post env url ''application/jose+json'' b) (\<lambda>res.
     ethn (addNonce (rs_Header res)) (succeed res))))"

text \<open>\<^verbatim>\<open>timeSleeper\<close>: one call of the function it returns, with the count of the calls before.\<close>

definition timeSleep :: "('w, 'b) env \<Rightarrow> nat \<Rightarrow> int option \<Rightarrow> ('w client, acmeError, unit) eio" where
  "timeSleep env count t =
     ebnd (onNet (env_jitter env)) (\<lambda>j.
     ebnd (gets (\<lambda>s. env_now env (cl_net s))) (\<lambda>now.
     let d = (case t of Some t \<Rightarrow> t - now | None \<Rightarrow> backoff j (int count) 10000000000) in
     ebnd (onNet (env_wait env d)) (\<lambda>ok. if ok then succeed () else fail ContextDone)))"

definition sleepRetry :: "('w, 'b) env \<Rightarrow> nat \<Rightarrow> string \<Rightarrow> ('w client, acmeError, unit) eio" where
  "sleepRetry env count ra =
     ebnd (gets (\<lambda>s. retryAfter (env_intWidth env) (env_ParseTime env) (env_now env (cl_net s)) ra)) (timeSleep env count)"

definition badNonce :: string where
  "badNonce = ''urn:ietf:params:acme:error:badNonce''"

fun retryPostJWS ::
  "('w, 'b) env \<Rightarrow> nat \<Rightarrow> nat \<Rightarrow> publicKey \<Rightarrow> string \<Rightarrow> string \<Rightarrow> payload \<Rightarrow> ('w client, acmeError, 'b httpResponse) eio" where
  "retryPostJWS env 0 count key accountURL url body = raise NoReturn"
| "retryPostJWS env (Suc fuel) count key accountURL url body =
     ebnd (postJWS env key accountURL url body) (\<lambda>res.
     if 400 \<le> rs_StatusCode res \<and> rs_StatusCode res \<le> 599
     then let ae = responseError env res in
          if err_Type ae = badNonce
          then ethn clearNonces
                (ethn (sleepRetry env count (Retry_After (rs_Header res)))
                  (retryPostJWS env fuel (count + 1) key accountURL url body))
          else fail (ServerError ae)
     else succeed res)"

definition postWithJWSKey ::
  "('w, 'b) env \<Rightarrow> nat \<Rightarrow> publicKey \<Rightarrow> string \<Rightarrow> payload \<Rightarrow> ('w client, acmeError, 'b httpResponse) eio" where
  "postWithJWSKey env fuel key url body = retryPostJWS env fuel 0 key [] url body"

definition cacheAccountURL :: "('w, 'b) env \<Rightarrow> nat \<Rightarrow> ('w client, acmeError, string) eio" where
  "cacheAccountURL env fuel =
     ebnd (gets cl_accountURL) (\<lambda>a.
     if a \<noteq> [] then succeed a
     else
       ebnd (theDir NewAccountURL) (\<lambda>url.
       ebnd (postWithJWSKey env fuel (env_key env) url (RawRequest (''{'' @ quoted ''onlyReturnExisting'' @ '':true}''))) (\<lambda>res.
       if rs_StatusCode res \<noteq> 200 then fail (ServerError (responseError env res))
       else
         ebnd (theDir NewAccountURL) (\<lambda>url.
         ebnd (pure_result (resolveLocation env url (rs_Header res))) (\<lambda>l.
         ethn (change (\<lambda>s. s\<lparr>cl_accountURL := l\<rparr>)) (succeed l))))))"

definition postWithJWSAccount ::
  "('w, 'b) env \<Rightarrow> nat \<Rightarrow> string \<Rightarrow> payload \<Rightarrow> ('w client, acmeError, 'b httpResponse) eio" where
  "postWithJWSAccount env fuel url body =
     ebnd (cacheAccountURL env fuel) (\<lambda>accountURL. retryPostJWS env fuel 0 (env_key env) accountURL url body)"

section \<open>Discovery and accounts\<close>

definition Discover :: "('w, 'b) env \<Rightarrow> ('w client, acmeError, Directory) eio" where
  "Discover env =
     ebnd (gets cl_dir) (\<lambda>d.
     case d of
       Some d \<Rightarrow> succeed d
     | None \<Rightarrow>
         let dirURL = (if env_DirectoryURL env = [] then LetsEncryptURL else env_DirectoryURL env) in
         ebnd (acme_get env dirURL) (\<lambda>res.
         ethn (addNonce (rs_Header res))
         (if rs_StatusCode res \<noteq> 200 then fail (ServerError (responseError env res))
          else case dec_directory env (rs_Body res) of
                 None \<Rightarrow> fail (InvalidResponse ''directory'')
               | Some v \<Rightarrow> ethn (change (\<lambda>s. s\<lparr>cl_dir := Some v\<rparr>)) (succeed v))))"

text \<open>\<^verbatim>\<open>doAccount\<close> calls itself once, with the location it was told, to read an existing account.\<close>

definition doAccountOnce ::
  "('w, 'b) env \<Rightarrow> nat \<Rightarrow> string \<Rightarrow> bool \<Rightarrow> Account option \<Rightarrow> ('w client, acmeError, 'b httpResponse) eio" where
  "doAccountOnce env fuel url getExisting acct =
     ebnd (theDir NewAccountURL) (\<lambda>new.
     let accountURL = (if url \<noteq> new then url else []) in
     ebnd (retryPostJWS env fuel 0 (env_key env) accountURL url
            (case acct of Some a \<Rightarrow> AccountRequest (Contact a) (TermsAgreed a) getExisting
                        | None \<Rightarrow> AccountRequest [] False getExisting)) (\<lambda>res.
     if rs_StatusCode res < 200 \<or> rs_StatusCode res > 299 then fail (ServerError (responseError env res))
     else succeed res))"

definition doAccountResult ::
  "('w, 'b) env \<Rightarrow> string \<Rightarrow> 'b httpResponse \<Rightarrow> ('w client, acmeError, Account) eio" where
  "doAccountResult env url res =
     (case dec_account env (rs_Body res) of
        None \<Rightarrow> fail (InvalidResponse ''account'')
      | Some v \<Rightarrow>
          ebnd (pure_result (resolveLocation env url (rs_Header res))) (\<lambda>l.
          let a = \<lparr>AccountURL = (if l = [] then url else l), ac_Status = wac_Status v, Contact = wac_Contact v,
                   TermsAgreed = False, OrdersURL = wac_Orders v\<rparr> in
          ethn (change (\<lambda>s. s\<lparr>cl_accountURL := AccountURL a\<rparr>)) (succeed a)))"

definition doAccount ::
  "('w, 'b) env \<Rightarrow> nat \<Rightarrow> string \<Rightarrow> bool \<Rightarrow> Account option \<Rightarrow> ('w client, acmeError, Account) eio" where
  "doAccount env fuel url getExisting acct =
     ebnd (doAccountOnce env fuel url getExisting acct) (\<lambda>res.
     if getExisting
     then ebnd (pure_result (resolveLocation env url (rs_Header res))) (\<lambda>l.
          ebnd (doAccountOnce env fuel l False None) (doAccountResult env l))
     else doAccountResult env url res)"

definition CreateAccount :: "('w, 'b) env \<Rightarrow> nat \<Rightarrow> Account \<Rightarrow> ('w client, acmeError, Account) eio" where
  "CreateAccount env fuel a =
     ethn (Discover env) (ebnd (theDir NewAccountURL) (\<lambda>url. doAccount env fuel url False (Some a)))"

definition GetAccount :: "('w, 'b) env \<Rightarrow> nat \<Rightarrow> ('w client, acmeError, Account) eio" where
  "GetAccount env fuel =
     ethn (Discover env) (ebnd (theDir NewAccountURL) (\<lambda>url. doAccount env fuel url True None))"

definition UpdateAccount :: "('w, 'b) env \<Rightarrow> nat \<Rightarrow> Account \<Rightarrow> ('w client, acmeError, Account) eio" where
  "UpdateAccount env fuel a = doAccount env fuel (AccountURL a) False (Some a)"

section \<open>Orders\<close>

definition orderOf :: "('w, 'b) env \<Rightarrow> wireOrder \<Rightarrow> string \<Rightarrow> string \<Rightarrow> ('w client, acmeError, Order) eio" where
  "orderOf env v url ra =
     gets (\<lambda>s. order_of (retryAfter (env_intWidth env) (env_ParseTime env) (env_now env (cl_net s))) v url ra)"

definition CreateOrder :: "('w, 'b) env \<Rightarrow> nat \<Rightarrow> Order \<Rightarrow> ('w client, acmeError, Order) eio" where
  "CreateOrder env fuel order =
     ethn (Discover env)
    (ebnd (theDir NewOrderURL) (\<lambda>url.
     ebnd (postWithJWSAccount env fuel url
            (OrderRequest (ord_Identifiers order) (ord_NotBefore order) (ord_NotAfter order))) (\<lambda>res.
     if rs_StatusCode res \<noteq> 201 then fail (ServerError (responseError env res))
     else case dec_order env (rs_Body res) of
            None \<Rightarrow> fail (InvalidResponse ''order'')
          | Some v \<Rightarrow>
              ebnd (theDir NewOrderURL) (\<lambda>url.
              ebnd (pure_result (resolveLocation env url (rs_Header res))) (\<lambda>l.
              ebnd (orderOf env v l []) (\<lambda>ord.
              if ord_Status ord = StatusInvalid then fail (OrderInvalidError ord) else succeed ord))))))"

definition GetOrder :: "('w, 'b) env \<Rightarrow> nat \<Rightarrow> string \<Rightarrow> ('w client, acmeError, Order) eio" where
  "GetOrder env fuel url =
     ebnd (postWithJWSAccount env fuel url NoPayload) (\<lambda>res.
     if rs_StatusCode res \<noteq> 200 then fail (ServerError (responseError env res))
     else case dec_order env (rs_Body res) of
            None \<Rightarrow> fail (InvalidResponse ''order'')
          | Some v \<Rightarrow> orderOf env v url (Retry_After (rs_Header res)))"

text \<open>A retriable error of the server.\<close>

definition retriable :: "acmeError \<Rightarrow> AcmeError option" where
  "retriable e =
     (case e of
        ServerError ae \<Rightarrow> if 500 \<le> err_StatusCode ae \<and> err_StatusCode ae \<le> 599 then Some ae else None
      | _ \<Rightarrow> None)"

fun WaitOrder :: "('w, 'b) env \<Rightarrow> nat \<Rightarrow> nat \<Rightarrow> string \<Rightarrow> ('w client, acmeError, Order) eio" where
  "WaitOrder env 0 count url = raise NoReturn"
| "WaitOrder env (Suc fuel) count url =
     bnd (GetOrder env fuel url) (\<lambda>r.
     case r of
       Inl e \<Rightarrow>
         (case retriable e of
            Some ae \<Rightarrow>
              ethn (sleepRetry env count (case err_Header ae of Some h \<Rightarrow> Retry_After h | None \<Rightarrow> []))
                (WaitOrder env fuel (count + 1) url)
          | None \<Rightarrow> fail e)
     | Inr ord \<Rightarrow>
         if ord_Status ord = StatusValid then succeed ord
         else if ord_Status ord = StatusInvalid then fail (OrderInvalidError ord)
         else if ord_Status ord = StatusPending then fail (OrderPendingError ord)
         else if ord_Status ord = StatusProcessing
         then ethn (timeSleep env count (ord_RetryAfter ord)) (WaitOrder env fuel (count + 1) url)
         else fail (UnexpectedStatus (ord_Status ord)))"

section \<open>Certificates\<close>

text \<open>The loop over the PEM blocks of a response.\<close>

function chainLoop ::
  "(u8 list \<Rightarrow> ((string \<times> u8 list) \<times> u8 list) option) \<Rightarrow> u8 list \<Rightarrow> u8 list list \<Rightarrow> acmeError + u8 list list" where
  "chainLoop decode data chain =
     (case decode data of
        None \<Rightarrow> if length chain = 0 then Inl InvalidChain else Inr chain
      | Some ((typ, bytes), rest) \<Rightarrow>
          if length chain \<ge> maxChainLen then Inl ChainTooLong
          else if typ \<noteq> ''CERTIFICATE'' then Inl (InvalidBlock typ)
          else chainLoop decode rest (chain @ [bytes]))"
  by pat_completeness auto
termination
  by (relation "measure (\<lambda>(decode, data, chain). maxChainLen - length chain)") auto

declare chainLoop.simps [simp del]

definition GetCertificate :: "('w, 'b) env \<Rightarrow> nat \<Rightarrow> string \<Rightarrow> ('w client, acmeError, u8 list list) eio" where
  "GetCertificate env fuel url =
     ebnd (postWithJWSAccount env fuel url NoPayload) (\<lambda>res.
     case env_bytes env (rs_Body res) of
       None \<Rightarrow> fail (InvalidResponse ''certificate'')
     | Some data \<Rightarrow>
         if length data > maxChainSize then fail ChainTooBig
         else pure_result (chainLoop (env_pem env) data []))"

definition FinalizeOrder ::
  "('w, 'b) env \<Rightarrow> nat \<Rightarrow> string \<Rightarrow> u8 list \<Rightarrow> ('w client, acmeError, u8 list list) eio" where
  "FinalizeOrder env fuel finalizeURL csr =
     ethn (Discover env)
    (ebnd (postWithJWSAccount env fuel finalizeURL (FinalizeRequest csr)) (\<lambda>res.
     if rs_StatusCode res \<noteq> 200 then fail (ServerError (responseError env res))
     else case dec_order env (rs_Body res) of
            None \<Rightarrow> fail (InvalidResponse ''order'')
          | Some v \<Rightarrow>
              ebnd (pure_result (resolveLocation env finalizeURL (rs_Header res))) (\<lambda>l.
              ebnd (orderOf env v l (Retry_After (rs_Header res))) (\<lambda>o1.
              ebnd (if ord_Status o1 = StatusProcessing \<or> ord_Status o1 = StatusPending
                    then WaitOrder env fuel 0 (ord_URL o1) else succeed o1) (\<lambda>o2.
              if ord_Status o2 \<noteq> StatusValid then fail (UnexpectedStatus (ord_Status o2))
              else GetCertificate env fuel (ord_CertificateURL o2))))))"

definition RevokeCert ::
  "('w, 'b) env \<Rightarrow> nat \<Rightarrow> publicKey option \<Rightarrow> u8 list \<Rightarrow> int \<Rightarrow> ('w client, acmeError, unit) eio" where
  "RevokeCert env fuel key cert reason =
     ethn (Discover env)
    (ebnd (theDir RevokeCertURL) (\<lambda>url.
     ebnd (case key of
             None \<Rightarrow> postWithJWSAccount env fuel url (RevokeRequest cert reason)
           | Some k \<Rightarrow> postWithJWSKey env fuel k url (RevokeRequest cert reason)) (\<lambda>res.
     if rs_StatusCode res \<noteq> 200 then fail (ServerError (responseError env res)) else succeed ())))"

section \<open>Authorizations and challenges\<close>

definition GetAuthorization :: "('w, 'b) env \<Rightarrow> nat \<Rightarrow> string \<Rightarrow> ('w client, acmeError, Authorization) eio" where
  "GetAuthorization env fuel url =
     ebnd (postWithJWSAccount env fuel url NoPayload) (\<lambda>res.
     if rs_StatusCode res \<noteq> 200 then fail (ServerError (responseError env res))
     else case dec_authz env (rs_Body res) of
            None \<Rightarrow> fail (InvalidResponse ''authorization'')
          | Some v \<Rightarrow> succeed (authorization_of v url))"

definition DeactivateAuthorization :: "('w, 'b) env \<Rightarrow> nat \<Rightarrow> string \<Rightarrow> ('w client, acmeError, unit) eio" where
  "DeactivateAuthorization env fuel url =
     ebnd (postWithJWSAccount env fuel url (RawRequest (''{'' @ jsonField ''status'' ''deactivated'' @ ''}''))) (\<lambda>res.
     if rs_StatusCode res \<noteq> 200 then fail (ServerError (responseError env res)) else succeed ())"

fun WaitAuthorization :: "('w, 'b) env \<Rightarrow> nat \<Rightarrow> nat \<Rightarrow> string \<Rightarrow> ('w client, acmeError, Authorization) eio" where
  "WaitAuthorization env 0 count url = raise NoReturn"
| "WaitAuthorization env (Suc fuel) count url =
     ebnd (postWithJWSAccount env fuel url NoPayload) (\<lambda>res.
     if 400 \<le> rs_StatusCode res \<and> rs_StatusCode res \<le> 499 then fail (ServerError (responseError env res))
     else
       let retry = Retry_After (rs_Header res) in
       if rs_StatusCode res \<noteq> 200 \<and> rs_StatusCode res \<noteq> 202
       then ethn (sleepRetry env count retry) (WaitAuthorization env fuel (count + 1) url)
       else case dec_authz env (rs_Body res) of
              None \<Rightarrow> fail (InvalidResponse ''authorization'')
            | Some raw \<Rightarrow>
                if wa_Status raw = StatusValid then succeed (authorization_of raw url)
                else if wa_Status raw = StatusInvalid \<or> wa_Status raw = StatusDeactivated \<or> wa_Status raw = StatusRevoked
                then fail (AuthorizationError (authorization_of raw url))
                else if wa_Status raw = StatusPending \<or> wa_Status raw = StatusProcessing
                then ethn (sleepRetry env count retry) (WaitAuthorization env fuel (count + 1) url)
                else fail (UnexpectedStatus (wa_Status raw)))"

definition GetChallenge :: "('w, 'b) env \<Rightarrow> nat \<Rightarrow> string \<Rightarrow> ('w client, acmeError, Challenge) eio" where
  "GetChallenge env fuel url =
     ebnd (postWithJWSAccount env fuel url NoPayload) (\<lambda>res.
     if rs_StatusCode res \<noteq> 200 then fail (ServerError (responseError env res))
     else case dec_challenge env url (rs_Body res) of
            None \<Rightarrow> fail (InvalidResponse ''challenge'')
          | Some v \<Rightarrow> succeed (challenge_of v))"

definition AcceptChallenge :: "('w, 'b) env \<Rightarrow> nat \<Rightarrow> Challenge \<Rightarrow> ('w client, acmeError, Challenge) eio" where
  "AcceptChallenge env fuel chal =
     ethn (Discover env)
    (ebnd (postWithJWSAccount env fuel (ch_URL chal) (RawRequest ''{}'')) (\<lambda>res.
     if rs_StatusCode res \<noteq> 200 then fail (ServerError (responseError env res))
     else case dec_challenge env [] (rs_Body res) of
            None \<Rightarrow> fail (InvalidResponse ''challenge'')
          | Some v \<Rightarrow> succeed (challenge_of v)))"

section \<open>The pool of nonces and the directory\<close>

text \<open>
  The invariant of a client: the stored nonces are different, none is empty, and there are not
  too many. With \<open>D\<close> the client also has a directory, and then nothing dereferences a missing one.
\<close>

definition cl_inv :: "bool \<Rightarrow> 'w client \<Rightarrow> bool" where
  "cl_inv D s \<longleftrightarrow> distinct (cl_nonces s) \<and> [] \<notin> set (cl_nonces s) \<and> length (cl_nonces s) \<le> maxNonces \<and>
     (D \<longrightarrow> cl_dir s \<noteq> None)"

definition panics :: "bool \<Rightarrow> panic \<Rightarrow> bool" where
  "panics D p \<longleftrightarrow> p = NoReturn \<or> \<not> D \<and> p = SegFault"

abbreviation client_safe :: "bool \<Rightarrow> ('w client, 'a) io \<Rightarrow> bool" where
  "client_safe D m \<equiv> safe (cl_inv D) (panics D) m"

lemma safe_gets [safe_rules]: "safe I P (gets f)"
  by (simp add: safe_def gets_def)

lemma safe_change [safe_rules]: "(\<And>s. I s \<Longrightarrow> I (f s)) \<Longrightarrow> safe I P (change f)"
  by (simp add: safe_def change_def)

lemma safe_onNet [safe_rules]: "safe (cl_inv D) P (onNet f)"
  by (auto simp: safe_def onNet_def cl_inv_def split: prod.split)

lemma safe_theDir [safe_rules]: "client_safe D (theDir f)"
  by (auto simp: safe_def theDir_def cl_inv_def panics_def split: option.split)

lemma safe_Let [safe_rules]: "safe I P (f x) \<Longrightarrow> safe I P (let y = x in f y)"
  by simp

lemma safe_do_request [safe_rules]: "safe (cl_inv D) P (do_request env rq)"
  unfolding do_request_def by (intro safe_rules)

lemma safe_addNonce [safe_rules]: "safe (cl_inv D) P (addNonce h)"
  unfolding addNonce_def
  by (intro safe_rules) (auto simp: cl_inv_def Let_def List.insert_def)

lemma safe_clearNonces [safe_rules]: "client_safe D clearNonces"
  unfolding clearNonces_def by (intro safe_rules) (simp add: cl_inv_def)

lemma safe_fetchNonce [safe_rules]: "client_safe D (fetchNonce env)"
  unfolding fetchNonce_def acme_head_def by (intro safe_rules)

lemma safe_popNonce [safe_rules]: "client_safe D (popNonce env)"
proof (rule safeI)
  fix s r t assume s: "cl_inv D s" "popNonce env s = (r, t)"
  show "cl_inv D t \<and> (\<forall>p. r = Inl p \<longrightarrow> panics D p)"
  proof (cases "cl_nonces s = []")
    case True
    with s safeD [OF safe_fetchNonce] show ?thesis by (simp add: popNonce_def)
  next
    case False
    with s show ?thesis
      by (auto simp: popNonce_def Let_def cl_inv_def distinct_removeAll
          intro: order_trans [OF length_removeAll_less_eq])
  qed
qed

lemma safe_postJWS [safe_rules]: "client_safe D (postJWS env key accountURL url body)"
  unfolding postJWS_def acme_post_def by (intro safe_rules)

lemma safe_timeSleep [safe_rules]: "client_safe D (timeSleep env count t)"
  unfolding timeSleep_def by (intro safe_rules)

lemma safe_sleepRetry [safe_rules]: "client_safe D (sleepRetry env count ra)"
  unfolding sleepRetry_def by (intro safe_rules)

lemma safe_NoReturn [safe_rules]: "client_safe D (raise NoReturn)"
  by (rule safe_raise) (simp add: panics_def)

lemma safe_retryPostJWS [safe_rules]: "client_safe D (retryPostJWS env fuel count key accountURL url body)"
proof (induction fuel arbitrary: count)
  case (Suc fuel)
  show ?case unfolding retryPostJWS.simps Let_def by (intro safe_rules Suc)
qed (simp add: safe_NoReturn)

lemma safe_account_change [safe_rules]: "client_safe D (change (\<lambda>s. s\<lparr>cl_accountURL := l\<rparr>))"
  by (rule safe_change) (simp add: cl_inv_def)

lemma safe_cacheAccountURL [safe_rules]: "client_safe D (cacheAccountURL env fuel)"
  unfolding cacheAccountURL_def postWithJWSKey_def by (intro safe_rules)

lemma safe_postWithJWSAccount [safe_rules]: "client_safe D (postWithJWSAccount env fuel url body)"
  unfolding postWithJWSAccount_def by (intro safe_rules)

lemma safe_Discover [safe_rules]: "safe (cl_inv D) P (Discover env)"
  unfolding Discover_def acme_get_def Let_def by (intro safe_rules) (simp add: cl_inv_def)

lemma safe_doAccount [safe_rules]: "client_safe D (doAccount env fuel url getExisting acct)"
  unfolding doAccount_def doAccountOnce_def doAccountResult_def Let_def by (intro safe_rules)

lemma safe_orderOf [safe_rules]: "client_safe D (orderOf env v url ra)"
  unfolding orderOf_def by (intro safe_rules)

lemma safe_GetOrder [safe_rules]: "client_safe D (GetOrder env fuel url)"
  unfolding GetOrder_def by (intro safe_rules)

lemma safe_WaitOrder [safe_rules]: "client_safe D (WaitOrder env fuel count url)"
proof (induction fuel arbitrary: count)
  case (Suc fuel)
  show ?case unfolding WaitOrder.simps Let_def by (intro safe_rules Suc)
qed (simp add: safe_NoReturn)

lemma safe_WaitAuthorization [safe_rules]: "client_safe D (WaitAuthorization env fuel count url)"
proof (induction fuel arbitrary: count)
  case (Suc fuel)
  show ?case unfolding WaitAuthorization.simps Let_def by (intro safe_rules Suc)
qed (simp add: safe_NoReturn)

lemma safe_GetCertificate [safe_rules]: "client_safe D (GetCertificate env fuel url)"
  unfolding GetCertificate_def by (intro safe_rules)

lemmas client_ops = CreateAccount_def GetAccount_def UpdateAccount_def CreateOrder_def FinalizeOrder_def
  RevokeCert_def GetAuthorization_def DeactivateAuthorization_def GetChallenge_def AcceptChallenge_def
  postWithJWSKey_def

lemma safe_client_ops [safe_rules]:
  "client_safe D (CreateAccount env fuel a)" "client_safe D (GetAccount env fuel)"
  "client_safe D (UpdateAccount env fuel a)" "client_safe D (CreateOrder env fuel ord)"
  "client_safe D (FinalizeOrder env fuel url csr)" "client_safe D (RevokeCert env fuel key cert reason)"
  "client_safe D (GetAuthorization env fuel url)" "client_safe D (DeactivateAuthorization env fuel url)"
  "client_safe D (GetChallenge env fuel url)" "client_safe D (AcceptChallenge env fuel chal)"
  unfolding client_ops by (intro safe_rules; fail)+

text \<open>C7.
  Every operation of the ACME client, with every server, keeps the pool of nonces in order: the nonces
  are different and not empty, and there are at most a hundred of them, also when requests fail,
  are retried or the client panics. Once the client has its directory, it keeps it, and no operation
  panics any more (an operation may still wait as long as the server makes it wait).
\<close>

theorem acme_client_invariant:
  "client_safe D (Discover env) \<and> client_safe D (CreateAccount env fuel a) \<and> client_safe D (GetAccount env fuel) \<and>
   client_safe D (UpdateAccount env fuel a) \<and> client_safe D (CreateOrder env fuel ord) \<and>
   client_safe D (GetOrder env fuel url) \<and> client_safe D (WaitOrder env fuel 0 url) \<and>
   client_safe D (FinalizeOrder env fuel url csr) \<and> client_safe D (GetCertificate env fuel url) \<and>
   client_safe D (RevokeCert env fuel key cert reason) \<and> client_safe D (GetAuthorization env fuel url) \<and>
   client_safe D (DeactivateAuthorization env fuel url) \<and> client_safe D (WaitAuthorization env fuel 0 url) \<and>
   client_safe D (GetChallenge env fuel url) \<and> client_safe D (AcceptChallenge env fuel chal)"
  by (intro conjI safe_rules)

text \<open>A nonce is taken out of the pool when it is used.\<close>

lemma popNonce_takes:
  assumes "cl_nonces s \<noteq> []" "popNonce env s = (Inr (Inr n), t)"
  shows "n \<in> set (cl_nonces s) \<and> set (cl_nonces t) = set (cl_nonces s) - {n}"
  using assms by (auto simp: popNonce_def Let_def)

text \<open>Operations that do not discover the directory panic on a client that has none and no account.\<close>

lemma fresh_client_panics:
  assumes "cl_dir s = None" "cl_accountURL s = []"
  shows "GetOrder env fuel url s = (Inl SegFault, s)" "GetAuthorization env fuel url s = (Inl SegFault, s)"
    "UpdateAccount env fuel a s = (Inl SegFault, s)"
  using assms
  by (simp_all add: GetOrder_def GetAuthorization_def UpdateAccount_def doAccount_def doAccountOnce_def
      postWithJWSAccount_def cacheAccountURL_def gets_def theDir_def ebnd_def bnd_def)

lemma Discover_dir:
  assumes "cl_inv False s" "Discover env s = (Inr (Inr d), t)"
  shows "cl_inv True t"
proof -
  have "cl_inv False t" using safeD [OF safe_Discover assms] by blast
  moreover have "cl_dir t \<noteq> None"
  proof (cases "cl_dir s")
    case None
    with assms(2) show ?thesis
      by (auto simp: Discover_def gets_def ebnd_success ethn_def Let_def change_def succeed_run fail_run
          split: if_splits option.splits)
  next
    case (Some e)
    with assms(2) show ?thesis by (auto simp: Discover_def gets_def ebnd_success succeed_run)
  qed
  ultimately show ?thesis by (simp add: cl_inv_def)
qed

lemma CreateAccount_dir:
  assumes "cl_inv False s" "CreateAccount env fuel a s = (r, t)"
  shows "(\<forall>p. r = Inl p \<longrightarrow> p = NoReturn) \<and> (\<forall>x. r = Inr (Inr x) \<longrightarrow> cl_inv True t) \<and> cl_inv False t"
proof -
  let ?rest = "ebnd (theDir NewAccountURL) (\<lambda>url. doAccount env fuel url False (Some a))"
  obtain r1 u where d: "Discover env s = (r1, u)" by fastforce
  note du = safeD [OF safe_Discover [of False "\<lambda>_. False" env] assms(1) d]
  show ?thesis
  proof (cases "\<exists>x. r1 = Inr (Inr x)")
    case True
    then obtain x where x: "r1 = Inr (Inr x)" by blast
    with d Discover_dir [OF assms(1)] have u: "cl_inv True u" by blast
    have run: "?rest u = (r, t)" using assms(2) d x by (simp add: CreateAccount_def ethn_def ebnd_run)
    have "client_safe True ?rest" by (intro safe_rules)
    from safeD [OF this u run] show ?thesis by (auto simp: panics_def cl_inv_def)
  next
    case False
    with du obtain e where "r1 = Inr (Inl e)" by (cases r1) (auto, metis sum.exhaust)
    with assms(2) d du show ?thesis by (auto simp: CreateAccount_def ethn_def ebnd_run)
  qed
qed

section \<open>What the waits return\<close>

lemma WaitOrder_result: "yields (\<lambda>ord. ord_Status ord = StatusValid) (WaitOrder env fuel count url)"
proof (induction fuel arbitrary: count)
  case (Suc fuel)
  show ?case unfolding WaitOrder.simps by (intro yields_rules Suc)
qed (simp add: yields_raise)

lemma WaitAuthorization_result:
  "yields (\<lambda>a. auth_Status a = StatusValid \<and> auth_URL a = url) (WaitAuthorization env fuel count url)"
proof (induction fuel arbitrary: count)
  case (Suc fuel)
  show ?case unfolding WaitAuthorization.simps Let_def
    by (intro yields_rules Suc) (simp_all add: authorization_of_def)
qed (simp add: yields_raise)

text \<open>
  A response that the signed requests pass on is never an error response: so the test for 4xx in
  \<^verbatim>\<open>WaitAuthorization\<close> is never true, and a 5xx answer ends the wait at once instead of being
  retried.
\<close>

lemma retryPostJWS_status:
  "retryPostJWS env fuel count key accountURL url body s = (Inr (Inr res), t) \<Longrightarrow>
   \<not> (400 \<le> rs_StatusCode res \<and> rs_StatusCode res \<le> 599)"
proof (induction fuel arbitrary: count s)
  case (Suc fuel)
  from Suc.prems show ?case
    by (auto simp: ebnd_success Let_def succeed_run fail_run ethn_def split: if_splits dest!: Suc.IH)
qed (simp add: raise_def)

lemma WaitAuthorization_gives_up:
  assumes "postWithJWSAccount env fuel url NoPayload s = (Inr (Inl e), t)"
  shows "WaitAuthorization env (Suc fuel) count url s = (Inr (Inl e), t)"
  using assms by (simp add: ebnd_run)

lemma chainLoop_length:
  "chainLoop decode data chain = Inr c \<Longrightarrow> length chain \<le> maxChainLen \<Longrightarrow> 1 \<le> length c \<and> length c \<le> maxChainLen"
proof (induction decode data chain rule: chainLoop.induct)
  case (1 decode data chain)
  show ?case
  proof (cases "decode data")
    case None
    with "1.prems" show ?thesis by (subst (asm) chainLoop.simps) (auto simp: Suc_le_eq split: if_splits)
  next
    case (Some x)
    obtain ty bs rest where x: "x = ((ty, bs), rest)" by (metis prod.collapse)
    have eq: "chainLoop decode data chain =
        (if length chain \<ge> maxChainLen then Inl ChainTooLong
         else if ty \<noteq> ''CERTIFICATE'' then Inl (InvalidBlock ty)
         else chainLoop decode rest (chain @ [bs]))"
      by (subst chainLoop.simps) (simp add: Some x)
    with "1.prems" have c: "\<not> maxChainLen \<le> length chain" "\<not> ty \<noteq> ''CERTIFICATE''"
      "chainLoop decode rest (chain @ [bs]) = Inr c"
      by (auto split: if_splits)
    from c(1) have "length (chain @ [bs]) \<le> maxChainLen" by simp
    from "1.IH" [OF Some x [symmetric] refl c(1,2,3) this] show ?thesis .
  qed
qed

lemma GetCertificate_chain: "yields (\<lambda>c. 1 \<le> length c \<and> length c \<le> maxChainLen) (GetCertificate env fuel url)"
  unfolding GetCertificate_def
  by (intro yields_rules) (auto simp: yields_def pure_result_def ret_def dest: chainLoop_length)

lemma FinalizeOrder_chain: "yields (\<lambda>c. 1 \<le> length c \<and> length c \<le> maxChainLen) (FinalizeOrder env fuel url csr)"
  unfolding FinalizeOrder_def by (intro yields_rules GetCertificate_chain)

end
