(* ===== verification/Cert.thy ===== *)
theory Cert
  imports Acme
begin

text \<open>
  The system certificate (\<^verbatim>\<open>pkg/bmc/cert/load.go\<close>) and the DNS server that answers the challenges
  (\<^verbatim>\<open>pkg/bmc/dns.go\<close>). Renewal is stated over the interface it uses of the ACME client, a record with one program
  for each operation that \<^verbatim>\<open>renew\<close> calls, and then put together with the client of theory Acme. The parsers and
  encoders of certificates and keys are arguments too. Times are in nanoseconds.
\<close>

section \<open>The DNS server\<close>

record dnsTXT =
  txt_Name :: string
  txt_Ttl :: nat
  txt_Txt :: "string list"

record dnsServer =
  dns_zone :: string
  dns_chal :: "dnsTXT option"

definition startDNS :: "string \<Rightarrow> dnsServer" where
  "startDNS fqdn = \<lparr>dns_zone = fqdn @ ''.'', dns_chal = None\<rparr>"

definition HandleDNS01Challenge :: "string \<Rightarrow> string \<Rightarrow> dnsServer \<Rightarrow> dnsServer" where
  "HandleDNS01Challenge fqdn record s =
     s\<lparr>dns_chal := Some \<lparr>txt_Name = fqdn @ ''.'', txt_Ttl = 60, txt_Txt = [record]\<rparr>\<rparr>"

datatype rcode = RcodeSuccess | RcodeNameError

text \<open>The reply to the names that are asked: authoritative, a code and the answers.\<close>

record dnsReply =
  rep_Authoritative :: bool
  rep_Rcode :: rcode
  rep_Answer :: "dnsTXT list"

definition dns_Reply :: "dnsServer \<Rightarrow> string list \<Rightarrow> dnsReply" where
  "dns_Reply s q =
     (if length q = 1 \<and> hd q = dns_zone s
      then \<lparr>rep_Authoritative = True, rep_Rcode = RcodeNameError, rep_Answer = []\<rparr>
      else case dns_chal s of
             Some c \<Rightarrow>
               if length q = 1 \<and> hd q = txt_Name c
               then \<lparr>rep_Authoritative = True, rep_Rcode = RcodeSuccess, rep_Answer = [c]\<rparr>
               else \<lparr>rep_Authoritative = True, rep_Rcode = RcodeNameError, rep_Answer = []\<rparr>
           | None \<Rightarrow> \<lparr>rep_Authoritative = True, rep_Rcode = RcodeNameError, rep_Answer = []\<rparr>)"

section \<open>Validity\<close>

record 'k certificate =
  Certificate :: "u8 list list"
  PrivateKey :: "'k option"

definition lifetimePadding :: int where
  "lifetimePadding = -4 * 3600 * 1000000000"

record x509 =
  NotBefore :: int
  NotAfter :: int

definition validateCert :: "(u8 list \<Rightarrow> x509 option) \<Rightarrow> 'k certificate option \<Rightarrow> int \<Rightarrow> bool" where
  "validateCert ParseCertificate ct now =
     (case ct of
        None \<Rightarrow> False
      | Some ct \<Rightarrow>
          if length (Certificate ct) = 0 then False
          else case ParseCertificate (hd (Certificate ct)) of
                 None \<Rightarrow> False
               | Some c \<Rightarrow>
                   if NotBefore c > now then False
                   else if NotAfter c + lifetimePadding < now then False
                   else True)"

section \<open>Renewal\<close>

datatype certError =
    BadApiCA
  | EmptyAccountURL
  | MissingDns01
  | NoHandler
  | ClientError acmeError
  | CryptoError string

text \<open>The operations of the ACME client and of the crypto library, over the world \<open>'w\<close>.\<close>

record ('w, 'k) acmeClient =
  ops_CreateAccount :: "Account \<Rightarrow> ('w, certError, Account) eio"
  ops_CreateOrder :: "Order \<Rightarrow> ('w, certError, Order) eio"
  ops_GetAuthorization :: "string \<Rightarrow> ('w, certError, Authorization) eio"
  ops_DNS01ChallengeRecord :: "string \<Rightarrow> certError + string"
  ops_AcceptChallenge :: "Challenge \<Rightarrow> ('w, certError, Challenge) eio"
  ops_WaitAuthorization :: "string \<Rightarrow> ('w, certError, Authorization) eio"
  ops_GenerateKey :: "('w, certError, 'k) eio"
  ops_CreateCertificateRequest :: "string list \<Rightarrow> 'k \<Rightarrow> ('w, certError, u8 list) eio"
  ops_FinalizeOrder :: "string \<Rightarrow> u8 list \<Rightarrow> ('w, certError, u8 list list) eio"

record acmeConfig =
  cfg_APICA_ok :: bool
  cfg_Contact :: string
  cfg_TermsAgreed :: bool

text \<open>The first challenge of the type we can answer, and the first handler that takes it.\<close>

definition findDns01 :: "Challenge list \<Rightarrow> Challenge option" where
  "findDns01 chs = List.find (\<lambda>ch. ch_Type ch = ''dns-01'') chs"

fun handleFirst :: "(string \<Rightarrow> string \<Rightarrow> ('w, bool) io) list \<Rightarrow> string \<Rightarrow> string \<Rightarrow> ('w, bool) io" where
  "handleFirst [] fqdn t = ret False"
| "handleFirst (h # hs) fqdn t = bnd (h fqdn t) (\<lambda>ok. if ok then ret True else handleFirst hs fqdn t)"

definition challengeName :: "string \<Rightarrow> string" where
  "challengeName fqdn = ''_acme-challenge.'' @ fqdn"

text \<open>\<^verbatim>\<open>renew\<close>, from the order on and as a whole.\<close>

definition renewOrder ::
  "('w, 'k) acmeClient \<Rightarrow> (string \<Rightarrow> string \<Rightarrow> ('w, bool) io) list \<Rightarrow> string \<Rightarrow> ('w, certError, 'k certificate) eio" where
  "renewOrder c handlers fqdn =
     ebnd (ops_CreateOrder c (NewOrder [fqdn])) (\<lambda>order.
     if ord_Authorizations order = [] then raise IndexPanic
     else
     ebnd (ops_GetAuthorization c (hd (ord_Authorizations order))) (\<lambda>auth.
     case findDns01 (auth_Challenges auth) of
       None \<Rightarrow> fail MissingDns01
     | Some challenge \<Rightarrow>
     ebnd (pure_result (ops_DNS01ChallengeRecord c (ch_Token challenge))) (\<lambda>t.
     bnd (handleFirst handlers (challengeName fqdn) t) (\<lambda>handled.
     if \<not> handled then fail NoHandler
     else
     ebnd (ops_AcceptChallenge c challenge) (\<lambda>_.
     ebnd (ops_WaitAuthorization c (hd (ord_Authorizations order))) (\<lambda>_.
     ebnd (ops_GenerateKey c) (\<lambda>k.
     ebnd (ops_CreateCertificateRequest c [fqdn] k) (\<lambda>csr.
     ebnd (ops_FinalizeOrder c (ord_FinalizeURL order) csr) (\<lambda>der.
     succeed \<lparr>Certificate = der, PrivateKey = Some k\<rparr>)))))))))"

definition renew ::
  "('w, 'k) acmeClient \<Rightarrow> acmeConfig \<Rightarrow> (string \<Rightarrow> string \<Rightarrow> ('w, bool) io) list \<Rightarrow> string \<Rightarrow>
   ('w, certError, 'k certificate) eio" where
  "renew c cfg handlers fqdn =
     (if \<not> cfg_APICA_ok cfg then fail BadApiCA
      else
        ebnd (ops_CreateAccount c \<lparr>AccountURL = [], ac_Status = [], Contact = [cfg_Contact cfg],
                                  TermsAgreed = cfg_TermsAgreed cfg, OrdersURL = []\<rparr>) (\<lambda>na.
        if AccountURL na = [] then fail EmptyAccountURL else renewOrder c handlers fqdn))"

definition maybeRenew ::
  "(u8 list \<Rightarrow> x509 option) \<Rightarrow> ('w, certError, 'k certificate) eio \<Rightarrow> int \<Rightarrow> 'k certificate option \<Rightarrow>
   ('w, certError, 'k certificate option) eio" where
  "maybeRenew ParseCertificate renewal n kp =
     (if validateCert ParseCertificate kp n then succeed kp
      else ebnd renewal (\<lambda>kp. succeed (Some kp)))"

section \<open>Keeping the certificate\<close>

datatype saveError = WriteCert string | EncodeKey | WriteKey string

text \<open>Writing a file with a mode; the modes are octal 644, 600 and 400 in the source.\<close>

type_synonym 'f writer = "string \<Rightarrow> u8 list \<Rightarrow> nat \<Rightarrow> ('f, bool) io"

text \<open>\<^verbatim>\<open>encodeCert\<close> and \<^verbatim>\<open>encodeKey\<close>, for an encoder of PEM blocks and of keys.\<close>

definition encodeCert :: "(string \<Rightarrow> u8 list \<Rightarrow> u8 list) \<Rightarrow> u8 list list \<Rightarrow> u8 list" where
  "encodeCert pem ders = concat (map (pem ''CERTIFICATE'') ders)"

definition encodeKey :: "(string \<Rightarrow> u8 list \<Rightarrow> u8 list) \<Rightarrow> ('k \<Rightarrow> u8 list option) \<Rightarrow> 'k \<Rightarrow> u8 list option" where
  "encodeKey pem MarshalECPrivateKey k = map_option (pem ''EC PRIVATE KEY'') (MarshalECPrivateKey k)"

definition saveKeyPair ::
  "'f writer \<Rightarrow> (string \<Rightarrow> u8 list \<Rightarrow> u8 list) \<Rightarrow> ('k \<Rightarrow> u8 list option) \<Rightarrow> 'k certificate \<Rightarrow> string \<Rightarrow> string \<Rightarrow>
   ('f, saveError option) io" where
  "saveKeyPair WriteFile pem Marshal kp crt key =
     bnd (WriteFile crt (encodeCert pem (Certificate kp)) 420) (\<lambda>ok.
     if \<not> ok then ret (Some (WriteCert crt))
     else case PrivateKey kp of
            None \<Rightarrow> raise SegFault
          | Some k \<Rightarrow>
              (case encodeKey pem Marshal k of
                 None \<Rightarrow> ret (Some EncodeKey)
               | Some b \<Rightarrow> bnd (WriteFile key b 384) (\<lambda>ok.
                   if ok then ret None else ret (Some (WriteKey key)))))"

datatype keyError = KeyParse | KeyGenerate | KeyMarshal | KeyWrite

definition generateAndSaveKey ::
  "'f writer \<Rightarrow> ('f, 'k option) io \<Rightarrow> ('k \<Rightarrow> u8 list option) \<Rightarrow> string \<Rightarrow> ('f, 'k option \<times> keyError option) io" where
  "generateAndSaveKey WriteFile gen Marshal file =
     bnd gen (\<lambda>k.
     case k of
       None \<Rightarrow> ret (None, Some KeyGenerate)
     | Some k \<Rightarrow>
         (case Marshal k of
            None \<Rightarrow> ret (None, Some KeyMarshal)
          | Some b \<Rightarrow> bnd (WriteFile file b 256) (\<lambda>ok. ret (Some k, if ok then None else Some KeyWrite))))"

datatype fileResult = NotExist | ReadError | Contents "u8 list"

definition loadOrGenerateKey ::
  "(string \<Rightarrow> 'f \<Rightarrow> fileResult) \<Rightarrow> 'f writer \<Rightarrow> ('f, 'k option) io \<Rightarrow> ('k \<Rightarrow> u8 list option) \<Rightarrow> (u8 list \<Rightarrow> 'k option) \<Rightarrow>
   string \<Rightarrow> ('f, 'k option \<times> keyError option) io" where
  "loadOrGenerateKey ReadFile WriteFile gen Marshal ParseECPrivateKey file s =
     (case ReadFile file s of
        NotExist \<Rightarrow> generateAndSaveKey WriteFile gen Marshal file s
      | r \<Rightarrow>
          (case ParseECPrivateKey (case r of Contents b \<Rightarrow> b | _ \<Rightarrow> []) of
             None \<Rightarrow> (Inr (None, Some KeyParse), s)
           | Some k \<Rightarrow> (Inr (Some k, None), s)))"

section \<open>The challenge is published\<close>

text \<open>
  A world with the DNS server in it, whose handler is the one the daemon registers with the
  certificate manager.
\<close>

definition dnsHandler :: "string \<Rightarrow> string \<Rightarrow> (dnsServer \<times> 'a, bool) io" where
  "dnsHandler fqdn record w = (Inr True, (HandleDNS01Challenge fqdn record (fst w), snd w))"

text \<open>
  An ACME server that looks at the DNS server first: accepting a challenge panics unless the record of the
  challenge is what the DNS server answers at that time.
\<close>

definition published :: "('w, 'k) acmeClient \<Rightarrow> string \<Rightarrow> Challenge \<Rightarrow> dnsServer \<Rightarrow> bool" where
  "published c fqdn ch d =
     (case ops_DNS01ChallengeRecord c (ch_Token ch) of
        Inl _ \<Rightarrow> False
      | Inr t \<Rightarrow>
          rep_Rcode (dns_Reply d [''_acme-challenge.'' @ fqdn @ ''.'']) = RcodeSuccess \<and>
          map txt_Txt (rep_Answer (dns_Reply d [''_acme-challenge.'' @ fqdn @ ''.''])) = [[t]])"

definition checkedAccept ::
  "(dnsServer \<times> 'a, 'k) acmeClient \<Rightarrow> string \<Rightarrow> Challenge \<Rightarrow> (dnsServer \<times> 'a, certError, Challenge) eio" where
  "checkedAccept c fqdn ch w =
     (if published c fqdn ch (fst w) then ops_AcceptChallenge c ch w
      else (Inl (LogPanic ''challenge is not published''), w))"

lemma Reply_challenge:
  assumes "name \<noteq> dns_zone d"
  shows "dns_Reply (HandleDNS01Challenge fqdn t d) [name] =
     (if name = fqdn @ ''.''
      then \<lparr>rep_Authoritative = True, rep_Rcode = RcodeSuccess,
            rep_Answer = [\<lparr>txt_Name = fqdn @ ''.'', txt_Ttl = 60, txt_Txt = [t]\<rparr>]\<rparr>
      else \<lparr>rep_Authoritative = True, rep_Rcode = RcodeNameError, rep_Answer = []\<rparr>)"
  using assms by (simp add: dns_Reply_def HandleDNS01Challenge_def)

lemma handled_published:
  assumes "dns_zone (fst w) = fqdn @ ''.''" "ops_DNS01ChallengeRecord c (ch_Token ch) = Inr t"
    and "handleFirst [dnsHandler] (challengeName fqdn) t w = (Inr True, w')"
  shows "published c fqdn ch (fst w')"
proof -
  have w': "fst w' = HandleDNS01Challenge (challengeName fqdn) t (fst w)"
    using assms(3) by (auto simp: dnsHandler_def bnd_def ret_def)
  have "''_acme-challenge.'' @ fqdn @ ''.'' \<noteq> dns_zone (fst w)"
  proof
    assume "''_acme-challenge.'' @ fqdn @ ''.'' = dns_zone (fst w)"
    then have "length (''_acme-challenge.'' @ fqdn @ ''.'') = length (fqdn @ ''.'')" using assms(1) by simp
    then show False by simp
  qed
  then show ?thesis
    using Reply_challenge [of "''_acme-challenge.'' @ fqdn @ ''.''" "fst w" "challengeName fqdn" t]
    by (simp add: published_def challengeName_def assms(2) w')
qed

text \<open>No call before the handler may move the DNS server to another zone.\<close>

definition keeps_zone :: "('b \<Rightarrow> (dnsServer \<times> 'a, certError, 'x) eio) \<Rightarrow> bool" where
  "keeps_zone f \<longleftrightarrow> (\<forall>x w. dns_zone (fst (snd (f x w))) = dns_zone (fst w))"

lemma keeps_zoneD: "keeps_zone f \<Longrightarrow> f x w = (r, w') \<Longrightarrow> dns_zone (fst w') = dns_zone (fst w)"
  unfolding keeps_zone_def by (metis snd_conv)

text \<open>
  For every ACME client that leaves the zone of the DNS server alone, a renewal runs exactly as it does
  with a server that checks that the challenge is published.
\<close>

lemma renew_checked:
  assumes "dns_zone (fst w) = fqdn @ ''.''"
    and "keeps_zone (ops_CreateAccount c)" "keeps_zone (ops_CreateOrder c)" "keeps_zone (ops_GetAuthorization c)"
  shows "renew c cfg [dnsHandler] fqdn w = renew (c\<lparr>ops_AcceptChallenge := checkedAccept c fqdn\<rparr>) cfg [dnsHandler] fqdn w"
proof -
  have accept: "ops_AcceptChallenge c ch w' = checkedAccept c fqdn ch w'"
    if "dns_zone (fst w3) = fqdn @ ''.''" "ops_DNS01ChallengeRecord c (ch_Token ch) = Inr t"
      "handleFirst [dnsHandler] (challengeName fqdn) t w3 = (Inr True, w')" for ch t w3 w'
    using handled_published [OF that] by (simp add: checkedAccept_def)
  have tail: "bnd (handleFirst [dnsHandler] (challengeName fqdn) t) (\<lambda>handled. if \<not> handled then fail NoHandler
        else ebnd (ops_AcceptChallenge c ch) k) w3 =
      bnd (handleFirst [dnsHandler] (challengeName fqdn) t) (\<lambda>handled. if \<not> handled then fail NoHandler
        else ebnd (checkedAccept c fqdn ch) k) w3"
    if "dns_zone (fst w3) = fqdn @ ''.''" "ops_DNS01ChallengeRecord c (ch_Token ch) = Inr t" for ch t w3 k
    using accept [OF that]
    by (auto simp: bnd_def split: prod.split sum.split intro!: ebnd_cong_run)
  show ?thesis
    unfolding renew_def renewOrder_def
    by (auto intro!: ebnd_cong_run tail cong: if_cong simp del: handleFirst.simps simp: pure_result_def ret_def assms(1) split: option.split
        dest!: keeps_zoneD [OF assms(2)] keeps_zoneD [OF assms(3)] keeps_zoneD [OF assms(4)])
qed

section \<open>The certificate that is used\<close>

text \<open>Four hours of validity are left when a certificate is kept.\<close>

lemma validateCert_iff:
  "validateCert P kp now \<longleftrightarrow>
     (\<exists>ct d ds c. kp = Some ct \<and> Certificate ct = d # ds \<and> P d = Some c \<and>
        NotBefore c \<le> now \<and> now + 14400000000000 \<le> NotAfter c)"
  by (auto simp: validateCert_def lifetimePadding_def neq_Nil_conv split: option.split)

lemma maybeRenew_cases:
  assumes "maybeRenew P renewal n kp w = (Inr (Inr kp'), w')"
  shows "validateCert P kp n \<and> kp' = kp \<and> w' = w \<or>
    (\<exists>ct. renewal w = (Inr (Inr ct), w') \<and> kp' = Some ct)"
  using assms
  by (auto simp: maybeRenew_def succeed_run ebnd_success split: if_splits)

text \<open>The account key is generated once: what was generated and written is loaded afterwards.\<close>

lemma loadOrGenerateKey_persists:
  assumes "ReadFile file s = NotExist" "gen s = (Inr (Some k), s1)" "Marshal k = Some b"
    and "WriteFile file b 256 s1 = (Inr True, s2)" "ReadFile file s2 = Contents b" "Parse b = Some k"
  shows "loadOrGenerateKey ReadFile WriteFile gen Marshal Parse file s = (Inr (Some k, None), s2) \<and>
    loadOrGenerateKey ReadFile WriteFile gen Marshal Parse file s2 = (Inr (Some k, None), s2)"
  using assms by (simp add: loadOrGenerateKey_def generateAndSaveKey_def bnd_def ret_def)

end
