(* ===== verification/Startup.thy ===== *)
theory Startup
  imports Ttime Cert
begin

text \<open>
  The start of the daemon (\<^verbatim>\<open>pkg/bmc/system.go\<close>): files, the debug SSH server, the system time, the
  order in which the parts are started, and what has to happen before remote calls are accepted. The
  file system maps names to contents; what the other parts answer is an argument.
\<close>

section \<open>Files\<close>

type_synonym files = "string \<rightharpoonup> u8 list"

text \<open>
  \<^verbatim>\<open>createFile\<close> opens with \<^verbatim>\<open>O_RDWR|O_CREATE\<close>, so a file that exists keeps its contents, and writes at
  its start. The argument tells whether opening works, and how many bytes a write takes.
\<close>

datatype createError = OpenFailed string | WriteFailed string

definition writeAtStart :: "u8 list \<Rightarrow> u8 list \<Rightarrow> u8 list" where
  "writeAtStart old c = c @ drop (length c) old"

definition createFile :: "(string \<Rightarrow> nat option) \<Rightarrow> string \<Rightarrow> u8 list \<Rightarrow> (files, createError option) io" where
  "createFile room file c fs =
     (case room file of
        None \<Rightarrow> (Inr (Some (OpenFailed file)), fs)
      | Some n \<Rightarrow>
          let old = (case fs file of Some b \<Rightarrow> b | None \<Rightarrow> []) in
          if length c \<le> n then (Inr None, fs(file \<mapsto> writeAtStart old c))
          else (Inr (Some (WriteFailed file)), fs(file \<mapsto> writeAtStart old (take n c))))"

definition bytes :: "string \<Rightarrow> u8 list" where
  "bytes s = map of_char s"

text \<open>\<^verbatim>\<open>strings.Join\<close> with a newline.\<close>

fun joinLines :: "string list \<Rightarrow> string" where
  "joinLines [] = []"
| "joinLines [x] = x"
| "joinLines (x # y # xs) = x @ [CHR 0x0A] @ joinLines (y # xs)"

datatype sshError = HostKey createError | SshStart

text \<open>The environment of the processes that the daemon starts.\<close>

definition environ :: "string list \<Rightarrow> string list" where
  "environ os_Environ = os_Environ @ [''USER=root''] @ [''HOME=/root''] @ [''TZ=UTC'']"

text \<open>
  \<^verbatim>\<open>newSshKey\<close> panics if there is no randomness or the key cannot be encoded. The generator of keys and the encoders are
  arguments.
\<close>

definition newSshKey ::
  "'p option \<Rightarrow> ('p \<Rightarrow> u8 list option) \<Rightarrow> (string \<Rightarrow> u8 list \<Rightarrow> u8 list) \<Rightarrow> panic + u8 list" where
  "newSshKey generated MarshalECPrivateKey EncodeToMemory =
     (case generated of
        None \<Rightarrow> Inl (LogPanic ''ecdsa.GenerateKey'')
      | Some pk \<Rightarrow>
     (case MarshalECPrivateKey pk of
        None \<Rightarrow> Inl (LogPanic ''x509.MarshalECPrivateKey'')
      | Some asn1 \<Rightarrow> Inr (EncodeToMemory ''EC PRIVATE KEY'' asn1)))"

definition sshCommand :: "string list" where
  "sshCommand = [''/bin/sshd'', ''-d'', ''-ip'', ''[::0]'', ''-port'', ''22'',
     ''-privatekey'', ''/config/ssh_host_ecdsa_key'', ''-keys'', ''/config/authorized_keys'']"

text \<open>\<^verbatim>\<open>startSsh\<close>: the start of a process with its command and its environment is an argument.\<close>

definition startSsh ::
  "(string \<Rightarrow> nat option) \<Rightarrow> (panic + u8 list) \<Rightarrow> (string list \<Rightarrow> string list \<Rightarrow> bool) \<Rightarrow> string list \<Rightarrow> string list \<Rightarrow>
   (files, sshError option) io" where
  "startSsh room sshKey starts env ak =
     bnd (\<lambda>fs. if fs ''/config/ssh_host_ecdsa_key'' = None
               then (case sshKey of Inl p \<Rightarrow> (Inl p, fs) | Inr k \<Rightarrow> createFile room ''/config/ssh_host_ecdsa_key'' k fs)
               else (Inr None, fs)) (\<lambda>e.
     case e of
       Some err \<Rightarrow> ret (Some (HostKey err))
     | None \<Rightarrow>
         bnd (createFile room ''/config/authorized_keys'' (bytes (joinLines ak))) (\<lambda>_.
         ret (if starts sshCommand env then None else Some SshStart)))"

section \<open>The system time\<close>

text \<open>
  \<^verbatim>\<open>acquireTime\<close> on the results of its attempts: the waits between them, by the backoff's durations,
  and the time that was acquired, with whether the system clock could be set to it (an error of setting it is only
  logged). \<open>None\<close> means that it is still trying. An attempt that never returns stops it.
\<close>

fun acquireTime ::
  "(nat \<Rightarrow> int) \<Rightarrow> (int \<Rightarrow> bool) \<Rightarrow> nat \<Rightarrow> (panic + (timeError + int)) list \<Rightarrow> int list \<times> (int \<times> bool) option" where
  "acquireTime duration Settimeofday n [] = ([], None)"
| "acquireTime duration Settimeofday n (Inl _ # as) = ([], None)"
| "acquireTime duration Settimeofday n (Inr (Inl _) # as) =
     (case acquireTime duration Settimeofday (n + 1) as of (ds, r) \<Rightarrow> (duration n # ds, r))"
| "acquireTime duration Settimeofday n (Inr (Inr t) # as) = ([], Some (t, Settimeofday t))"

section \<open>Before remote calls\<close>

datatype 'k startEvent =
    TimeTrusted
  | TimeSet int
  | TimeNotSet int
  | HasTime
  | TimeSyncStarted
  | RtcUpdated
  | CertificateTried
  | Saved bool
  | RemoteEnabled "'k certificate option"

text \<open>
  The goroutine for the time: with a clock past 2018 it tells the rest to go on at once, otherwise
  after the time has been acquired. Then it updates the clock of the board, if it can be opened and set.
\<close>

definition timeGoroutine :: "bool \<Rightarrow> (int \<times> bool) option \<Rightarrow> bool \<Rightarrow> bool \<Rightarrow> 'k startEvent list" where
  "timeGoroutine rtcTrusted acquired rtcOpens rtcSets =
     (let rtc = (if rtcOpens \<and> rtcSets then [RtcUpdated] else []) in
      case acquired of
        None \<Rightarrow> if rtcTrusted then [TimeTrusted] else []
      | Some (t, sets) \<Rightarrow>
          let clock = (if sets then TimeSet t else TimeNotSet t) in
          (if rtcTrusted then [TimeTrusted, clock] else [clock, TimeTrusted]) @ rtc)"

text \<open>
  The loop that gets the certificate: each round loads a key pair from disk, looks at the time and, if
  the pair is not valid, renews it. The result is the pair of the first round without an error.
\<close>

fun certLoop ::
  "(u8 list \<Rightarrow> x509 option) \<Rightarrow> ('k certificate \<times> int \<times> (certError + 'k certificate)) list \<Rightarrow>
   nat \<times> 'k certificate option option" where
  "certLoop P [] = (0, None)"
| "certLoop P ((skp, now, renewal) # rs) =
     (case fst (maybeRenew P (pure_result renewal) now (Some skp) ()) of
        Inr (Inr kp) \<Rightarrow> (1, Some kp)
      | _ \<Rightarrow> (case certLoop P rs of (n, r) \<Rightarrow> (n + 1, r)))"

text \<open>
  \<^verbatim>\<open>asyncStartup\<close> waits for the time; then the gauge \<^verbatim>\<open>systemHasTime\<close> is set and the repeated synchronisation of the time is started
  before the certificate.
\<close>

definition asyncStartup ::
  "(u8 list \<Rightarrow> x509 option) \<Rightarrow> ('k certificate \<times> int \<times> (certError + 'k certificate)) list \<Rightarrow> bool \<Rightarrow> bool \<Rightarrow>
   'k startEvent list \<Rightarrow> 'k startEvent list" where
  "asyncStartup P rounds saves enables time =
     (if TimeTrusted \<notin> set time then time
      else time @ [HasTime, TimeSyncStarted] @
           (case certLoop P rounds of
              (n, None) \<Rightarrow> replicate n CertificateTried
            | (n, Some kp) \<Rightarrow>
                replicate n CertificateTried @ [Saved saves] @ (if enables then [RemoteEnabled kp] else [])))"

section \<open>The order of the start\<close>

datatype part =
    InitializeSystem | StartGpio | StartFan | StartUart | LoadSysconf | StartNetwork | TimeThread
  | EtcPasswd | EtcGroup | DevMem | DebugSsh | StartMetrics | StartGRPC | StartDNS | AcmeKey | AsyncStartup

text \<open>
  The start as a specification: the parts in their order, where the first failure of a part that is needed ends it. Theory \<^verbatim>\<open>Bmc_System\<close> has the
  start itself, over the components, and shows that it implements this.
\<close>

text \<open>Whether a failure of the part ends the start; the others only log it.\<close>

definition fatal :: "part \<Rightarrow> bool" where
  "fatal p \<longleftrightarrow> p \<in> {InitializeSystem, StartGpio, StartFan, StartUart, StartNetwork, StartMetrics, StartGRPC, StartDNS, AcmeKey}"

fun startParts :: "(part \<Rightarrow> bool) \<Rightarrow> part list \<Rightarrow> part list \<times> part option" where
  "startParts works [] = ([], None)"
| "startParts works (p # ps) =
     (if \<not> works p \<and> fatal p then ([p], Some p)
      else case startParts works ps of (ts, e) \<Rightarrow> (p # ts, e))"

definition startOrder :: "(part \<Rightarrow> bool) \<Rightarrow> bool \<Rightarrow> part list \<times> part option" where
  "startOrder works StartDebugSshServer =
     startParts works
       ([InitializeSystem, StartGpio, StartFan, StartUart, LoadSysconf, StartNetwork, TimeThread,
         EtcPasswd, EtcGroup, DevMem] @
        (if StartDebugSshServer then [DebugSsh] else []) @
        [StartMetrics, StartGRPC, StartDNS, AcmeKey, AsyncStartup])"

section \<open>Lemmas\<close>

lemma startParts_stops:
  "startParts works ps = (ts, Some p) \<Longrightarrow> \<exists>qs. ts = takeWhile (\<lambda>q. works q \<or> \<not> fatal q) ps @ [p] \<and> fatal p \<and> \<not> works p"
  by (induction ps arbitrary: ts) (auto split: prod.splits if_splits)

lemma startParts_ok: "startParts works ps = (ts, None) \<Longrightarrow> ts = ps \<and> (\<forall>p \<in> set ps. fatal p \<longrightarrow> works p)"
  by (induction ps arbitrary: ts) (auto split: prod.splits if_splits)

lemma acquireTime_result:
  "acquireTime duration Settimeofday n as = (ds, Some (t, sets)) \<Longrightarrow>
   \<exists>es rest. as = map (\<lambda>e. Inr (Inl e)) es @ Inr (Inr t) # rest \<and> sets = Settimeofday t \<and> ds = map duration [n..<n + length es]"
proof (induction duration Settimeofday n as arbitrary: ds rule: acquireTime.induct)
  case (3 duration Settimeofday n e as)
  then obtain ds' where ds: "acquireTime duration Settimeofday (n + 1) as = (ds', Some (t, sets))" "ds = duration n # ds'"
    by (auto split: prod.splits)
  from "3.IH" [OF ds(1)] obtain es rest where
    "as = map (\<lambda>e. Inr (Inl e)) es @ Inr (Inr t) # rest" "sets = Settimeofday t" "ds' = map duration [n + 1..<n + 1 + length es]" by blast
  with ds(2) show ?case
    by (intro exI [of _ "e # es"] exI [of _ rest]) (simp add: upt_conv_Cons [of n] del: upt_Suc)
qed auto

lemma certLoop_result:
  assumes "certLoop P rounds = (n, Some kp)"
  shows "\<exists>skp now renewal ct. (skp, now, renewal) \<in> set rounds \<and> kp = Some ct \<and>
     (validateCert P (Some skp) now \<and> ct = skp \<or> \<not> validateCert P (Some skp) now \<and> renewal = Inr ct)"
  using assms
proof (induction rounds arbitrary: n)
  case (Cons r rs)
  obtain skp now renewal where r: "r = (skp, now, renewal)" by (metis prod_cases3)
  show ?case
  proof (cases "validateCert P (Some skp) now")
    case True
    with Cons.prems r show ?thesis by (auto simp: maybeRenew_def succeed_run)
  next
    case False
    show ?thesis
    proof (cases renewal)
      case (Inl e)
      with False Cons.prems r have "\<exists>m. certLoop P rs = (m, Some kp)"
        by (auto simp: maybeRenew_def pure_result_def ebnd_def bnd_def ret_def fail_def split: prod.splits)
      with Cons.IH show ?thesis by fastforce
    next
      case (Inr ct)
      with False Cons.prems r show ?thesis
        by (auto simp: maybeRenew_def pure_result_def ebnd_def bnd_def ret_def succeed_def)
    qed
  qed
qed simp

section \<open>Remote calls wait for time and certificate\<close>

lemma timeGoroutine_trusted:
  "TimeTrusted \<in> set (timeGoroutine rtc acquired rtcOpens rtcSets) \<longleftrightarrow> rtc \<or> acquired \<noteq> None"
  by (auto simp: timeGoroutine_def Let_def split: option.split)

lemma timeGoroutine_events:
  "e \<in> set (timeGoroutine rtc acquired rtcOpens rtcSets) \<Longrightarrow> e = TimeTrusted \<or> (\<exists>t. e = TimeSet t \<or> e = TimeNotSet t) \<or> e = RtcUpdated"
  by (auto simp: timeGoroutine_def Let_def split: if_splits option.splits)

lemma AcquireTime_source:
  assumes "AcquireTime finished ntps = Inr (Inr t)"
  shows "\<exists>rt. Some rt \<in> set finished \<and>
    (t = Midpoint rt \<or> (\<exists>diff. Some (t, diff) \<in> set ntps \<and> acceptable rt t diff))"
proof -
  obtain rt where rt: "getOneRoughtime finished = Inr (Some rt)"
    using assms by (auto simp: AcquireTime_def Let_def split: sum.splits option.splits)
  then have "Some rt \<in> set finished"
    by (auto simp: getOneRoughtime_cases filter_eq_Cons_iff split: if_splits list.splits)
  moreover have "t = Midpoint rt \<or> (\<exists>diff. Some (t, diff) \<in> set ntps \<and> acceptable rt t diff)"
    using assms rt
    by (auto simp: AcquireTime_def Let_def radius_no_overflow acceptable_def
        split: option.splits dest!: firstNtp_Some)
  ultimately show ?thesis by blast
qed

lemma asyncStartup_enabled:
  fixes kp :: "'k certificate option"
  assumes "RemoteEnabled kp \<in> set (asyncStartup P rounds saves enables (timeGoroutine rtcTrusted acquired rtcOpens rtcSets))"
  obtains n where "TimeTrusted \<in> set (timeGoroutine rtcTrusted acquired rtcOpens rtcSets :: 'k startEvent list)"
    "certLoop P rounds = (n, Some kp)"
    "asyncStartup P rounds saves enables (timeGoroutine rtcTrusted acquired rtcOpens rtcSets) =
       (timeGoroutine rtcTrusted acquired rtcOpens rtcSets @ [HasTime, TimeSyncStarted] @ replicate n CertificateTried) @ [Saved saves, RemoteEnabled kp]"
proof -
  let ?time = "timeGoroutine rtcTrusted acquired rtcOpens rtcSets :: 'k startEvent list"
  have trusted: "TimeTrusted \<in> set ?time"
    using assms timeGoroutine_events [of "RemoteEnabled kp" rtcTrusted acquired rtcOpens rtcSets]
    by (auto simp: asyncStartup_def split: if_splits)
  obtain n where "certLoop P rounds = (n, Some kp)"
    "asyncStartup P rounds saves enables ?time = (?time @ [HasTime, TimeSyncStarted] @ replicate n CertificateTried) @ [Saved saves, RemoteEnabled kp]"
    using assms trusted timeGoroutine_events [of "RemoteEnabled kp" rtcTrusted acquired rtcOpens rtcSets]
    by (cases "certLoop P rounds") (auto simp: asyncStartup_def split: option.splits if_splits)
  with trusted that show ?thesis by blast
qed

lemma certLoop_certificate:
  assumes "certLoop P rounds = (n, Some kp)"
  shows "\<exists>ct skp now renewal. kp = Some ct \<and> (skp, now, renewal) \<in> set rounds \<and>
       (renewal = Inr ct \<or>
        ct = skp \<and> (\<exists>d ds c. Certificate ct = d # ds \<and> P d = Some c \<and> NotBefore c \<le> now \<and>
                      now + 14400000000000 \<le> NotAfter c))"
  using certLoop_result [OF assms] by (auto simp: validateCert_iff) blast+

text \<open>C9.
  When the daemon accepts remote calls: only after the time is trusted, which means that the
  clock was past 2018 at the start or that the time was acquired, from a roughtime answer or an NTP
  time in its window (whether or not the clock could be set to it); only with a certificate that was issued in this start or that was valid at the
  time it was looked at and for four hours more; and it has tried to save that certificate before.
\<close>

theorem remote_calls_wait:
  fixes kp :: "'k certificate option"
  assumes "acquired = snd (acquireTime duration Settimeofday 0 (map (\<lambda>(finished, ntps). AcquireTime finished ntps) attempts))"
    and "RemoteEnabled kp \<in> set (asyncStartup P rounds saves enables (timeGoroutine rtcTrusted acquired rtcOpens rtcSets))"
  shows "(rtcTrusted \<or> (\<exists>t sets rt finished ntps. acquired = Some (t, sets) \<and> (finished, ntps) \<in> set attempts \<and> Some rt \<in> set finished \<and>
            (t = Midpoint rt \<or> (\<exists>diff. Some (t, diff) \<in> set ntps \<and> acceptable rt t diff)))) \<and>
    (\<exists>ct skp now renewal. kp = Some ct \<and> (skp, now, renewal) \<in> set rounds \<and>
       (renewal = Inr ct \<or>
        ct = skp \<and> (\<exists>d ds c. Certificate ct = d # ds \<and> P d = Some c \<and> NotBefore c \<le> now \<and>
                      now + 14400000000000 \<le> NotAfter c))) \<and>
    (\<exists>pre. asyncStartup P rounds saves enables (timeGoroutine rtcTrusted acquired rtcOpens rtcSets) = pre @ [Saved saves, RemoteEnabled kp] \<and>
       TimeTrusted \<in> set pre \<and> (\<forall>kp'. RemoteEnabled kp' \<notin> set pre))"
proof -
  let ?time = "timeGoroutine rtcTrusted acquired rtcOpens rtcSets :: 'k startEvent list"
  obtain n where trusted: "TimeTrusted \<in> set ?time" and loop: "certLoop P rounds = (n, Some kp)"
    and run: "asyncStartup P rounds saves enables ?time =
      (?time @ [HasTime, TimeSyncStarted] @ replicate n CertificateTried) @ [Saved saves, RemoteEnabled kp]"
    using asyncStartup_enabled [OF assms(2)] .
  have time: "rtcTrusted \<or> (\<exists>t sets rt finished ntps. acquired = Some (t, sets) \<and> (finished, ntps) \<in> set attempts \<and>
      Some rt \<in> set finished \<and> (t = Midpoint rt \<or> (\<exists>diff. Some (t, diff) \<in> set ntps \<and> acceptable rt t diff)))"
  proof (cases rtcTrusted)
    case False
    then obtain t sets where t: "acquired = Some (t, sets)" using trusted by (auto simp: timeGoroutine_trusted)
    then obtain ds where "acquireTime duration Settimeofday 0 (map (\<lambda>(finished, ntps). AcquireTime finished ntps) attempts) = (ds, Some (t, sets))"
      using assms(1) by (metis surjective_pairing)
    from acquireTime_result [OF this] have "Inr (Inr t) \<in> (\<lambda>(finished, ntps). AcquireTime finished ntps) ` set attempts"
      by (metis in_set_conv_decomp list.set_map)
    then obtain finished ntps where a: "(finished, ntps) \<in> set attempts" "AcquireTime finished ntps = Inr (Inr t)"
      by auto
    from AcquireTime_source [OF a(2)] a(1) t show ?thesis by blast
  qed simp
  note cert = certLoop_certificate [OF loop]
  have "\<forall>kp'. RemoteEnabled kp' \<notin> set (?time @ [HasTime, TimeSyncStarted] @ replicate n CertificateTried)"
    using timeGoroutine_events [of _ rtcTrusted acquired rtcOpens rtcSets] by fastforce
  with run trusted time cert show ?thesis by (intro conjI exI [of _ "?time @ [HasTime, TimeSyncStarted] @ replicate n CertificateTried"]) auto
qed

theorem remote_calls_wait_witness:
  "\<exists>pre. asyncStartup (\<lambda>_. None) [(\<lparr>Certificate = [], PrivateKey = None\<rparr>, 9, Inl NoHandler),
        (\<lparr>Certificate = [], PrivateKey = None\<rparr>, 10, Inr \<lparr>Certificate = [[1]], PrivateKey = Some (7 :: nat)\<rparr>)] True True
        (timeGoroutine False (Some (5000, True)) True True) =
      pre @ [Saved True, RemoteEnabled (Some \<lparr>Certificate = [[1]], PrivateKey = Some 7\<rparr>)] \<and> TimeTrusted \<in> set pre"
proof -
  have a: "Some (5000, True) = snd (acquireTime (\<lambda>_. 1) (\<lambda>_. True) 0 (map (\<lambda>(finished, ntps). AcquireTime finished ntps)
      [([None], []), ([Some \<lparr>Midpoint = 5000, Radius = 1\<rparr>], [])]))"
    by (simp add: AcquireTime_def getOneRoughtime_cases Let_def)
  have r: "RemoteEnabled (Some \<lparr>Certificate = [[1]], PrivateKey = Some (7 :: nat)\<rparr>) \<in>
      set (asyncStartup (\<lambda>_. None) [(\<lparr>Certificate = [], PrivateKey = None\<rparr>, 9, Inl NoHandler),
        (\<lparr>Certificate = [], PrivateKey = None\<rparr>, 10, Inr \<lparr>Certificate = [[1]], PrivateKey = Some 7\<rparr>)] True True
        (timeGoroutine False (Some (5000, True)) True True))"
    by (simp add: asyncStartup_def timeGoroutine_def Let_def maybeRenew_def validateCert_def pure_result_def
        ebnd_def bnd_def ret_def fail_def succeed_def)
  from remote_calls_wait [OF a r] show ?thesis by blast
qed

text \<open>
  The clock need not have been set: if it cannot be, the time counts as trusted all the same, and remote calls are accepted as soon as
  there is a certificate.
\<close>

lemma remote_without_clock:
  assumes "acquireTime duration (\<lambda>_. False) 0 attempts = (ds, acquired)" "acquired \<noteq> None" "certLoop P rounds = (n, Some kp)"
  shows "let evs = asyncStartup P rounds saves True (timeGoroutine False acquired rtcOpens rtcSets) in
    HasTime \<in> set evs \<and> RemoteEnabled kp \<in> set evs \<and> (\<forall>t. TimeSet t \<notin> set evs)"
proof -
  obtain t sets where a: "acquired = Some (t, sets)" using assms(2) by auto
  then have "\<not> sets" using acquireTime_result assms(1) by blast
  with a assms(3) show ?thesis by (simp add: asyncStartup_def timeGoroutine_def Let_def)
qed

section \<open>Files keep their tails\<close>

lemma joinLines_append: "xs \<noteq> [] \<Longrightarrow> \<exists>rest. joinLines (xs @ ys) = joinLines xs @ rest"
proof (induction xs rule: joinLines.induct)
  case (2 x)
  show ?case by (cases ys) auto
qed auto

lemma writeAtStart_prefix: "writeAtStart (c @ rest) c = c @ rest"
  by (simp add: writeAtStart_def)

text \<open>C27.
  Keys cannot be revoked: the debug SSH server writes its authorized keys over the old file without
  truncating it, so when keys are dropped from the end of the list, the file that the server reads
  afterwards still has all of them, byte for byte.
\<close>

theorem startSsh_keeps_revoked_keys:
  assumes "ak \<noteq> []" "fs ''/config/authorized_keys'' = Some (bytes (joinLines (ak @ revoked)))"
    and "fs ''/config/ssh_host_ecdsa_key'' = Some hk"
    and "room ''/config/authorized_keys'' = Some n" "length (joinLines ak) \<le> n"
    and "starts sshCommand env"
  shows "startSsh room sshKey starts env ak fs = (Inr None, fs)"
proof -
  obtain rest where rest: "joinLines (ak @ revoked) = joinLines ak @ rest" using joinLines_append [OF assms(1)] by blast
  have "createFile room ''/config/authorized_keys'' (bytes (joinLines ak)) fs = (Inr None, fs)"
    using assms(2,4,5) by (simp add: createFile_def Let_def rest bytes_def writeAtStart_prefix fun_upd_idem)
  with assms(3,6) show ?thesis by (simp add: startSsh_def bnd_def ret_def)
qed

theorem startSsh_keeps_revoked_keys_witness:
  "startSsh (\<lambda>_. Some 100) (Inr []) (\<lambda>_ _. True) (environ []) [''k1'']
     [''/config/authorized_keys'' \<mapsto> bytes (joinLines [''k1'', ''k2'']), ''/config/ssh_host_ecdsa_key'' \<mapsto> [1]] =
   (Inr None, [''/config/authorized_keys'' \<mapsto> bytes (joinLines [''k1'', ''k2'']), ''/config/ssh_host_ecdsa_key'' \<mapsto> [1]])"
  using startSsh_keeps_revoked_keys [of "[''k1'']"
      "[''/config/authorized_keys'' \<mapsto> bytes (joinLines [''k1'', ''k2'']), ''/config/ssh_host_ecdsa_key'' \<mapsto> [1]]"
      "[''k2'']" "[1]" "\<lambda>_. Some 100" 100 "\<lambda>_ _. True" "environ []" "Inr []"]
  by simp

end
