(* ===== verification/Renewal.thy ===== *)
theory Renewal
  imports Cert
begin

text \<open>
  Certificates from a real server: \<^verbatim>\<open>Manager.renew\<close> (theory Cert) put together with the ACME client
  (theory Acme) and the DNS server, and what follows for the certificate that the daemon then uses. The
  key generator and the certificate request are arguments.
\<close>

section \<open>The composition\<close>

text \<open>A program of the client, in the world that has the DNS server too.\<close>

definition withDNS :: "('w client, acmeError, 'x) eio \<Rightarrow> (dnsServer \<times> 'w client, certError, 'x) eio" where
  "withDNS m w =
     (case m (snd w) of (r, c) \<Rightarrow>
        (case r of Inl p \<Rightarrow> Inl p | Inr (Inl e) \<Rightarrow> Inr (Inl (ClientError e)) | Inr (Inr x) \<Rightarrow> Inr (Inr x),
         (fst w, c)))"

definition realClient ::
  "('w, 'b) env \<Rightarrow> nat \<Rightarrow> (string \<Rightarrow> u8 list) \<Rightarrow> (certError + 'k) \<Rightarrow> (string list \<Rightarrow> 'k \<Rightarrow> certError + u8 list) \<Rightarrow>
   (dnsServer \<times> 'w client, 'k) acmeClient" where
  "realClient env fuel sha256 newKey request =
     \<lparr>ops_CreateAccount = (\<lambda>a. withDNS (CreateAccount env fuel a)),
      ops_CreateOrder = (\<lambda>ord. withDNS (CreateOrder env fuel ord)),
      ops_GetAuthorization = (\<lambda>url. withDNS (GetAuthorization env fuel url)),
      ops_DNS01ChallengeRecord = (\<lambda>t. map_sum ClientError id (DNS01Record sha256 (env_key env) t)),
      ops_AcceptChallenge = (\<lambda>ch. withDNS (AcceptChallenge env fuel ch)),
      ops_WaitAuthorization = (\<lambda>url. withDNS (WaitAuthorization env fuel 0 url)),
      ops_GenerateKey = pure_result newKey,
      ops_CreateCertificateRequest = (\<lambda>names k. pure_result (request names k)),
      ops_FinalizeOrder = (\<lambda>url csr. withDNS (FinalizeOrder env fuel url csr))\<rparr>"

section \<open>No panics, and a usable certificate\<close>

lemma safe_withDNS: "safe (cl_inv D) P m \<Longrightarrow> safe (\<lambda>w. cl_inv D (snd w)) P (withDNS m)"
  by (fastforce simp: safe_def withDNS_def split: prod.splits sum.splits)

lemma safe_dnsHandler: "safe (\<lambda>w. cl_inv D (snd w)) P (handleFirst [dnsHandler] fqdn t)"
  by (auto simp: safe_def dnsHandler_def bnd_def ret_def)

lemma safe_weaken: "safe I P m \<Longrightarrow> (\<And>p. P p \<Longrightarrow> Q p) \<Longrightarrow> safe I Q m"
  by (auto simp: safe_def)

definition renewPanics :: "panic \<Rightarrow> bool" where
  "renewPanics p \<longleftrightarrow> p = NoReturn \<or> p = IndexPanic"

lemma withDNS_rules:
  assumes "client_safe True m"
  shows "safe (\<lambda>w. cl_inv True (snd w)) renewPanics (withDNS m)"
  using safe_withDNS [OF assms] by (rule safe_weaken) (auto simp: panics_def renewPanics_def)

lemma renewOrder_safe:
  "safe (\<lambda>w. cl_inv True (snd w)) renewPanics (renewOrder (realClient env fuel sha256 newKey request) [dnsHandler] fqdn)"
  unfolding renewOrder_def realClient_def acmeClient.simps
  by (intro safe_rules withDNS_rules safe_dnsHandler) (simp add: renewPanics_def)

lemma withDNS_result:
  "withDNS m w = (r, w') \<Longrightarrow>
    \<exists>r0. m (snd w) = (r0, snd w') \<and> (\<forall>p. r = Inl p \<longrightarrow> r0 = Inl p) \<and> (\<forall>x. r = Inr (Inr x) \<longrightarrow> r0 = Inr (Inr x))"
  by (auto simp: withDNS_def split: prod.splits sum.splits)

lemma account_step:
  assumes "cl_inv False (snd w)" "ops_CreateAccount (realClient env fuel sha256 newKey request) a w = (r, w')"
  shows "cl_inv False (snd w') \<and> (\<forall>p. r = Inl p \<longrightarrow> p = NoReturn) \<and> (\<forall>x. r = Inr (Inr x) \<longrightarrow> cl_inv True (snd w'))"
proof -
  obtain r0 where "CreateAccount env fuel a (snd w) = (r0, snd w')"
    "\<forall>p. r = Inl p \<longrightarrow> r0 = Inl p" "\<forall>x. r = Inr (Inr x) \<longrightarrow> r0 = Inr (Inr x)"
    using withDNS_result assms(2) by (fastforce simp: realClient_def)
  with CreateAccount_dir [OF assms(1)] show ?thesis by blast
qed

lemma yields_withDNS: "yields Q m \<Longrightarrow> yields Q (withDNS m)"
  unfolding yields_def using withDNS_result [of m] by blast

text \<open>The certificates that the daemon can use: a chain that is not empty nor too long, and a key.\<close>

definition usable :: "'k certificate \<Rightarrow> bool" where
  "usable kp \<longleftrightarrow> 1 \<le> length (Certificate kp) \<and> length (Certificate kp) \<le> maxChainLen \<and> PrivateKey kp \<noteq> None"

lemma renew_usable:
  "yields usable (renew (realClient env fuel sha256 newKey request) cfg handlers fqdn)"
  unfolding renew_def renewOrder_def realClient_def acmeClient.simps
  by (intro yields_rules yields_ebnd_result [OF yields_withDNS [OF FinalizeOrder_chain]])
    (simp_all add: usable_def)

lemma renew_panics:
  assumes "cl_inv False (snd w)" "renew (realClient env fuel sha256 newKey request) cfg [dnsHandler] fqdn w = (r, w')"
  shows "cl_inv False (snd w') \<and> (\<forall>p. r = Inl p \<longrightarrow> renewPanics p)"
proof (cases "cfg_APICA_ok cfg")
  case True
  let ?c = "realClient env fuel sha256 newKey request"
  let ?a = "\<lparr>AccountURL = [], ac_Status = [], Contact = [cfg_Contact cfg], TermsAgreed = cfg_TermsAgreed cfg, OrdersURL = []\<rparr>"
  define k where "k = (\<lambda>na :: Account. if AccountURL na = [] then fail EmptyAccountURL else renewOrder ?c [dnsHandler] fqdn)"
  have k: "safe (\<lambda>w. cl_inv True (snd w)) renewPanics (k na)" for na
    unfolding k_def by (intro safe_rules renewOrder_safe)
  have run: "ebnd (ops_CreateAccount ?c ?a) k w = (r, w')"
    using assms(2) True by (simp add: renew_def k_def)
  then consider p where "ops_CreateAccount ?c ?a w = (Inl p, w')" "r = Inl p"
    | e where "ops_CreateAccount ?c ?a w = (Inr (Inl e), w')" "r = Inr (Inl e)"
    | na u where "ops_CreateAccount ?c ?a w = (Inr (Inr na), u)" "k na u = (r, w')"
    unfolding ebnd_cases by blast
  then show ?thesis
  proof cases
    case (1 p)
    with account_step [OF assms(1) 1(1)] show ?thesis by (simp add: renewPanics_def)
  next
    case (2 e)
    with account_step [OF assms(1) 2(1)] show ?thesis by simp
  next
    case (3 na u)
    with account_step [OF assms(1)] have "cl_inv True (snd u)" by blast
    from safeD [OF k this 3(2)] show ?thesis by (auto simp: cl_inv_def)
  qed
qed (use assms in \<open>auto simp: renew_def fail_run\<close>)


text \<open>A network on which every request fails.\<close>

definition noNetwork :: "(unit, unit) env" where
  "noNetwork =
     \<lparr>env_parseURL = (\<lambda>_. True), env_do = (\<lambda>rq w. (Inl ''no route to host'', w)), env_ctxDone = (\<lambda>_. False), env_wait = (\<lambda>d w. (True, w)),
      env_now = (\<lambda>_. 0), env_jitter = (\<lambda>w. (Some 500, w)), env_pick = (\<lambda>_. 0), env_intWidth = 32,
      env_ParseTime = (\<lambda>_. None), env_resolve = (\<lambda>b l. Some l), env_key = RsaPublic 15 3,
      env_DirectoryURL = ''https://ca/dir'', env_UserAgent = [], dec_directory = (\<lambda>_. None),
      dec_order = (\<lambda>_. None), dec_authz = (\<lambda>_. None), dec_challenge = (\<lambda>_ _. None),
      dec_account = (\<lambda>_. None), dec_error = (\<lambda>e _. (True, e)), env_text = (\<lambda>_. []),
      env_bytes = (\<lambda>_. None), env_pem = (\<lambda>_. None)\<rparr>"


section \<open>The challenge is published\<close>

lemma keeps_zone_withDNS: "keeps_zone (\<lambda>x. withDNS (f x))"
  by (simp add: keeps_zone_def withDNS_def split: prod.split)

text \<open>C13.
  Renewing a certificate publishes the challenge first: with the DNS server that the daemon starts for its
  name and for every state of the client, a renewal runs exactly as it does against a server that
  checks, when it is told to look, that the DNS server answers a query for the challenge name with the
  record of that very challenge.
\<close>

theorem renew_publishes_challenge:
  "renew (realClient env fuel sha256 newKey request) cfg [dnsHandler] fqdn (startDNS fqdn, s) =
   renew ((realClient env fuel sha256 newKey request)
       \<lparr>ops_AcceptChallenge := checkedAccept (realClient env fuel sha256 newKey request) fqdn\<rparr>)
     cfg [dnsHandler] fqdn (startDNS fqdn, s)"
  by (rule renew_checked) (simp_all add: startDNS_def realClient_def keeps_zone_withDNS)

end
