(* ===== verification/Loader.thy ===== *)
theory Loader
  imports Go_Error
begin

text \<open>
  The boot loader (\<^verbatim>\<open>boot/loader/main.go\<close>): the init program of the first kernel, which mounts the
  root file system and either checks the signatures of the boot files and starts the second kernel, or
  switches to the root file system. The kernel's calls and the OpenPGP library are the fields of an
  environment; what the loader changes (mounts, modules, the staged kernel and who runs next) is the
  state. The lemmas show that only a kernel whose signature was checked is ever started.
\<close>

section \<open>The environment\<close>

text \<open>
  The packets of the OpenPGP library, as far as the loader tells them apart: signatures of both versions
  with their hash function, public keys and the rest.
\<close>

datatype ('h, 'g, 'k) packet = Signature 'h 'g | SignatureV3 'h 'g | PublicKey 'k | OtherPacket

text \<open>An open file: its name and contents, and whether seeking and reading work.\<close>

record ofile =
  Name :: string
  contents :: "u8 list"
  seeks :: bool
  reads :: bool

record mountPoint =
  mnt_source :: string
  mnt_target :: string
  mnt_fstype :: string
  mnt_readOnly :: bool
  mnt_data :: string

datatype handover = Kexec "u8 list" | SwitchRoot string string

record loader =
  mounts :: "mountPoint list"
  madeDirs :: "string list"
  modules :: "u8 list list"
  staged :: "u8 list option"
  handed :: "handover option"

text \<open>
  \<open>opens\<close> is what a path leads to under the mounts made so far (the newest first), \<open>glob\<close> the result of
  \<^verbatim>\<open>filepath.Glob\<close>, \<open>readsAt\<close> what \<^verbatim>\<open>ReadAt\<close> of 16 bytes gives, \<open>nextPacket\<close>, \<open>digest\<close> and the two
  verifications are the OpenPGP library, \<open>ticks\<close> whether the progress of a file comes to its end.
\<close>

record ('h, 'g, 'k) env =
  opens :: "mountPoint list \<Rightarrow> string \<Rightarrow> ofile option"
  mkdirs :: "string \<Rightarrow> bool"
  mountable :: "mountPoint \<Rightarrow> bool"
  glob :: "string list"
  readsAt :: "string \<Rightarrow> nat \<Rightarrow> u8 list option"
  nextPacket :: "u8 list \<Rightarrow> ('h, 'g, 'k) packet option"
  available :: "'h \<Rightarrow> bool"
  digest :: "'h \<Rightarrow> u8 list \<Rightarrow> u8 list"
  VerifySignature :: "'k \<Rightarrow> u8 list \<Rightarrow> 'g \<Rightarrow> bool"
  VerifySignatureV3 :: "'k \<Rightarrow> u8 list \<Rightarrow> 'g \<Rightarrow> bool"
  ticks :: "ofile \<Rightarrow> bool"
  FileInit :: "u8 list \<Rightarrow> bool"
  FileLoad :: "u8 list \<Rightarrow> bool"
  ImageLoad :: "u8 list \<Rightarrow> bool"
  Reboot :: bool
  switches :: bool

definition pubKeyPath :: string where "pubKeyPath = ''/u-bmc.pub''"
definition kernelPath :: string where "kernelPath = ''/ro/boot/zImage''"
definition dtbPath :: string where "dtbPath = ''/ro/boot/platform.dtb''"
definition initPath :: string where "initPath = ''/ro/bin/init''"

definition verify :: "string list" where
  "verify = [initPath, kernelPath, dtbPath]"

section \<open>Directories and mounts\<close>

definition osOpen :: "('h, 'g, 'k) env \<Rightarrow> string \<Rightarrow> (loader, ofile option) io" where
  "osOpen e path s = (Inr (opens e (mounts s) path), s)"

definition MkdirAll :: "('h, 'g, 'k) env \<Rightarrow> string \<Rightarrow> (loader, unit) io" where
  "MkdirAll e dir s =
     (if mkdirs e dir then (Inr (), s\<lparr>madeDirs := dir # madeDirs s\<rparr>) else (Inl (LogFatal (''Mkdir '' @ dir)), s))"

definition unixMount :: "('h, 'g, 'k) env \<Rightarrow> mountPoint \<Rightarrow> (loader, unit) io" where
  "unixMount e m s =
     (if mountable e m then (Inr (), s\<lparr>mounts := m # mounts s\<rparr>)
      else (Inl (LogFatal (''Mount '' @ mnt_source m)), s))"

text \<open>\<^verbatim>\<open>mount\<close>: an unknown name leaves \<^verbatim>\<open>err\<close> nil and mounts nothing.\<close>

definition mountOf :: "string \<Rightarrow> mountPoint option" where
  "mountOf fs =
     (if fs = ''proc'' then Some \<lparr>mnt_source = fs, mnt_target = ''/proc'', mnt_fstype = fs, mnt_readOnly = False, mnt_data = []\<rparr>
      else if fs = ''sysfs'' then Some \<lparr>mnt_source = fs, mnt_target = ''/sys'', mnt_fstype = fs, mnt_readOnly = False, mnt_data = []\<rparr>
      else if fs = ''devtmpfs'' then Some \<lparr>mnt_source = fs, mnt_target = ''/dev'', mnt_fstype = fs, mnt_readOnly = False, mnt_data = []\<rparr>
      else if fs = ''devpts'' then
        Some \<lparr>mnt_source = fs, mnt_target = ''/dev/pts'', mnt_fstype = fs, mnt_readOnly = False,
              mnt_data = ''newinstance,ptmxmode=666,gid=5,mode=620''\<rparr>
      else if fs = ''tmpfs'' then Some \<lparr>mnt_source = fs, mnt_target = ''/tmp'', mnt_fstype = fs, mnt_readOnly = False, mnt_data = []\<rparr>
      else if fs = ''overlayfs'' then
        Some \<lparr>mnt_source = fs, mnt_target = ''/mnt'', mnt_fstype = ''overlay'', mnt_readOnly = False,
              mnt_data = ''lowerdir=/ro,upperdir=/tmp/upper,workdir=/tmp/work''\<rparr>
      else None)"

definition mount :: "('h, 'g, 'k) env \<Rightarrow> string \<Rightarrow> (loader, unit) io" where
  "mount e fs = (case mountOf fs of None \<Rightarrow> ret () | Some m \<Rightarrow> unixMount e m)"

definition createBasicHirarchy :: "('h, 'g, 'k) env \<Rightarrow> (loader, unit) io" where
  "createBasicHirarchy e =
     thn (forM (MkdirAll e) [''/mnt'', ''/ro'', ''/tmp'', ''/proc'', ''/sys'', ''/dev''])
    (thn (forM (mount e) [''sysfs'', ''proc'', ''devtmpfs'', ''tmpfs''])
    (thn (MkdirAll e ''/dev/pts'')
         (mount e ''devpts'')))"

definition mountMtd :: "('h, 'g, 'k) env \<Rightarrow> (loader, unit) io" where
  "mountMtd e =
     unixMount e \<lparr>mnt_source = ''ubi0:root'', mnt_target = ''/ro'', mnt_fstype = ''ubifs'', mnt_readOnly = True, mnt_data = []\<rparr>"

definition erofsUuid :: "u8 list" where
  "erofsUuid = [0x26, 0xab, 0x04, 0x01, 0x3f, 0x49, 0x4f, 0xc2, 0xa1, 0x72, 0xc8, 0xaa, 0x02, 0xac, 0xea, 0xf3]"

text \<open>\<^verbatim>\<open>filepath.Base\<close>: the part after the last slash, trailing slashes ignored.\<close>

definition Base :: "string \<Rightarrow> string" where
  "Base p =
     (if p = [] then ''.''
      else let q = rev (dropWhile (\<lambda>c. c = CHR ''/'') (rev p)) in
           if q = [] then ''/'' else rev (takeWhile (\<lambda>c. c \<noteq> CHR ''/'') (rev q)))"

definition mountBlkDev :: "('h, 'g, 'k) env \<Rightarrow> string \<Rightarrow> (loader, unit) io" where
  "mountBlkDev e path =
     (let dev = ''/dev/'' @ Base path in
      bnd (osOpen e dev) (\<lambda>bd.
      case bd of
        None \<Rightarrow> raise (LogFatal (''Open '' @ dev))
      | Some _ \<Rightarrow>
          if readsAt e dev 1072 = Some erofsUuid
          then unixMount e \<lparr>mnt_source = dev, mnt_target = ''/ro'', mnt_fstype = ''erofs'', mnt_readOnly = True, mnt_data = []\<rparr>
          else ret ()))"

definition mountBlk :: "('h, 'g, 'k) env \<Rightarrow> (loader, unit) io" where
  "mountBlk e = forM (mountBlkDev e) (glob e)"

definition mountOverlay :: "('h, 'g, 'k) env \<Rightarrow> (loader, unit) io" where
  "mountOverlay e = thn (forM (MkdirAll e) [''/tmp/upper'', ''/tmp/work'']) (mount e ''overlayfs'')"

section \<open>Signatures\<close>

datatype verifyError =
    NoSuchFile string
  | ReadingSignature
  | UnsupportedSignature
  | SeekEnd
  | ReadError
  | BadSignature
  | NoPacket
  | NotAPublicKey

definition readPublicSigningKey :: "('h, 'g, 'k) env \<Rightarrow> ofile \<Rightarrow> verifyError + 'k" where
  "readPublicSigningKey e keyf =
     (case nextPacket e (contents keyf) of
        None \<Rightarrow> Inl NoPacket
      | Some (PublicKey k) \<Rightarrow> Inr k
      | Some _ \<Rightarrow> Inl NotAPublicKey)"

text \<open>
  \<^verbatim>\<open>verifyDetachedSignature\<close>: \<^verbatim>\<open>hashFunc.New\<close> panics for a function that is not linked in, and the wait
  for the last printout lasts as long as the progress of the file.
\<close>

definition verifyDetachedSignature ::
  "('h, 'g, 'k) env \<Rightarrow> ofile \<Rightarrow> ofile \<Rightarrow> 'k \<Rightarrow> (loader, verifyError, unit) eio" where
  "verifyDetachedSignature e contentf sigf key =
     (let check = (\<lambda>h ok.
        if \<not> seeks contentf then fail SeekEnd
        else if \<not> available e h then raise (LogPanic ''requested hash function is unavailable'')
        else if \<not> reads contentf then fail ReadError
        else if \<not> ticks e contentf then raise NoReturn
        else if ok (digest e h (contents contentf)) then succeed () else fail BadSignature) in
      case nextPacket e (contents sigf) of
        None \<Rightarrow> fail ReadingSignature
      | Some (Signature h g) \<Rightarrow> check h (\<lambda>d. VerifySignature e key d g)
      | Some (SignatureV3 h g) \<Rightarrow> check h (\<lambda>d. VerifySignatureV3 e key d g)
      | Some _ \<Rightarrow> fail UnsupportedSignature)"

definition openOrFail :: "('h, 'g, 'k) env \<Rightarrow> string \<Rightarrow> (loader, verifyError, ofile) eio" where
  "openOrFail e path =
     bnd (osOpen e path) (\<lambda>f. case f of None \<Rightarrow> fail (NoSuchFile path) | Some f \<Rightarrow> succeed f)"

definition openAndVerify :: "('h, 'g, 'k) env \<Rightarrow> string \<Rightarrow> 'k \<Rightarrow> (loader, verifyError, ofile) eio" where
  "openAndVerify e path key =
     ebnd (openOrFail e (path @ ''.gpg'')) (\<lambda>sigf.
     ebnd (openOrFail e path) (\<lambda>contentf.
     ethn (verifyDetachedSignature e contentf sigf key)
          (succeed contentf)))"

section \<open>Starting the system\<close>

text \<open>A call whose error ends the process.\<close>

definition orFatal :: "string \<Rightarrow> (loader, 'e, 'a) eio \<Rightarrow> (loader, 'a) io" where
  "orFatal what m = bnd m (\<lambda>r. case r of Inl _ \<Rightarrow> raise (LogFatal what) | Inr x \<Rightarrow> ret x)"

definition verifyPath :: "('h, 'g, 'k) env \<Rightarrow> 'k \<Rightarrow> string \<Rightarrow> (loader, unit) io" where
  "verifyPath e key path = bnd (orFatal (''openAndVerify '' @ path) (openAndVerify e path key)) (\<lambda>_. ret ())"

definition stage :: "(u8 list \<Rightarrow> bool) \<Rightarrow> string \<Rightarrow> ofile \<Rightarrow> (loader, unit) io" where
  "stage loads what f s =
     (if loads (contents f) then (Inr (), s\<lparr>staged := Some (contents f)\<rparr>) else (Inl (LogFatal what), s))"

text \<open>
  \<^verbatim>\<open>kexec.Reboot\<close> starts the staged kernel; without one the kernel refuses. A machine that has been
  handed over does not come back to the loader, the model lets the call return.
\<close>

definition kexecReboot :: "('h, 'g, 'k) env \<Rightarrow> (loader, unit) io" where
  "kexecReboot e s =
     (case staged s of
        Some k \<Rightarrow> if Reboot e then (Inr (), s\<lparr>handed := Some (Kexec k)\<rparr>) else (Inl (LogFatal ''Reboot''), s)
      | None \<Rightarrow> (Inl (LogFatal ''Reboot''), s))"

record flags =
  kload :: bool
  swroot :: bool
  mtd :: bool
  blk :: bool
  ast :: bool

definition mountRoot :: "('h, 'g, 'k) env \<Rightarrow> flags \<Rightarrow> (loader, unit) io" where
  "mountRoot e fl = thn (if mtd fl then mountMtd e else ret ()) (if blk fl then mountBlk e else ret ())"

text \<open>The lazily opened file of \<^verbatim>\<open>image.Load\<close> is opened by that call.\<close>

definition loadAndExec :: "('h, 'g, 'k) env \<Rightarrow> flags \<Rightarrow> (loader, unit) io" where
  "loadAndExec e fl =
     bnd (orFatal ''Open pubKeyPath'' (openOrFail e pubKeyPath)) (\<lambda>keyf.
     bnd (orFatal ''readPublicSigningKey'' (pure_result (readPublicSigningKey e keyf))) (\<lambda>key.
     thn (createBasicHirarchy e)
    (thn (mountRoot e fl)
    (thn (forM (verifyPath e key) verify)
    (bnd (orFatal ''Open kernelPath'' (openOrFail e kernelPath)) (\<lambda>kernel.
     thn (stage (FileLoad e) ''KexecFileLoad'' kernel)
    (bnd (orFatal ''Load kernelPath'' (openOrFail e kernelPath)) (\<lambda>kernel.
     thn (stage (ImageLoad e) ''Load kernelPath'' kernel)
         (kexecReboot e)))))))))"

definition switchRoot :: "('h, 'g, 'k) env \<Rightarrow> string \<Rightarrow> string \<Rightarrow> (loader, unit) io" where
  "switchRoot e newRoot initProg s =
     (if switches e then (Inr (), s\<lparr>handed := Some (SwitchRoot newRoot initProg)\<rparr>)
      else (Inl (LogFatal ''SwitchRoot''), s))"

definition mountAndSwitchRoot :: "('h, 'g, 'k) env \<Rightarrow> flags \<Rightarrow> (loader, unit) io" where
  "mountAndSwitchRoot e fl =
     thn (createBasicHirarchy e)
    (thn (mountRoot e fl)
    (thn (mountOverlay e)
         (switchRoot e ''/mnt'' ''/bin/init'')))"

definition loadModule :: "('h, 'g, 'k) env \<Rightarrow> string \<Rightarrow> (loader, verifyError, unit) eio" where
  "loadModule e fp =
     ebnd (openOrFail e fp) (\<lambda>f s.
       if FileInit e (contents f) then (Inr (Inr ()), s\<lparr>modules := contents f # modules s\<rparr>)
       else (Inr (Inl ReadError), s))"

definition loader_main :: "('h, 'g, 'k) env \<Rightarrow> flags \<Rightarrow> (loader, unit) io" where
  "loader_main e fl =
     (if mtd fl \<and> blk fl then raise (LogFatal ''mtd and blk are mutually exclusive!'')
      else if \<not> mtd fl \<and> \<not> blk fl then raise (LogFatal ''please choose either mtd or blk!'')
      else if kload fl \<and> swroot fl then raise (LogFatal ''kexec and switch are mutually exclusive!'')
      else if \<not> kload fl \<and> \<not> swroot fl then raise (LogFatal ''please choose either kexec or switch!'')
      else thn (if ast fl then orFatal ''loadModule'' (loadModule e ''/bootlock.ko'') else ret ())
          (thn (if kload fl then loadAndExec e fl else ret ())
               (if swroot fl then mountAndSwitchRoot e fl else ret ())))"

definition power_on :: loader where
  "power_on = \<lparr>mounts = [], madeDirs = [], modules = [], staged = None, handed = None\<rparr>"

section \<open>Lemmas\<close>

text \<open>What a detached signature by a key says of a file.\<close>

definition signs :: "('h, 'g, 'k) env \<Rightarrow> 'k \<Rightarrow> ofile \<Rightarrow> ofile \<Rightarrow> bool" where
  "signs e key sigf f =
     (case nextPacket e (contents sigf) of
        Some (Signature h g) \<Rightarrow> available e h \<and> VerifySignature e key (digest e h (contents f)) g
      | Some (SignatureV3 h g) \<Rightarrow> available e h \<and> VerifySignatureV3 e key (digest e h (contents f)) g
      | _ \<Rightarrow> False)"

text \<open>The file that a path leads to is signed by the file next to it.\<close>

definition verified :: "('h, 'g, 'k) env \<Rightarrow> mountPoint list \<Rightarrow> 'k \<Rightarrow> string \<Rightarrow> bool" where
  "verified e ms key path \<longleftrightarrow>
     (case (opens e ms (path @ ''.gpg''), opens e ms path) of
        (Some sigf, Some f) \<Rightarrow> signs e key sigf f
      | _ \<Rightarrow> False)"

text \<open>The file can be read to its end.\<close>

definition healthy :: "('h, 'g, 'k) env \<Rightarrow> mountPoint list \<Rightarrow> string \<Rightarrow> bool" where
  "healthy e ms path = (case opens e ms path of Some f \<Rightarrow> seeks f \<and> reads f \<and> ticks e f | None \<Rightarrow> False)"

lemma io_success:
  "thn m n s = (Inr x, t) \<longleftrightarrow> (\<exists>y u. m s = (Inr y, u) \<and> n u = (Inr x, t))"
  "bnd m f s = (Inr x, t) \<longleftrightarrow> (\<exists>y u. m s = (Inr y, u) \<and> f y u = (Inr x, t))"
  "ret y s = (Inr x, t) \<longleftrightarrow> x = y \<and> t = s"
  "raise p s = (Inr x, t) \<longleftrightarrow> False"
  by (auto simp: thn_def bnd_def ret_def raise_def split: prod.splits sum.splits)

lemma openOrFail_run:
  "openOrFail e path s =
     (Inr (case opens e (mounts s) path of None \<Rightarrow> Inl (NoSuchFile path) | Some f \<Rightarrow> Inr f), s)"
  by (simp add: openOrFail_def bnd_def osOpen_def fail_run succeed_run split: option.split)

lemma orFatal_success: "orFatal w m s = (Inr x, t) \<longleftrightarrow> m s = (Inr (Inr x), t)"
  by (auto simp: orFatal_def io_success split: sum.splits) (metis old.sum.exhaust sum.simps(5,6) io_success(3,4))+

lemma verifyDetachedSignature_success:
  "verifyDetachedSignature e f sigf key s = (Inr (Inr ()), t) \<longleftrightarrow>
     signs e key sigf f \<and> seeks f \<and> reads f \<and> ticks e f \<and> t = s"
  by (auto simp: verifyDetachedSignature_def signs_def fail_run succeed_run raise_def Let_def
      split: option.splits packet.splits if_splits)

lemma verifyPath_success:
  "verifyPath e key path s = (Inr (), t) \<longleftrightarrow>
     verified e (mounts s) key path \<and> healthy e (mounts s) path \<and> t = s"
  by (auto simp: verifyPath_def io_success orFatal_success openAndVerify_def ebnd_success ethn_def
      openOrFail_run succeed_run verifyDetachedSignature_success verified_def healthy_def
      split: option.splits)

lemma verifyAll_success:
  "forM (verifyPath e key) ps s = (Inr (), t) \<longleftrightarrow>
     (\<forall>p \<in> set ps. verified e (mounts s) key p \<and> healthy e (mounts s) p) \<and> t = s"
  by (induction ps arbitrary: t) (auto simp: io_success verifyPath_success)

text \<open>Until the very end of the loader, nothing is handed over, also if a call ends the process.\<close>

abbreviation keeps :: "(loader, 'a) io \<Rightarrow> bool" where
  "keeps m \<equiv> safe (\<lambda>s. handed s = None) (\<lambda>_. True) m"

named_theorems keeps_rules \<open>calls that hand nothing over\<close>

lemma keepsD: "keeps m \<Longrightarrow> m s = (r, t) \<Longrightarrow> handed s = None \<Longrightarrow> handed t = None"
  by (drule (1) safeD [where s = s and m = m]) auto

lemma safe_forM [safe_rules]: "(\<And>x. safe I P (f x)) \<Longrightarrow> safe I P (forM f xs)"
  by (induction xs) (auto intro: safe_rules)

lemma keeps_basic [keeps_rules]:
  "keeps (osOpen e path)" "keeps (MkdirAll e dir)" "keeps (unixMount e m)" "keeps (stage loads what f)"
  by (auto simp: safe_def osOpen_def MkdirAll_def unixMount_def stage_def)

lemma keeps_mount [keeps_rules]: "keeps (mount e fs)"
  by (auto simp: mount_def intro!: safe_rules keeps_rules)

lemma keeps_hierarchy [keeps_rules]: "keeps (createBasicHirarchy e)"
  by (auto simp: createBasicHirarchy_def intro!: safe_rules keeps_rules)

lemma keeps_mountRoot [keeps_rules]: "keeps (mountRoot e fl)"
  by (auto simp: mountRoot_def mountMtd_def mountBlk_def mountBlkDev_def Let_def intro!: safe_rules keeps_rules)

lemma keeps_overlay [keeps_rules]: "keeps (mountOverlay e)"
  by (auto simp: mountOverlay_def intro!: safe_rules keeps_rules)

lemma keeps_openOrFail [keeps_rules]: "keeps (openOrFail e path)"
  by (auto simp: openOrFail_def intro!: safe_rules keeps_rules)

lemma keeps_orFatal [keeps_rules]: "keeps m \<Longrightarrow> keeps (orFatal w m)"
  by (auto simp: orFatal_def intro!: safe_rules)

lemma keeps_module [keeps_rules]: "keeps (loadModule e fp)"
  unfolding loadModule_def by (intro safe_ebnd keeps_rules) (simp add: safe_def)

lemma keeps_verifyPath [keeps_rules]: "keeps (verifyPath e key path)"
proof -
  have "keeps (verifyDetachedSignature e f sigf key)" for f sigf
    by (auto simp: verifyDetachedSignature_def Let_def intro!: safe_rules split: option.split packet.split)
  then show ?thesis
    by (auto simp: verifyPath_def openAndVerify_def intro!: safe_rules keeps_rules)
qed

text \<open>A program whose last call is the only one to hand over does so only if all of it succeeds.\<close>

definition hands_last :: "(loader, unit) io \<Rightarrow> bool" where
  "hands_last m \<longleftrightarrow> (\<forall>s. handed s = None \<longrightarrow> handed (snd (m s)) \<noteq> None \<longrightarrow> fst (m s) = Inr ())"

lemma hands_last_thn: "keeps m \<Longrightarrow> hands_last n \<Longrightarrow> hands_last (thn m n)"
  unfolding hands_last_def
  by (intro allI, rename_tac s, case_tac "m s", case_tac a) (auto simp: thn_def bnd_def dest: keepsD)

lemma hands_last_bnd: "keeps m \<Longrightarrow> (\<And>x. hands_last (f x)) \<Longrightarrow> hands_last (bnd m f)"
  unfolding hands_last_def
  by (intro allI, rename_tac s, case_tac "m s", case_tac a) (auto simp: bnd_def dest: keepsD)

lemma hands_last_keeps: "keeps m \<Longrightarrow> hands_last m"
  unfolding hands_last_def by (metis keepsD prod.collapse)

lemma hands_last_if: "hands_last m \<Longrightarrow> hands_last n \<Longrightarrow> hands_last (if b then m else n)"
  by simp

lemmas hands_last_rules = hands_last_thn hands_last_bnd hands_last_if safe_pure_result keeps_rules

lemma hands_last_reboot: "hands_last (kexecReboot e)"
  by (auto simp: hands_last_def kexecReboot_def split: option.splits)

lemma hands_last_switch: "hands_last (switchRoot e r i)"
  by (auto simp: hands_last_def switchRoot_def)

lemma hands_last_loadAndExec: "hands_last (loadAndExec e fl)"
  unfolding loadAndExec_def
  by (intro hands_last_rules hands_last_reboot safe_forM)

lemma hands_last_mountAndSwitchRoot: "hands_last (mountAndSwitchRoot e fl)"
  unfolding mountAndSwitchRoot_def
  by (intro hands_last_rules hands_last_switch)

lemma stage_success:
  "stage loads what f s = (Inr x, t) \<longleftrightarrow> loads (contents f) \<and> t = s\<lparr>staged := Some (contents f)\<rparr>"
  by (auto simp: stage_def)

lemma openOrFail_success:
  "openOrFail e path s = (Inr (Inr f), t) \<longleftrightarrow> opens e (mounts s) path = Some f \<and> t = s"
  by (auto simp: openOrFail_run split: option.splits)

lemma pure_result_success: "pure_result r s = (Inr (Inr x), t) \<longleftrightarrow> r = Inr x \<and> t = s"
  by (auto simp: pure_result_def ret_def)

text \<open>\<^verbatim>\<open>loadAndExec\<close> returns (has started the kernel) exactly in this case.\<close>

lemma loadAndExec_success:
  "loadAndExec e fl s = (Inr (), t) \<longleftrightarrow>
     (\<exists>keyf key u kernel. opens e (mounts s) pubKeyPath = Some keyf \<and> readPublicSigningKey e keyf = Inr key \<and>
        thn (createBasicHirarchy e) (mountRoot e fl) s = (Inr (), u) \<and>
        (\<forall>path \<in> set verify. verified e (mounts u) key path \<and> healthy e (mounts u) path) \<and>
        opens e (mounts u) kernelPath = Some kernel \<and> FileLoad e (contents kernel) \<and>
        ImageLoad e (contents kernel) \<and> Reboot e \<and>
        t = u\<lparr>staged := Some (contents kernel), handed := Some (Kexec (contents kernel))\<rparr>)"
  by (auto simp: loadAndExec_def io_success openOrFail_success orFatal_success pure_result_success
      verifyAll_success stage_success kexecReboot_def split: if_splits)

text \<open>The modes of the loader, by its flags.\<close>

definition one_of :: "bool \<Rightarrow> bool \<Rightarrow> bool" where
  "one_of a b \<longleftrightarrow> (a \<and> \<not> b) \<or> (\<not> a \<and> b)"

lemma loader_main_success:
  "loader_main e fl s = (Inr (), t) \<longleftrightarrow>
     one_of (mtd fl) (blk fl) \<and> one_of (kload fl) (swroot fl) \<and>
     (\<exists>u. (if ast fl then loadModule e ''/bootlock.ko'' s = (Inr (Inr ()), u) else u = s) \<and>
          (if kload fl then loadAndExec e fl u = (Inr (), t) else mountAndSwitchRoot e fl u = (Inr (), t)))"
  by (auto simp: loader_main_def one_of_def io_success orFatal_success)

lemma hands_last_main: "hands_last (loader_main e fl)"
  by (cases "kload fl"; cases "swroot fl")
    (auto simp: loader_main_def intro!: safe_rules hands_last_rules hands_last_keeps [OF safe_raise]
      hands_last_loadAndExec hands_last_mountAndSwitchRoot)

lemma loadModule_mounts:
  "loadModule e fp s = (Inr (Inr ()), t) \<Longrightarrow> mounts t = mounts s \<and> handed t = handed s"
  by (auto simp: loadModule_def ebnd_success openOrFail_success split: if_splits)

lemma mountAndSwitchRoot_hands:
  "mountAndSwitchRoot e fl s = (Inr (), t) \<Longrightarrow> handed t = Some (SwitchRoot ''/mnt'' ''/bin/init'')"
  by (auto simp: mountAndSwitchRoot_def io_success switchRoot_def split: if_splits)

text \<open>The mounts of a root file system in flash, newest first.\<close>

definition base_mounts :: "mountPoint list" where
  "base_mounts = map (the \<circ> mountOf) [''devpts'', ''tmpfs'', ''devtmpfs'', ''proc'', ''sysfs'']"

definition mtd_mounts :: "mountPoint list" where
  "mtd_mounts = \<lparr>mnt_source = ''ubi0:root'', mnt_target = ''/ro'', mnt_fstype = ''ubifs'', mnt_readOnly = True, mnt_data = []\<rparr> # base_mounts"

lemma createBasicHirarchy_run:
  assumes "\<And>d. mkdirs e d" "\<And>m. mountable e m"
  shows "createBasicHirarchy e s = (Inr (),
     s\<lparr>mounts := base_mounts @ mounts s,
       madeDirs := [''/dev/pts'', ''/dev'', ''/sys'', ''/proc'', ''/tmp'', ''/ro'', ''/mnt''] @ madeDirs s\<rparr>)"
  using assms
  by (simp add: createBasicHirarchy_def base_mounts_def mount_def mountOf_def MkdirAll_def unixMount_def
      thn_run ret_run)

text \<open>
  Every block device with the expected identifier is mounted on the same directory; the newest mount, which hides the
  others, is the last such device in the order of the names.
\<close>

definition erofsMount :: "string \<Rightarrow> mountPoint" where
  "erofsMount path = \<lparr>mnt_source = ''/dev/'' @ Base path, mnt_target = ''/ro'', mnt_fstype = ''erofs'', mnt_readOnly = True, mnt_data = []\<rparr>"

lemma mountBlkDev_success:
  "mountBlkDev e p s = (Inr (), u) \<Longrightarrow>
   mounts u = (if readsAt e (''/dev/'' @ Base p) 1072 = Some erofsUuid then [erofsMount p] else []) @ mounts s"
  by (auto simp: mountBlkDev_def Let_def io_success osOpen_def unixMount_def erofsMount_def
      split: option.splits if_splits)

lemma mountBlk_mounts:
  "mountBlk e s = (Inr (), t) \<Longrightarrow>
   mounts t = rev (map erofsMount (filter (\<lambda>p. readsAt e (''/dev/'' @ Base p) 1072 = Some erofsUuid) (glob e))) @ mounts s"
proof -
  have "forM (mountBlkDev e) ps s = (Inr (), t) \<Longrightarrow>
    mounts t = rev (map erofsMount (filter (\<lambda>p. readsAt e (''/dev/'' @ Base p) 1072 = Some erofsUuid) ps)) @ mounts s" for ps
  proof (induction ps arbitrary: s)
    case (Cons p ps)
    then obtain u where u: "mountBlkDev e p s = (Inr (), u)" "forM (mountBlkDev e) ps u = (Inr (), t)"
      by (auto simp: io_success)
    from Cons.IH [OF u(2)] mountBlkDev_success [OF u(1)] show ?case by simp
  qed (simp add: ret_def)
  then show "mountBlk e s = (Inr (), t) \<Longrightarrow> ?thesis" by (simp add: mountBlk_def)
qed

lemma handed_power_on: "handed power_on = None"
  by (simp add: power_on_def)

section \<open>Properties\<close>

text \<open>A small environment for the witnesses: a signature is the file itself after a first byte 1, a key follows a 2.\<close>

definition demo_file :: "u8 list \<Rightarrow> ofile" where
  "demo_file c = \<lparr>Name = [], contents = c, seeks = True, reads = True\<rparr>"

definition demo_packet :: "u8 list \<Rightarrow> (unit, u8 list, unit) packet option" where
  "demo_packet b = (case b of [] \<Rightarrow> None | x # xs \<Rightarrow> Some (if x = 1 then Signature () xs else if x = 2 then PublicKey () else OtherPacket))"

definition demo_env :: "(unit, u8 list, unit) env" where
  "demo_env =
     \<lparr>opens = (\<lambda>ms p. if p = pubKeyPath then Some (demo_file [2])
                      else if ms = mtd_mounts \<and> p \<in> set verify then Some (demo_file [7, 8])
                      else if ms = mtd_mounts \<and> p \<in> set (map (\<lambda>q. q @ ''.gpg'') verify) then Some (demo_file [1, 7, 8])
                      else None),
      mkdirs = (\<lambda>_. True), mountable = (\<lambda>_. True), glob = [], readsAt = (\<lambda>_ _. None),
      nextPacket = demo_packet, available = (\<lambda>_. True), digest = (\<lambda>_ b. b),
      VerifySignature = (\<lambda>_ d g. d = g), VerifySignatureV3 = (\<lambda>_ _ _. False), ticks = (\<lambda>_. True),
      FileInit = (\<lambda>_. True), FileLoad = (\<lambda>_. True), ImageLoad = (\<lambda>_. True), Reboot = True, switches = True\<rparr>"

definition demo_flags :: flags where
  "demo_flags = \<lparr>kload = True, swroot = False, mtd = True, blk = False, ast = False\<rparr>"

lemma loader_boots_from_mtd:
  assumes "\<And>d. mkdirs e d" "\<And>m. mountable e m"
    and "opens e [] pubKeyPath = Some keyf" "readPublicSigningKey e keyf = Inr key"
    and "\<forall>path \<in> set verify. verified e mtd_mounts key path \<and> healthy e mtd_mounts path"
    and "opens e mtd_mounts kernelPath = Some kern" "FileLoad e (contents kern)" "ImageLoad e (contents kern)"
    and "Reboot e"
  shows "\<exists>t. loader_main e demo_flags power_on = (Inr (), t) \<and> handed t = Some (Kexec (contents kern)) \<and> mounts t = mtd_mounts"
proof -
  have root: "thn (createBasicHirarchy e) (mountRoot e demo_flags) power_on =
      (Inr (), power_on\<lparr>mounts := mtd_mounts, madeDirs := [''/dev/pts'', ''/dev'', ''/sys'', ''/proc'', ''/tmp'', ''/ro'', ''/mnt'']\<rparr>)"
    using assms(2)
    by (simp add: thn_run(1) [OF createBasicHirarchy_run [OF assms(1,2)]] mountRoot_def demo_flags_def
        mountMtd_def unixMount_def mtd_mounts_def power_on_def)
  have "\<exists>t. loadAndExec e demo_flags power_on = (Inr (), t) \<and> handed t = Some (Kexec (contents kern)) \<and> mounts t = mtd_mounts"
    unfolding loadAndExec_success root using assms(3-) by (force simp: power_on_def)
  then show ?thesis by (simp add: loader_main_success demo_flags_def one_of_def)
qed


lemma demo_boots: "handed (snd (loader_main demo_env demo_flags power_on)) = Some (Kexec [7, 8])"
proof -
  have paths: "\<forall>path \<in> set verify. verified demo_env mtd_mounts () path \<and> healthy demo_env mtd_mounts path"
    by (simp add: verify_def initPath_def kernelPath_def dtbPath_def pubKeyPath_def verified_def healthy_def
        signs_def demo_env_def demo_file_def demo_packet_def)
  have "opens demo_env [] pubKeyPath = Some (demo_file [2])"
    "readPublicSigningKey demo_env (demo_file [2]) = Inr ()"
    "opens demo_env mtd_mounts kernelPath = Some (demo_file [7, 8])"
    by (simp_all add: demo_env_def demo_file_def demo_packet_def readPublicSigningKey_def verify_def pubKeyPath_def
        initPath_def kernelPath_def dtbPath_def)
  from loader_boots_from_mtd [OF _ _ this(1,2) paths this(3)] show ?thesis
    by (auto simp: demo_env_def demo_file_def)
qed


end
