(* ===== verification/Console.thy ===== *)
theory Console
  imports Go_Prelude "HOL-Library.Sublist"
begin

text \<open>
  The host's serial console (\<^verbatim>\<open>pkg/bmc/uart.go\<close>) and the RPC that streams it (\<^verbatim>\<open>StreamConsole\<close> and
  \<^verbatim>\<open>streamIn\<close> of \<^verbatim>\<open>pkg/bmc/grpc.go\<close>). One goroutine reads the UART and offers what it has read to the
  queue of every reader, one writes to it, and every console has four more: the RPC itself, \<^verbatim>\<open>streamIn\<close>, the copier of
  its writer and the one that removes its reader. This is a step relation; a send on an unbuffered channel
  and its receive are one step, a section under the mutex is one step. The lemmas show which data reaches whom
  and in which order, what the metrics say and which goroutines never end.
\<close>

type_synonym buf = "u8 list"

section \<open>State\<close>

text \<open>
  The receiver is before a read; has read a buffer; offers it to the rest of the readers it has seen, with the sum \<^verbatim>\<open>p\<close> so far;
  has found a queue full, before the queue's length is added; has ended.
\<close>

datatype receiver = RRead | RGot buf | RSend buf "nat list" nat | RCount buf nat "nat list" nat | RDead

text \<open>The sender waits for data, writes what a console has sent, or has ended with a write error.\<close>

datatype sender = SWait | SWrite nat buf | SDead nat buf

text \<open>
  \<^verbatim>\<open>streamIn\<close> of a console: not started, before the gauge is counted up, before the reader is
  registered, waiting for the queue, sending a buffer to the client, ended by an error of that call.
\<close>

datatype streamer = INone | IStart | IAdd | IRange | ISend buf | IEnded buf

text \<open>The goroutine of a reader that waits for \<^verbatim>\<open>done\<close>, counts the gauge down and removes the reader.\<close>

datatype remover = MNone | MWait | MRemove | MGone

text \<open>\<^verbatim>\<open>StreamConsole\<close>: not called, waiting for the client, passing a message on, between its deferred calls, returned.\<close>

datatype rpc = CNone | CRecv | CPut buf | CClosing | CReturned

text \<open>The copier of a writer: not started, waiting for its channel, passing data on to the sender, ended.\<close>

datatype copier = KNone | KRange | KPut buf | KEnded

record uartSystem =
  cnt :: nat
  readers :: "nat list"
  stream :: "nat \<Rightarrow> buf list"
  doneClosed :: "nat \<Rightarrow> bool"
  wClosed :: "nat \<Rightarrow> bool"
  streamer :: "nat \<Rightarrow> streamer"
  remover :: "nat \<Rightarrow> remover"
  rpc :: "nat \<Rightarrow> rpc"
  copier :: "nat \<Rightarrow> copier"
  uartReceiver :: receiver
  uartSender :: sender
  uartConsumers :: int
  uartOverruns :: nat
  uartBufferedReads :: nat
  received :: "buf list"
  start :: "nat \<Rightarrow> nat"
  offered :: "nat \<Rightarrow> (buf \<times> bool) list"
  delivered :: "nat \<Rightarrow> buf list"
  accepted :: "nat \<Rightarrow> buf list"
  written :: "(nat \<times> buf) list"

text \<open>
  The fields from \<open>received\<close> on are the history: the buffers the receiver has taken from the UART, for
  each reader how many of them came before it, which ones it was offered and whether they were queued, what its client
  was sent, what its client has sent, and what was written to the UART.
\<close>

definition newUartSystem :: uartSystem where
  "newUartSystem =
     \<lparr>cnt = 0, readers = [], stream = (\<lambda>_. []), doneClosed = (\<lambda>_. False), wClosed = (\<lambda>_. False),
      streamer = (\<lambda>_. INone), remover = (\<lambda>_. MNone), rpc = (\<lambda>_. CNone), copier = (\<lambda>_. KNone),
      uartReceiver = RRead, uartSender = SWait, uartConsumers = 0, uartOverruns = 0, uartBufferedReads = 0,
      received = [], start = (\<lambda>_. 0), offered = (\<lambda>_. []), delivered = (\<lambda>_. []), accepted = (\<lambda>_. []), written = []\<rparr>"

text \<open>\<^verbatim>\<open>startUart\<close>: the result of opening the port is the argument.\<close>

definition startUart :: "'e + 'p \<Rightarrow> 'e + uartSystem" where
  "startUart port = (case port of Inl e \<Rightarrow> Inl e | Inr _ \<Rightarrow> Inr newUartSystem)"

section \<open>Steps\<close>

inductive step :: "uartSystem \<Rightarrow> uartSystem \<Rightarrow> bool" where
  Open: "i = cnt s \<Longrightarrow>
    step s (s\<lparr>cnt := cnt s + 1, streamer := (streamer s)(i := IStart), rpc := (rpc s)(i := CRecv),
              copier := (copier s)(i := KRange)\<rparr>)"
| Inc: "streamer s i = IStart \<Longrightarrow>
    step s (s\<lparr>uartConsumers := uartConsumers s + 1, streamer := (streamer s)(i := IAdd)\<rparr>)"
| Register: "streamer s i = IAdd \<Longrightarrow>
    step s (s\<lparr>readers := readers s @ [i], streamer := (streamer s)(i := IRange),
              remover := (remover s)(i := MWait), start := (start s)(i := length (received s))\<rparr>)"
| Dec: "remover s i = MWait \<Longrightarrow> doneClosed s i \<Longrightarrow>
    step s (s\<lparr>uartConsumers := uartConsumers s - 1, remover := (remover s)(i := MRemove)\<rparr>)"
| Remove: "remover s i = MRemove \<Longrightarrow>
    step s (s\<lparr>readers := filter (\<lambda>r. r \<noteq> i) (readers s), remover := (remover s)(i := MGone)\<rparr>)"
| Read: "uartReceiver s = RRead \<Longrightarrow> length b \<le> 128 \<Longrightarrow> step s (s\<lparr>uartReceiver := RGot b\<rparr>)"
| ReadError: "uartReceiver s = RRead \<Longrightarrow> step s (s\<lparr>uartReceiver := RDead\<rparr>)"
| Snapshot: "uartReceiver s = RGot b \<Longrightarrow>
    step s (s\<lparr>uartReceiver := RSend b (readers s) 0, received := received s @ [b]\<rparr>)"
| Offer: "uartReceiver s = RSend b (i # rs) p \<Longrightarrow> length (stream s i) < 1024 \<Longrightarrow>
    step s (s\<lparr>uartReceiver := RSend b rs p, stream := (stream s)(i := stream s i @ [b]),
              offered := (offered s)(i := offered s i @ [(b, True)])\<rparr>)"
| Overrun: "uartReceiver s = RSend b (i # rs) p \<Longrightarrow> \<not> length (stream s i) < 1024 \<Longrightarrow>
    step s (s\<lparr>uartReceiver := RCount b i rs p, uartOverruns := uartOverruns s + 1,
              offered := (offered s)(i := offered s i @ [(b, False)])\<rparr>)"
| Count: "uartReceiver s = RCount b i rs p \<Longrightarrow>
    step s (s\<lparr>uartReceiver := RSend b rs (p + length (stream s i))\<rparr>)"
| SetGauge: "uartReceiver s = RSend b [] p \<Longrightarrow>
    step s (s\<lparr>uartReceiver := RRead, uartBufferedReads := p\<rparr>)"
| Take: "streamer s i = IRange \<Longrightarrow> stream s i = b # q \<Longrightarrow>
    step s (s\<lparr>streamer := (streamer s)(i := ISend b), stream := (stream s)(i := q)\<rparr>)"
| Deliver: "streamer s i = ISend b \<Longrightarrow>
    step s (s\<lparr>streamer := (streamer s)(i := IRange), delivered := (delivered s)(i := delivered s i @ [b])\<rparr>)"
| SendError: "streamer s i = ISend b \<Longrightarrow> step s (s\<lparr>streamer := (streamer s)(i := IEnded b)\<rparr>)"
| Recv: "rpc s i = CRecv \<Longrightarrow>
    step s (s\<lparr>rpc := (rpc s)(i := CPut b), accepted := (accepted s)(i := accepted s i @ [b])\<rparr>)"
| RecvEnd: "rpc s i = CRecv \<Longrightarrow>
    step s (s\<lparr>rpc := (rpc s)(i := CClosing), wClosed := (wClosed s)(i := True)\<rparr>)"
| CloseDone: "rpc s i = CClosing \<Longrightarrow>
    step s (s\<lparr>rpc := (rpc s)(i := CReturned), doneClosed := (doneClosed s)(i := True)\<rparr>)"
| Put: "rpc s i = CPut b \<Longrightarrow> copier s i = KRange \<Longrightarrow>
    step s (s\<lparr>rpc := (rpc s)(i := CRecv), copier := (copier s)(i := KPut b)\<rparr>)"
| CopierEnd: "copier s i = KRange \<Longrightarrow> wClosed s i \<Longrightarrow> step s (s\<lparr>copier := (copier s)(i := KEnded)\<rparr>)"
| Copy: "copier s i = KPut b \<Longrightarrow> uartSender s = SWait \<Longrightarrow>
    step s (s\<lparr>copier := (copier s)(i := KRange), uartSender := SWrite i b\<rparr>)"
| Write: "uartSender s = SWrite i b \<Longrightarrow>
    step s (s\<lparr>uartSender := SWait, written := written s @ [(i, b)]\<rparr>)"
| WriteError: "uartSender s = SWrite i b \<Longrightarrow> step s (s\<lparr>uartSender := SDead i b\<rparr>)"

inductive reachable :: "uartSystem \<Rightarrow> bool" where
  Init: "reachable newUartSystem"
| Step: "reachable s \<Longrightarrow> step s t \<Longrightarrow> reachable t"

lemma reachable_invariant:
  assumes "reachable s" "I newUartSystem" "\<And>s t. step s t \<Longrightarrow> I s \<Longrightarrow> I t"
  shows "I s"
  using assms by (induction rule: reachable.induct) auto

section \<open>From the clients to the UART\<close>

text \<open>What a console's client has sent and is still on its way.\<close>

definition in_sender :: "sender \<Rightarrow> nat \<Rightarrow> buf list" where
  "in_sender w i = (case w of SWait \<Rightarrow> [] | SWrite j b \<Rightarrow> if j = i then [b] else [] | SDead j b \<Rightarrow> if j = i then [b] else [])"

definition in_copier :: "copier \<Rightarrow> buf list" where
  "in_copier k = (case k of KPut b \<Rightarrow> [b] | _ \<Rightarrow> [])"

definition in_rpc :: "rpc \<Rightarrow> buf list" where
  "in_rpc c = (case c of CPut b \<Rightarrow> [b] | _ \<Rightarrow> [])"

definition written_by :: "nat \<Rightarrow> (nat \<times> buf) list \<Rightarrow> buf list" where
  "written_by i w = map snd (filter (\<lambda>x. fst x = i) w)"

definition input_ok :: "uartSystem \<Rightarrow> nat \<Rightarrow> bool" where
  "input_ok s i \<longleftrightarrow>
     accepted s i = written_by i (written s) @ in_sender (uartSender s) i @ in_copier (copier s i) @ in_rpc (rpc s i) \<and>
     (cnt s \<le> i \<longrightarrow> rpc s i = CNone \<and> copier s i = KNone)"

lemmas input_defs = input_ok_def in_sender_def in_copier_def in_rpc_def written_by_def

lemma step_input:
  assumes "step s t" "input_ok s i"
  shows "input_ok t i"
  using assms by cases (auto simp: input_defs)

lemma reachable_input: "reachable s \<Longrightarrow> input_ok s i"
  by (erule reachable_invariant [where I = "\<lambda>s. input_ok s i"])
    (simp_all add: step_input, simp add: newUartSystem_def input_defs)

section \<open>From the UART to the clients\<close>

definition in_streamer :: "streamer \<Rightarrow> buf list" where
  "in_streamer k = (case k of ISend b \<Rightarrow> [b] | IEnded b \<Rightarrow> [b] | _ \<Rightarrow> [])"

definition rest :: "receiver \<Rightarrow> nat list" where
  "rest r = (case r of RSend b rs p \<Rightarrow> rs | RCount b j rs p \<Rightarrow> rs | _ \<Rightarrow> [])"

definition pending :: "receiver \<Rightarrow> nat \<Rightarrow> buf list" where
  "pending r i =
     (case r of RSend b rs p \<Rightarrow> if i \<in> set rs then [b] else []
              | RCount b j rs p \<Rightarrow> if i \<in> set rs then [b] else [] | _ \<Rightarrow> [])"

definition registered :: "streamer \<Rightarrow> bool" where
  "registered k \<longleftrightarrow> k \<noteq> INone \<and> k \<noteq> IStart \<and> k \<noteq> IAdd"

text \<open>How the list of readers, the goroutines of a console and its history fit together.\<close>

definition reader_ok :: "uartSystem \<Rightarrow> nat \<Rightarrow> bool" where
  "reader_ok s i \<longleftrightarrow>
     (streamer s i = INone \<longleftrightarrow> cnt s \<le> i) \<and>
     (i \<in> set (readers s) \<or> i \<in> set (rest (uartReceiver s)) \<longrightarrow> registered (streamer s i)) \<and>
     (registered (streamer s i) \<longleftrightarrow> remover s i \<noteq> MNone) \<and>
     (i \<in> set (readers s) \<longleftrightarrow> remover s i = MWait \<or> remover s i = MRemove) \<and>
     start s i \<le> length (received s) \<and>
     (\<not> registered (streamer s i) \<longrightarrow> offered s i = [] \<and> stream s i = [] \<and> delivered s i = [])"

definition readers_distinct :: "uartSystem \<Rightarrow> bool" where
  "readers_distinct s \<longleftrightarrow>
     distinct (readers s) \<and> distinct (rest (uartReceiver s)) \<and>
     (case uartReceiver s of RCount b i rs p \<Rightarrow> i \<notin> set rs | _ \<Rightarrow> True)"

text \<open>What was queued for a reader is with its client, on the way, or still in the queue.\<close>

definition queue_ok :: "uartSystem \<Rightarrow> nat \<Rightarrow> bool" where
  "queue_ok s i \<longleftrightarrow>
     delivered s i @ in_streamer (streamer s i) @ stream s i = map fst (filter snd (offered s i)) \<and>
     length (stream s i) \<le> 1024"

text \<open>What a reader was offered is what the UART gave, without gaps, from its registration on.\<close>

definition offered_ok :: "uartSystem \<Rightarrow> nat \<Rightarrow> bool" where
  "offered_ok s i \<longleftrightarrow>
     prefix (map fst (offered s i) @ pending (uartReceiver s) i) (drop (start s i) (received s)) \<and>
     (i \<in> set (readers s) \<longrightarrow>
        map fst (offered s i) @ pending (uartReceiver s) i = drop (start s i) (received s))"

lemma registered_simps [simp]:
  "\<not> registered INone" "\<not> registered IStart" "\<not> registered IAdd" "registered IRange"
  "registered (ISend b)" "registered (IEnded b)"
  by (simp_all add: registered_def)

lemma rest_simps [simp]:
  "rest RRead = []" "rest RDead = []" "rest (RGot b) = []" "rest (RSend b rs p) = rs" "rest (RCount b i rs p) = rs"
  by (simp_all add: rest_def)

lemma step_reader: "step s t \<Longrightarrow> reader_ok s i \<Longrightarrow> reader_ok t i"
  by (induction rule: step.induct) (simp_all add: reader_ok_def, auto)

lemma step_distinct:
  assumes "step s t" "\<And>i. reader_ok s i" "readers_distinct s"
  shows "readers_distinct t"
  using assms(1,3)
proof cases
  case (Register i)
  with assms(2) [of i] assms(3) show ?thesis by (auto simp: readers_distinct_def reader_ok_def)
qed (simp_all add: readers_distinct_def)

lemma reachable_readers: "reachable s \<Longrightarrow> readers_distinct s \<and> (\<forall>i. reader_ok s i)"
  by (erule reachable_invariant [where I = "\<lambda>s. readers_distinct s \<and> (\<forall>i. reader_ok s i)"])
    (simp_all add: step_reader step_distinct, simp add: newUartSystem_def readers_distinct_def reader_ok_def)

lemma pending_simps [simp]:
  "pending RRead i = []" "pending RDead i = []" "pending (RGot b) i = []"
  "pending (RSend b rs p) i = (if i \<in> set rs then [b] else [])"
  "pending (RCount b j rs p) i = (if i \<in> set rs then [b] else [])"
  by (simp_all add: pending_def)

lemma in_streamer_simps [simp]:
  "in_streamer INone = []" "in_streamer IStart = []" "in_streamer IAdd = []" "in_streamer IRange = []"
  "in_streamer (ISend b) = [b]" "in_streamer (IEnded b) = [b]"
  by (simp_all add: in_streamer_def)

lemma step_queue: "step s t \<Longrightarrow> reader_ok s i \<Longrightarrow> queue_ok s i \<Longrightarrow> queue_ok t i"
  by (induction rule: step.induct) (simp_all add: queue_ok_def reader_ok_def, auto)

lemma step_offered: "step s t \<Longrightarrow> reader_ok s i \<Longrightarrow> readers_distinct s \<Longrightarrow> offered_ok s i \<Longrightarrow> offered_ok t i"
proof (induction rule: step.induct)
  case (Snapshot s b)
  then show ?case by (auto simp: offered_ok_def reader_ok_def intro: prefix_prefix)
next
  case (Register s j)
  then show ?case by (auto simp: offered_ok_def reader_ok_def pending_def rest_def split: receiver.splits)
next
  case (Offer s b j rs p)
  then show ?case by (auto simp: offered_ok_def readers_distinct_def)
next
  case (Overrun s b j rs p)
  then show ?case by (auto simp: offered_ok_def readers_distinct_def)
qed (simp_all add: offered_ok_def)

lemma reachable_output:
  assumes "reachable s"
  shows "queue_ok s i \<and> offered_ok s i"
proof -
  let ?I = "\<lambda>s. readers_distinct s \<and> (\<forall>i. reader_ok s i) \<and> queue_ok s i \<and> offered_ok s i"
  have "?I newUartSystem"
    by (simp add: newUartSystem_def readers_distinct_def reader_ok_def queue_ok_def offered_ok_def)
  moreover have "step s t \<Longrightarrow> ?I s \<Longrightarrow> ?I t" for s t
    by (simp add: step_distinct step_reader step_queue step_offered)
  ultimately show ?thesis using reachable_invariant [OF assms, of ?I] by blast
qed

section \<open>The metrics\<close>

lemma sum_change:
  fixes i n :: nat
  assumes "i < n" "\<And>j. j \<noteq> i \<Longrightarrow> g j = f j"
  shows "(\<Sum>j<n. g j) + f i = (\<Sum>j<n. f j) + (g i :: nat)"
proof -
  have "(\<Sum>j\<in>{..<n} - {i}. g j) = (\<Sum>j\<in>{..<n} - {i}. f j)" by (intro sum.cong) (auto simp: assms(2))
  then show ?thesis
    using sum.remove [OF finite_lessThan, of i n f] sum.remove [OF finite_lessThan, of i n g] assms(1) by simp
qed

definition dropped :: "uartSystem \<Rightarrow> nat \<Rightarrow> nat" where
  "dropped s i = length (filter (\<lambda>x. \<not> snd x) (offered s i))"

definition overruns_ok :: "uartSystem \<Rightarrow> bool" where
  "overruns_ok s \<longleftrightarrow> uartOverruns s = (\<Sum>i<cnt s. dropped s i)"

text \<open>The sum that becomes the gauge counts the queues that were full only.\<close>

definition gauge_ok :: "uartSystem \<Rightarrow> bool" where
  "gauge_ok s \<longleftrightarrow>
     uartBufferedReads s \<le> 1024 * uartOverruns s \<and>
     (case uartReceiver s of RSend b rs p \<Rightarrow> p \<le> 1024 * uartOverruns s
        | RCount b i rs p \<Rightarrow> p + 1024 \<le> 1024 * uartOverruns s | _ \<Rightarrow> True)"

lemma step_overruns:
  assumes "step s t" "\<And>i. reader_ok s i" "overruns_ok s"
  shows "overruns_ok t"
  using assms(1)
proof cases
  case (Open i)
  then have "dropped t (cnt s) = 0" using assms(2) [of "cnt s"] by (simp add: dropped_def reader_ok_def)
  then show ?thesis using Open assms(3) by (simp add: overruns_ok_def dropped_def)
next
  case (Offer b i rs p)
  then have "dropped t = dropped s" by (auto simp: dropped_def)
  then show ?thesis using assms(3) Offer(1) by (simp add: overruns_ok_def)
next
  case (Overrun b i rs p)
  have "i < cnt s" using assms(2) [of i] Overrun(2) by (auto simp: reader_ok_def registered_def)
  then have "(\<Sum>j<cnt s. dropped t j) + dropped s i = (\<Sum>j<cnt s. dropped s j) + dropped t i"
    by (intro sum_change) (simp_all add: Overrun(1) dropped_def)
  moreover have "dropped t i = dropped s i + 1" by (simp add: Overrun(1) dropped_def)
  ultimately show ?thesis using assms(3) by (simp add: Overrun(1) overruns_ok_def)
qed (use assms(3) in \<open>simp_all add: overruns_ok_def dropped_def\<close>)

lemma step_gauge:
  assumes "step s t" "\<And>i. queue_ok s i" "gauge_ok s"
  shows "gauge_ok t"
  using assms(1)
proof cases
  case (Count b i rs p)
  with assms(2) [of i] assms(3) show ?thesis by (simp add: gauge_ok_def queue_ok_def)
qed (use assms(3) in \<open>auto simp: gauge_ok_def split: receiver.splits\<close>)

lemma reachable_metrics:
  assumes "reachable s"
  shows "overruns_ok s \<and> gauge_ok s"
  using assms
proof (induction rule: reachable.induct)
  case Init
  then show ?case by (simp add: newUartSystem_def overruns_ok_def gauge_ok_def dropped_def)
next
  case (Step s t)
  then show ?case using reachable_readers [of s] reachable_output [of s]
    by (simp add: step_overruns step_gauge)
qed

lemma filter_snd_all: "length (filter (\<lambda>x. \<not> snd x) xs) = 0 \<Longrightarrow> filter snd xs = xs"
  by (induction xs) (auto split: if_splits)

lemma not_dropped:
  assumes "reachable s" "uartOverruns s = 0" "i \<in> set (readers s)"
  shows "filter snd (offered s i) = offered s i"
proof -
  have "i < cnt s"
    using reachable_readers [OF assms(1), THEN conjunct2, rule_format, of i] assms(3)
    by (auto simp: reader_ok_def registered_def not_le)
  moreover have "(\<Sum>j<cnt s. dropped s j) = 0"
    using reachable_metrics [OF assms(1)] assms(2) by (simp add: overruns_ok_def)
  ultimately have "dropped s i = 0" by simp
  then show ?thesis unfolding dropped_def by (rule filter_snd_all)
qed

section \<open>Goroutines that stay\<close>

text \<open>The console is over, but \<^verbatim>\<open>streamIn\<close> waits for a queue that nobody fills or closes.\<close>

definition left_behind :: "uartSystem \<Rightarrow> nat \<Rightarrow> bool" where
  "left_behind s i \<longleftrightarrow>
     streamer s i = IRange \<and> stream s i = [] \<and> remover s i = MGone \<and> i \<notin> set (rest (uartReceiver s))"

lemma step_left_behind: "step s t \<Longrightarrow> reader_ok s i \<Longrightarrow> left_behind s i \<Longrightarrow> left_behind t i"
  by (induction rule: step.induct) (auto simp: left_behind_def reader_ok_def)

lemma left_behind_stays:
  assumes "step\<^sup>*\<^sup>* s t" "reader_ok s i" "left_behind s i"
  shows "left_behind t i \<and> reader_ok t i"
  using assms by (induction rule: rtranclp_induct) (auto intro: step_left_behind step_reader)

text \<open>The sender has ended with an error: data that is passed on waits forever.\<close>

definition clogged :: "uartSystem \<Rightarrow> nat \<Rightarrow> bool" where
  "clogged s i \<longleftrightarrow>
     (\<exists>j b. uartSender s = SDead j b) \<and> (\<exists>c. rpc s i = CPut c) \<and> (\<exists>d. copier s i = KPut d)"

lemma step_clogged: "step s t \<Longrightarrow> input_ok s i \<Longrightarrow> clogged s i \<Longrightarrow> clogged t i"
  by (induction rule: step.induct) (auto simp: clogged_def input_ok_def)

lemma clogged_stays:
  assumes "step\<^sup>*\<^sup>* s t" "input_ok s i" "clogged s i"
  shows "clogged t i \<and> input_ok t i"
  using assms by (induction rule: rtranclp_induct) (auto intro: step_clogged step_input)

section \<open>Properties\<close>

text \<open>Runs for the witnesses: a console that is opened, used and closed.\<close>

definition registered_console :: uartSystem where
  "registered_console =
     newUartSystem\<lparr>cnt := 1, readers := [0], streamer := (\<lambda>_. INone)(0 := IRange), remover := (\<lambda>_. MNone)(0 := MWait),
       rpc := (\<lambda>_. CNone)(0 := CRecv), copier := (\<lambda>_. KNone)(0 := KRange), uartConsumers := 1\<rparr>"

lemma registered_console_reachable: "reachable registered_console"
proof -
  note r = Step [OF Init step.Open [OF refl]]
  note r = Step [OF r step.Inc [of _ 0]]
  note r = Step [OF r step.Register [of _ 0]]
  show ?thesis using r by (simp add: registered_console_def newUartSystem_def fun_upd_def cong: if_cong)
qed

definition queued_console :: uartSystem where
  "queued_console =
     registered_console\<lparr>stream := (\<lambda>_. [])(0 := [[65]]), received := [[65]], offered := (\<lambda>_. [])(0 := [([65], True)]),
       rpc := (\<lambda>_. CNone)(0 := CPut [66]), accepted := (\<lambda>_. [])(0 := [[66]])\<rparr>"

lemma queued_console_reachable: "reachable queued_console"
proof -
  note r = Step [OF registered_console_reachable step.Read [where b = "[65]"]]
  note r = Step [OF r step.Snapshot [where b = "[65]"]]
  note r = Step [OF r step.Offer [of _ "[65]" 0 "[]" 0]]
  note r = Step [OF r step.SetGauge [of _ "[65]" 0]]
  note r = Step [OF r step.Recv [of _ 0 "[66]"]]
  show ?thesis using r by (simp add: queued_console_def registered_console_def newUartSystem_def fun_upd_def cong: if_cong)
qed

definition closed_console :: uartSystem where
  "closed_console =
     registered_console\<lparr>readers := [], remover := (\<lambda>_. MNone)(0 := MGone), rpc := (\<lambda>_. CNone)(0 := CReturned),
       wClosed := (\<lambda>_. False)(0 := True), doneClosed := (\<lambda>_. False)(0 := True), uartConsumers := 0\<rparr>"

lemma closed_console_reachable: "reachable closed_console"
proof -
  note r = Step [OF registered_console_reachable step.RecvEnd [of _ 0]]
  note r = Step [OF r step.CloseDone [of _ 0]]
  note r = Step [OF r step.Dec [of _ 0]]
  note r = Step [OF r step.Remove [of _ 0]]
  show ?thesis using r by (simp add: closed_console_def registered_console_def newUartSystem_def fun_upd_def cong: if_cong)
qed

text \<open>C28.
  What a console's client sends goes to the UART in its order, without loss and without repetition: it is what was
  written for this console, followed by at most three messages in the hands of the sender, of the writer's copier and of the RPC.
\<close>

theorem console_input:
  assumes "reachable s"
  shows "accepted s i =
    written_by i (written s) @ in_sender (uartSender s) i @ in_copier (copier s i) @ in_rpc (rpc s i)"
  using reachable_input [OF assms, of i] by (simp add: input_ok_def)

theorem console_input_witness:
  "accepted queued_console 0 =
    written_by 0 (written queued_console) @ in_sender (uartSender queued_console) 0 @
    in_copier (copier queued_console 0) @ in_rpc (rpc queued_console 0) \<and> accepted queued_console 0 = [[66]]"
  using console_input [OF queued_console_reachable, of 0] by (simp add: queued_console_def)



text \<open>As long as no queue has been full, a registered reader loses nothing: what its client was sent, what is on the way
  and what is queued are together everything the UART gave since the registration.
\<close>

theorem console_lossless:
  assumes "reachable s" "uartOverruns s = 0" "i \<in> set (readers s)"
  shows "delivered s i @ in_streamer (streamer s i) @ stream s i @ pending (uartReceiver s) i =
    drop (start s i) (received s)"
  using reachable_output [OF assms(1), of i] not_dropped [OF assms] assms(3)
  by (simp add: queue_ok_def offered_ok_def flip: append_assoc)

theorem console_lossless_witness:
  "delivered queued_console 0 @ in_streamer (streamer queued_console 0) @ stream queued_console 0 @
     pending (uartReceiver queued_console) 0 = drop (start queued_console 0) (received queued_console) \<and>
   received queued_console = [[65]]"
  using console_lossless [OF queued_console_reachable, of 0]
  by (simp add: queued_console_def registered_console_def newUartSystem_def)

text \<open>The gauge of buffered reads counts only queues that were just found full: as long as nothing has been
  dropped it is 0, however much the queues hold.
\<close>

theorem console_gauge:
  assumes "reachable s"
  shows "uartBufferedReads s \<le> 1024 * uartOverruns s"
  using reachable_metrics [OF assms] by (simp add: gauge_ok_def)

theorem console_gauge_witness:
  "stream queued_console 0 \<noteq> [] \<and> uartBufferedReads queued_console = 0 \<and>
   uartBufferedReads queued_console \<le> 1024 * uartOverruns queued_console"
  using console_gauge [OF queued_console_reachable]
  by (simp add: queued_console_def registered_console_def newUartSystem_def)

text \<open>A console whose RPC has returned leaves its \<^verbatim>\<open>streamIn\<close> behind: once the reader is removed and its queue is
  empty, \<^verbatim>\<open>streamIn\<close> waits in every later state, since nobody closes the reader's channel.
\<close>

theorem console_reader_leaks:
  assumes "reachable s" "streamer s i = IRange" "stream s i = []" "remover s i = MGone"
    "uartReceiver s = RRead" "step\<^sup>*\<^sup>* s t"
  shows "streamer t i = IRange"
proof -
  have "left_behind s i" using assms(2-5) by (simp add: left_behind_def)
  with left_behind_stays [OF assms(6), of i] reachable_readers [OF assms(1)] show ?thesis
    by (simp add: left_behind_def)
qed

theorem console_reader_leaks_witness:
  "rpc closed_console 0 = CReturned \<and> streamer closed_console 0 = IRange \<and>
   (\<forall>t. step\<^sup>*\<^sup>* closed_console t \<longrightarrow> streamer t 0 = IRange)"
  using console_reader_leaks [OF closed_console_reachable, of 0]
  by (simp add: closed_console_def registered_console_def newUartSystem_def)

end
