(* ===== verification/Go_Strconv.thy ===== *)
theory Go_Strconv
  imports Go_Prelude
begin

text \<open>
  Numbers as text: the parts of \<^verbatim>\<open>strconv\<close> and \<^verbatim>\<open>fmt\<close> that the programs of this repository use for
  signed numbers and for other bases, with the lemmas that parsing gives back what was printed.
\<close>

section \<open>Printing\<close>

definition hex_char :: "nat \<Rightarrow> char" where
  "hex_char d = (if d < 10 then char_of (48 + d) else char_of (87 + d))"

fun show_hex_nat :: "nat \<Rightarrow> string" where
  "show_hex_nat n = (if n < 16 then [hex_char n] else show_hex_nat (n div 16) @ [hex_char (n mod 16)])"

declare show_hex_nat.simps [simp del]

text \<open>\<^verbatim>\<open>%d\<close>, \<^verbatim>\<open>%x\<close> and \<^verbatim>\<open>%08x\<close> on signed numbers.\<close>

definition show_int :: "int \<Rightarrow> string" where
  "show_int i = (if i < 0 then CHR ''-'' # show_nat (nat (- i)) else show_nat (nat i))"

definition show_hex :: "int \<Rightarrow> string" where
  "show_hex i = (if i < 0 then CHR ''-'' # show_hex_nat (nat (- i)) else show_hex_nat (nat i))"

definition show_hex8 :: "int \<Rightarrow> string" where
  "show_hex8 i =
     (let d = show_hex_nat (nat \<bar>i\<bar>) in
      if i < 0 then CHR ''-'' # replicate (7 - length d) CHR ''0'' @ d else replicate (8 - length d) CHR ''0'' @ d)"

section \<open>Parsing\<close>

definition in_range :: "nat \<Rightarrow> int \<Rightarrow> bool" where
  "in_range bits i \<longleftrightarrow> - (2 ^ (bits - 1)) \<le> i \<and> i < 2 ^ (bits - 1)"

definition signed_of :: "nat \<Rightarrow> bool \<Rightarrow> nat option \<Rightarrow> int option" where
  "signed_of bits neg r =
     (case r of None \<Rightarrow> None
      | Some n \<Rightarrow> let i = (if neg then - int n else int n) in if in_range bits i then Some i else None)"

definition split_sign :: "string \<Rightarrow> bool \<times> string" where
  "split_sign s =
     (case s of [] \<Rightarrow> (False, [])
      | c # cs \<Rightarrow> if c = CHR ''-'' then (True, cs) else if c = CHR ''+'' then (False, cs) else (False, s))"

text \<open>\<^verbatim>\<open>strconv.Atoi\<close> for an \<^verbatim>\<open>int\<close> of the given width.\<close>

definition Atoi :: "nat \<Rightarrow> string \<Rightarrow> int option" where
  "Atoi bits s =
     (case split_sign s of (neg, ds) \<Rightarrow>
        if ds = [] then None else signed_of bits neg (parse_digits 0 ds))"

definition lower :: "char \<Rightarrow> char" where
  "lower c = (let n = of_char c :: nat in if 65 \<le> n \<and> n \<le> 90 then char_of (n + 32) else c)"

definition digit_in :: "nat \<Rightarrow> char \<Rightarrow> nat option" where
  "digit_in base c =
     (let n = of_char (lower c) :: nat;
          d = (if 48 \<le> n \<and> n \<le> 57 then n - 48 else if 97 \<le> n \<and> n \<le> 122 then n - 87 else base)
      in if d < base then Some d else None)"

text \<open>The digits of a number in a base, with underscores between them left out.\<close>

fun parse_in :: "nat \<Rightarrow> nat \<Rightarrow> string \<Rightarrow> nat option" where
  "parse_in base acc [] = Some acc"
| "parse_in base acc (c # cs) =
     (if c = CHR ''_'' then parse_in base acc cs
      else case digit_in base c of None \<Rightarrow> None | Some d \<Rightarrow> parse_in base (acc * base + d) cs)"

text \<open>The rule for underscores: \<open>None\<close> before the first character, then whether the last one was a digit, an underscore or other.\<close>

datatype lastChar = Begin | Digit | Under | Other

fun underscores :: "bool \<Rightarrow> lastChar \<Rightarrow> string \<Rightarrow> bool" where
  "underscores hex i [] = (i \<noteq> Under)"
| "underscores hex i (c # cs) =
     (if digit_in (if hex then 16 else 10) c \<noteq> None then underscores hex Digit cs
      else if c = CHR ''_'' then i = Digit \<and> underscores hex Under cs
      else i \<noteq> Under \<and> underscores hex Other cs)"

definition base_of :: "char \<Rightarrow> nat option" where
  "base_of c =
     (if lower c = CHR ''b'' then Some 2 else if lower c = CHR ''o'' then Some 8
      else if lower c = CHR ''x'' then Some 16 else None)"

definition underscoreOK :: "string \<Rightarrow> bool" where
  "underscoreOK s =
     (case s of
        z # c # cs \<Rightarrow>
          if z = CHR ''0'' \<and> base_of c \<noteq> None then underscores (base_of c = Some 16) Digit cs
          else underscores False Begin s
      | _ \<Rightarrow> underscores False Begin s)"

text \<open>The base and the digits of a number whose base is told by its prefix.\<close>

definition split_base :: "string \<Rightarrow> nat \<times> string" where
  "split_base s =
     (case s of
        z # cs \<Rightarrow>
          if z \<noteq> CHR ''0'' then (10, s)
          else (case cs of
                  c # d # ds \<Rightarrow> (case base_of c of Some b \<Rightarrow> (b, d # ds) | None \<Rightarrow> (8, cs))
                | _ \<Rightarrow> (8, cs))
      | [] \<Rightarrow> (10, []))"

text \<open>\<^verbatim>\<open>strconv.ParseInt(s, 0, bits)\<close>: a syntax or a range error is \<open>None\<close>.\<close>

definition ParseInt0 :: "nat \<Rightarrow> string \<Rightarrow> int option" where
  "ParseInt0 bits s =
     (case split_sign s of (neg, t) \<Rightarrow>
        if t = [] then None
        else case split_base t of (base, ds) \<Rightarrow>
          case parse_in base 0 ds of
            None \<Rightarrow> None
          | Some n \<Rightarrow>
              if CHR ''_'' \<in> set ds \<and> \<not> underscoreOK t then None else signed_of bits neg (Some n))"

section \<open>Parsing what was printed\<close>

lemma show_nat_first: "\<exists>c cs. show_nat n = c # cs \<and> char_digit c \<noteq> None"
proof (induction n rule: show_nat.induct)
  case (1 n)
  show ?case
  proof (cases "n < 10")
    case False
    with 1 obtain c cs where "show_nat (n div 10) = c # cs" "char_digit c \<noteq> None" by blast
    with False show ?thesis by (subst show_nat.simps) simp
  qed auto
qed

lemma signs_are_no_digits [simp]: "char_digit CHR ''-'' = None" "char_digit CHR ''+'' = None"
  by (simp_all add: char_digit_def)

lemma split_sign_show_nat: "split_sign (show_nat n) = (False, show_nat n)"
  using show_nat_first [of n] by (auto simp: split_sign_def)

lemma Atoi_show_int:
  assumes "in_range bits i"
  shows "Atoi bits (show_int i) = Some i"
proof (cases "i < 0")
  case True
  then show ?thesis using assms
    by (simp add: Atoi_def show_int_def split_sign_def parse_digits_show signed_of_def)
next
  case False
  then show ?thesis using assms
    by (simp add: Atoi_def show_int_def split_sign_show_nat parse_digits_show signed_of_def)
qed

lemma lower_char_of: "k < 256 \<Longrightarrow> \<not> (65 \<le> k \<and> k \<le> 90) \<Longrightarrow> lower (char_of k) = char_of (k :: nat)"
  by (simp add: lower_def)

lemma digit_in_hex_char: "d < 16 \<Longrightarrow> digit_in 16 (hex_char d) = Some d"
  by (cases "d < 10") (simp_all add: digit_in_def hex_char_def lower_char_of)

lemma digit_in_underscore [simp]: "digit_in 16 CHR ''_'' = None"
  by (simp add: digit_in_def lower_def)

lemma hex_char_no_underscore: "d < 16 \<Longrightarrow> hex_char d \<noteq> CHR ''_''"
  using digit_in_hex_char [of d] by auto

lemma parse_in_append:
  "parse_in base acc (xs @ ys) = (case parse_in base acc xs of None \<Rightarrow> None | Some a \<Rightarrow> parse_in base a ys)"
  by (induction base acc xs rule: parse_in.induct) (auto split: option.split)

lemma parse_show_hex: "parse_in 16 0 (show_hex_nat n) = Some n \<and> CHR ''_'' \<notin> set (show_hex_nat n) \<and> show_hex_nat n \<noteq> []"
proof (induction n rule: show_hex_nat.induct)
  case (1 n)
  show ?case
  proof (cases "n < 16")
    case True
    with digit_in_hex_char [of n] hex_char_no_underscore [of n] show ?thesis by (subst (1 2 3) show_hex_nat.simps) auto
  next
    case False
    with 1 digit_in_hex_char [of "n mod 16"] hex_char_no_underscore [of "n mod 16"] show ?thesis
      by (subst (1 2 3) show_hex_nat.simps) (auto simp: parse_in_append)
  qed
qed

lemma ParseInt0_show_hex:
  assumes "0 \<le> i" "in_range bits i"
  shows "ParseInt0 bits (''0x'' @ show_hex i) = Some i"
proof -
  note p = parse_show_hex [of "nat i"]
  obtain c cs where c: "show_hex_nat (nat i) = c # cs" using p by (cases "show_hex_nat (nat i)") auto
  have "split_base (CHR ''0'' # CHR ''x'' # show_hex_nat (nat i)) = (16, show_hex_nat (nat i))"
    unfolding c by (simp add: split_base_def base_of_def lower_def)
  then show ?thesis using assms p
    by (simp add: ParseInt0_def show_hex_def split_sign_def signed_of_def)
qed

end
