(* ===== verification/Boot_Layout.thy ===== *)
theory Boot_Layout
  imports Go_Strconv
begin

text \<open>
  The tools that place things at build time: \<^verbatim>\<open>platform/cmd/boot-config\<close> puts the device tree and the
  initial RAM disk at the end of the RAM, \<^verbatim>\<open>platform/cmd/flash-layout\<close> splits the flash between the boot loader and the
  file system. Sizes of files are arguments, all arithmetic is on \<^verbatim>\<open>int64\<close>.
\<close>

unbundle bit_operations_syntax

abbreviation i64 :: "int \<Rightarrow> int" where
  "i64 x \<equiv> wrap 64 x"

section \<open>boot-config\<close>

record bootConfig =
  initrdStart :: int
  initrdEnd :: int
  dtbStart :: int
  ramStart :: int
  ramSize :: int
  ramEnd :: int

definition bootLayout :: "int \<Rightarrow> int \<Rightarrow> int \<Rightarrow> int \<Rightarrow> bootConfig" where
  "bootLayout dtbSize initrdSize rs rz =
     (let re = i64 (rs + rz);
          ds = i64 (re - dtbSize) AND NOT 0x3;
          ie = i64 (ds - 64 * 1024);
          is = i64 (ie - initrdSize) AND NOT (64 * 1024 - 1);
          ie = i64 (is + initrdSize)
      in \<lparr>initrdStart = is, initrdEnd = ie, dtbStart = ds, ramStart = rs, ramSize = rz, ramEnd = re\<rparr>)"

abbreviation nl :: string where
  "nl \<equiv> [CHR 0x0A]"

definition bootConfigText :: "bootConfig \<Rightarrow> string" where
  "bootConfigText c =
     nl @
     ''#define CONFIG_INITRD_START 0x'' @ show_hex (initrdStart c) @ nl @
     ''#define CONFIG_INITRD_END   0x'' @ show_hex (initrdEnd c) @ nl @
     ''#define CONFIG_DTB_START    0x'' @ show_hex (dtbStart c) @ nl @
     ''#define CONFIG_DTB_END      CONFIG_RAM_END'' @ nl @
     ''#define CONFIG_RAM_START    0x'' @ show_hex (ramStart c) @ nl @
     ''#define CONFIG_RAM_SIZE     0x'' @ show_hex (ramSize c) @ nl @
     ''#define CONFIG_RAM_END      0x'' @ show_hex (ramEnd c) @ nl"

text \<open>\<^verbatim>\<open>main\<close>: the sizes of the two files (\<open>None\<close> if there is no such file) and the two flags; an error is the message's head.\<close>

definition boot_config_main :: "int option \<Rightarrow> int option \<Rightarrow> string \<Rightarrow> string \<Rightarrow> string + string" where
  "boot_config_main dtb initrd ramStartStr ramSizeStr =
     (case dtb of None \<Rightarrow> Inl ''os.Stat dtb''
      | Some d \<Rightarrow>
          (case initrd of None \<Rightarrow> Inl ''os.Stat initrd''
           | Some i \<Rightarrow>
               (case ParseInt0 64 ramStartStr of None \<Rightarrow> Inl ''strconv.ParseInt ram-start''
                | Some rs \<Rightarrow>
                    (case ParseInt0 64 ramSizeStr of None \<Rightarrow> Inl ''strconv.ParseInt ram-size''
                     | Some rz \<Rightarrow> Inr (bootConfigText (bootLayout d i rs rz))))))"

section \<open>flash-layout\<close>

text \<open>The sizes of the files in the order of the arguments; a missing one ends the program.\<close>

fun totalSize :: "int \<Rightarrow> int option list \<Rightarrow> int option" where
  "totalSize acc [] = Some acc"
| "totalSize acc (None # fs) = None"
| "totalSize acc (Some n # fs) = totalSize (i64 (acc + n)) fs"

definition flashSplit :: "int \<Rightarrow> int" where
  "flashSplit sz = i64 ((sz AND NOT (2 ^ 16 - 1)) + 64 * 1024)"

abbreviation tab :: string where
  "tab \<equiv> [CHR 0x09]"

abbreviation quoted :: "string \<Rightarrow> string" where
  "quoted s \<equiv> [CHR 0x22] @ s @ [CHR 0x22]"

definition flashLayoutText :: "int \<Rightarrow> string" where
  "flashLayoutText sz =
     (let split = flashSplit sz in
      nl @ ''// AUTOGENERATED BY flash-layout'' @ nl @
      ''// SIZE='' @ show_int split @ nl @
      ''partitions {'' @ nl @
      tab @ ''compatible = '' @ quoted ''fixed-partitions'' @ '';'' @ nl @
      tab @ ''#address-cells = <1>;'' @ nl @
      tab @ ''#size-cells = <1>;'' @ nl @ nl @
      tab @ ''u-boot@0 {'' @ nl @
      tab @ tab @ ''reg = <0x0 0x'' @ show_hex8 split @ ''>;'' @ nl @
      tab @ tab @ ''label = '' @ quoted ''u-boot'' @ '';'' @ nl @
      tab @ ''};'' @ nl @ nl @
      tab @ ''ubi@'' @ show_hex split @ '' {'' @ nl @
      tab @ tab @ ''reg = <0x'' @ show_hex8 split @ '' 0x0>;'' @ nl @
      tab @ tab @ ''label = '' @ quoted ''ubi'' @ '';'' @ nl @
      tab @ ''};'' @ nl @
      ''};'' @ nl)"

definition flash_layout_main :: "int \<Rightarrow> int option list \<Rightarrow> string option" where
  "flash_layout_main extra files = map_option flashLayoutText (totalSize (i64 extra) files)"

section \<open>Lemmas\<close>

lemma i64_id: "0 \<le> x \<Longrightarrow> x < 2 ^ 63 \<Longrightarrow> i64 x = x"
  by (rule wrap_id) auto

text \<open>Clearing the low bits rounds down to a multiple of a power of two.\<close>

lemma clear_low_bits: "(x :: int) AND NOT (2 ^ n - 1) = x - x mod 2 ^ n"
proof -
  have "x - take_bit n x = x AND NOT (take_bit n x)"
    by (rule disjunctive_diff_eq_and_not) (auto simp: bit_eq_iff bit_simps)
  also have "\<dots> = x AND NOT (mask n)"
    by (auto simp: bit_eq_iff bit_simps)
  finally show ?thesis by (simp add: mask_eq_exp_minus_1 take_bit_eq_mod)
qed

lemmas clear_bits = clear_low_bits [of _ 2, simplified] clear_low_bits [of _ 16, simplified]

section \<open>Properties\<close>

text \<open>C31.
  If the RAM has room for both files, 64 KiB between them and the rounding, the RAM disk and the device tree lie in the RAM,
  in this order, do not overlap, are 64 KiB apart, and start at multiples of 64 KiB and of 4.
\<close>

theorem bootLayout_fits:
  assumes "0 \<le> rs" "0 \<le> d" "0 \<le> i" "0 \<le> rz" "rs + rz < 2 ^ 63" "d + i + 131074 \<le> rz"
  shows "let c = bootLayout d i rs rz in
    rs \<le> initrdStart c \<and> initrdEnd c = initrdStart c + i \<and> initrdEnd c + 65536 \<le> dtbStart c \<and>
    dtbStart c + d \<le> ramEnd c \<and> ramEnd c = rs + rz \<and>
    initrdStart c mod 65536 = 0 \<and> dtbStart c mod 4 = 0"
proof -
  define re where "re = rs + rz"
  define ds where "ds = (re - d) - (re - d) mod 4"
  define st where "st = (ds - 65536 - i) - (ds - 65536 - i) mod 65536"
  have "0 \<le> (re - d) mod 4" "(re - d) mod 4 < 4" "0 \<le> (ds - 65536 - i) mod 65536" "(ds - 65536 - i) mod 65536 < 65536"
    by simp_all
  note m = this
  have ds: "ds \<le> re - d" "re - d - 3 \<le> ds" using m by (simp_all add: ds_def)
  have st: "st \<le> ds - 65536 - i" "ds - 65536 - i - 65535 \<le> st" using m by (simp_all add: st_def)
  have "0 \<le> re - d" "re - d < 2 ^ 63" using assms by (simp_all add: re_def)
  moreover have "0 \<le> ds - 65536 - i" "ds - 65536 - i < 2 ^ 63" "0 \<le> ds - 65536" "ds - 65536 < 2 ^ 63"
    "0 \<le> st + i" "st + i < 2 ^ 63" "0 \<le> re" "re < 2 ^ 63" "rs \<le> st"
    using assms ds st by (simp_all add: re_def)
  ultimately have c: "bootLayout d i rs rz =
      \<lparr>initrdStart = st, initrdEnd = st + i, dtbStart = ds, ramStart = rs, ramSize = rz, ramEnd = re\<rparr>"
    by (simp add: bootLayout_def Let_def clear_bits i64_id flip: re_def ds_def st_def)
  moreover have "st mod 65536 = 0" "ds mod 4 = 0" by (simp_all add: st_def ds_def mod_diff_eq)
  ultimately show ?thesis using \<open>rs \<le> st\<close> ds st by (simp add: re_def)
qed

theorem bootLayout_fits_witness:
  "let c = bootLayout 20000 1000000 0x80000000 0x8000000 in
    0x80000000 \<le> initrdStart c \<and> initrdEnd c = initrdStart c + 1000000 \<and> initrdEnd c + 65536 \<le> dtbStart c \<and>
    dtbStart c + 20000 \<le> ramEnd c \<and> ramEnd c = 0x80000000 + 0x8000000 \<and>
    initrdStart c mod 65536 = 0 \<and> dtbStart c mod 4 = 0"
  using bootLayout_fits [of "0x80000000" 20000 1000000 "0x8000000"] by simp

text \<open>The boot partition ends at a multiple of 64 KiB, behind everything that goes in it, and wastes at most 64 KiB.
\<close>

theorem flashSplit_fits:
  assumes "0 \<le> sz" "sz < 2 ^ 62"
  shows "flashSplit sz mod 65536 = 0 \<and> sz < flashSplit sz \<and> flashSplit sz \<le> sz + 65536"
proof -
  have "0 \<le> sz mod 65536" "sz mod 65536 < 65536" by simp_all
  moreover from this have "i64 (sz - sz mod 65536 + 65536) = sz - sz mod 65536 + 65536"
    using assms by (intro i64_id) simp_all
  then have "flashSplit sz = sz - sz mod 65536 + 65536" by (simp add: flashSplit_def clear_bits)
  moreover have "(sz - sz mod 65536 + 65536) mod 65536 = 0" by (simp add: mod_diff_eq)
  ultimately show ?thesis by simp
qed

theorem flashSplit_fits_witness:
  "flashSplit 500000 mod 65536 = 0 \<and> 500000 < flashSplit 500000 \<and> flashSplit 500000 \<le> 500000 + 65536"
  using flashSplit_fits [of 500000] by simp

end
