(* ===== verification/Fan.thy ===== *)
theory Fan
  imports Go_Strconv Go_Error
begin

text \<open>
  The fans as the daemon sees them (\<^verbatim>\<open>pkg/bmc/fan.go\<close>): files of the kernel's hardware monitor, read
  and written as decimal numbers, and the RPC \<^verbatim>\<open>GetFans\<close> of \<^verbatim>\<open>pkg/bmc/grpc.go\<close> on top of them. The files are an
  argument; the percentage is computed in single precision, which is written out.
\<close>

unbundle bit_operations_syntax

section \<open>Single precision\<close>

text \<open>
  A non-negative number as a significand of at most 24 bits and an exponent. \<open>f32_round n d\<close> is the nearest such number to
  \<open>n / d\<close>, ties to even. The numbers here are far from the ends of the exponent's range.
\<close>

type_synonym f32 = "nat \<times> int"

fun f32_scale :: "nat \<Rightarrow> nat \<Rightarrow> nat \<Rightarrow> int \<Rightarrow> nat \<times> nat \<times> int" where
  "f32_scale 0 n d e = (n, d, e)"
| "f32_scale (Suc k) n d e =
     (if n < d * 2 ^ 23 then f32_scale k (2 * n) d (e - 1)
      else if d * 2 ^ 24 \<le> n then f32_scale k n (2 * d) (e + 1)
      else (n, d, e))"

definition round_even :: "nat \<Rightarrow> nat \<Rightarrow> nat" where
  "round_even n d =
     (let q = n div d; r = n mod d in
      if 2 * r < d \<or> (2 * r = d \<and> even q) then q else q + 1)"

definition f32_round :: "nat \<Rightarrow> nat \<Rightarrow> f32" where
  "f32_round n d =
     (if n = 0 then (0, 0)
      else case f32_scale 256 n d 0 of (n', d', e) \<Rightarrow>
             let m = round_even n' d' in if m = 2 ^ 24 then (2 ^ 23, e + 1) else (m, e))"

text \<open>The exact value as a fraction.\<close>

definition f32_frac :: "f32 \<Rightarrow> nat \<times> nat" where
  "f32_frac x = (case x of (m, e) \<Rightarrow> (m * 2 ^ nat e, 2 ^ nat (- e)))"

definition f32_mul :: "f32 \<Rightarrow> nat \<Rightarrow> f32" where
  "f32_mul x k = (case f32_frac x of (n, d) \<Rightarrow> f32_round (n * k) d)"

definition f32_div :: "f32 \<Rightarrow> nat \<Rightarrow> f32" where
  "f32_div x k = (case f32_frac x of (n, d) \<Rightarrow> f32_round n (d * k))"

definition f32_trunc :: "f32 \<Rightarrow> nat" where
  "f32_trunc x = (case f32_frac x of (n, d) \<Rightarrow> n div d)"

text \<open>\<^verbatim>\<open>int(float32(v) * 100.0 / 255.0)\<close>; the sign goes along.\<close>

definition percentage :: "int \<Rightarrow> int" where
  "percentage v = sgn v * int (f32_trunc (f32_div (f32_mul (f32_round (nat \<bar>v\<bar>) 1) 100) 255))"

section \<open>The fan system\<close>

datatype 'e fanError = NoSuchFan int | FileError 'e | NotANumber string

text \<open>
  The files: \<open>readFile\<close> opens a file and reads at most 128 bytes from its start (an empty one gives the error of the end of
  the file), \<open>writeFile\<close> opens it and writes.
\<close>

record ('w, 'e) sysfs =
  readFile :: "string \<Rightarrow> ('w, 'e, string) eio"
  writeFile :: "string \<Rightarrow> string \<Rightarrow> ('w, 'e, unit) eio"

record FanSystem =
  fanMap :: "int \<rightharpoonup> string"
  pwmMap :: "int \<rightharpoonup> string"

definition startFan :: "(int \<rightharpoonup> string) \<Rightarrow> (int \<rightharpoonup> string) \<Rightarrow> FanSystem" where
  "startFan FanMap PwmMap = \<lparr>fanMap = FanMap, pwmMap = PwmMap\<rparr>"

definition mapError :: "('e \<Rightarrow> 'f) \<Rightarrow> ('w, 'e, 'a) eio \<Rightarrow> ('w, 'f, 'a) eio" where
  "mapError f m = bnd m (\<lambda>r. case r of Inl e \<Rightarrow> fail (f e) | Inr x \<Rightarrow> succeed x)"

text \<open>\<^verbatim>\<open>strings.Trim\<close> with the newline.\<close>

definition trimNewlines :: "string \<Rightarrow> string" where
  "trimNewlines s =
     (let t = dropWhile (\<lambda>c. c = CHR 0x0A) s in rev (dropWhile (\<lambda>c. c = CHR 0x0A) (rev t)))"

definition readHwmon :: "nat \<Rightarrow> ('w, 'e) sysfs \<Rightarrow> (int \<rightharpoonup> string) \<Rightarrow> int \<Rightarrow> ('w, 'e fanError, int) eio" where
  "readHwmon bits fs m fan =
     (case m fan of
        None \<Rightarrow> fail (NoSuchFan fan)
      | Some fname \<Rightarrow>
          ebnd (mapError FileError (readFile fs fname)) (\<lambda>b.
          case Atoi bits (trimNewlines b) of
            None \<Rightarrow> fail (NotANumber b)
          | Some v \<Rightarrow> succeed v))"

definition writeHwmon :: "('w, 'e) sysfs \<Rightarrow> (int \<rightharpoonup> string) \<Rightarrow> int \<Rightarrow> int \<Rightarrow> ('w, 'e fanError, unit) eio" where
  "writeHwmon fs m fan v =
     (case m fan of
        None \<Rightarrow> fail (NoSuchFan fan)
      | Some fname \<Rightarrow> mapError FileError (writeFile fs fname (show_int v)))"

definition ReadFanRpm :: "nat \<Rightarrow> ('w, 'e) sysfs \<Rightarrow> FanSystem \<Rightarrow> int \<Rightarrow> ('w, 'e fanError, int) eio" where
  "ReadFanRpm bits fs f fan = readHwmon bits fs (fanMap f) fan"

definition FanCount :: "FanSystem \<Rightarrow> nat" where
  "FanCount f = card (dom (fanMap f))"

definition ReadFanPercentage :: "nat \<Rightarrow> ('w, 'e) sysfs \<Rightarrow> FanSystem \<Rightarrow> int \<Rightarrow> ('w, 'e fanError, int) eio" where
  "ReadFanPercentage bits fs f fan = ebnd (readHwmon bits fs (pwmMap f) fan) (\<lambda>v. succeed (percentage v))"

section \<open>The RPC\<close>

record fanStatus =
  fan_number :: u32
  fan_percentage :: u32
  fan_rpm :: u32

record versionInfo =
  vi_version :: string
  vi_gitHash :: string

definition GetVersion :: "versionInfo \<Rightarrow> string \<times> string" where
  "GetVersion v = (vi_version v, vi_gitHash v)"

text \<open>The body of the loop of \<^verbatim>\<open>GetFans\<close>, and the loop from a fan on with the list so far.\<close>

definition getFan :: "nat \<Rightarrow> ('w, 'e) sysfs \<Rightarrow> FanSystem \<Rightarrow> nat \<Rightarrow> ('w, 'e fanError, fanStatus) eio" where
  "getFan bits fs f i =
     ebnd (ReadFanRpm bits fs f (int i)) (\<lambda>rpm.
     ebnd (ReadFanPercentage bits fs f (int i)) (\<lambda>prct.
     succeed \<lparr>fan_number = of_nat i, fan_percentage = of_int prct, fan_rpm = of_int rpm\<rparr>))"

fun getFans :: "nat \<Rightarrow> ('w, 'e) sysfs \<Rightarrow> FanSystem \<Rightarrow> nat list \<Rightarrow> fanStatus list \<Rightarrow> ('w, 'e fanError, fanStatus list) eio" where
  "getFans bits fs f [] r = succeed r"
| "getFans bits fs f (i # is) r = ebnd (getFan bits fs f i) (\<lambda>x. getFans bits fs f is (r @ [x]))"

definition GetFans :: "nat \<Rightarrow> ('w, 'e) sysfs \<Rightarrow> FanSystem \<Rightarrow> ('w, 'e fanError, fanStatus list) eio" where
  "GetFans bits fs f = getFans bits fs f [0..<FanCount f] []"

section \<open>Lemmas\<close>

text \<open>A number below the normal range is doubled until it is in it.\<close>

lemma f32_scale_up:
  assumes "0 < d" "n < d * 2 ^ 24" "d * 2 ^ 23 \<le> n * 2 ^ k"
  shows "\<exists>j \<le> k. f32_scale k n d e = (n * 2 ^ j, d, e - int j) \<and> d * 2 ^ 23 \<le> n * 2 ^ j \<and> n * 2 ^ j < d * 2 ^ 24"
  using assms
proof (induction k arbitrary: n e)
  case 0
  then show ?case by simp
next
  case (Suc k)
  show ?case
  proof (cases "n < d * 2 ^ 23")
    case True
    have "\<exists>j \<le> k. f32_scale k (2 * n) d (e - 1) = (2 * n * 2 ^ j, d, e - 1 - int j) \<and>
        d * 2 ^ 23 \<le> 2 * n * 2 ^ j \<and> 2 * n * 2 ^ j < d * 2 ^ 24"
      using True Suc.prems by (intro Suc.IH) (simp_all add: mult.commute mult.left_commute)
    then obtain j where "j \<le> k" "f32_scale k (2 * n) d (e - 1) = (2 * n * 2 ^ j, d, e - 1 - int j)"
      "d * 2 ^ 23 \<le> 2 * n * 2 ^ j" "2 * n * 2 ^ j < d * 2 ^ 24" by blast
    with True show ?thesis by (intro exI [of _ "Suc j"]) (simp add: mult.left_commute)
  next
    case False
    with Suc.prems show ?thesis by (intro exI [of _ 0]) simp
  qed
qed

lemma round_even_exact: "0 < d \<Longrightarrow> round_even (q * d) d = q"
  by (simp add: round_even_def)

text \<open>Rounding a number below \<open>2 ^ 24\<close> that is a whole number keeps it.\<close>

lemma f32_round_whole:
  assumes "0 < a" "a < 2 ^ 24" "c \<le> 24"
  shows "\<exists>j \<le> 24. f32_round (a * 2 ^ c) (2 ^ c) = (a * 2 ^ j, - int j)"
proof -
  have "a * 2 ^ c < 2 ^ c * 2 ^ 24" using assms(2) by simp
  moreover have "(2 :: nat) ^ 23 \<le> a * 2 ^ 256" using assms(1) by (cases a) simp_all
  then have "2 ^ c * 2 ^ 23 \<le> a * 2 ^ c * 2 ^ 256" by (simp add: mult.commute mult.left_commute)
  ultimately obtain j where j: "f32_scale 256 (a * 2 ^ c) (2 ^ c) 0 = (a * 2 ^ c * 2 ^ j, 2 ^ c, 0 - int j)"
    "a * 2 ^ c * 2 ^ j < 2 ^ c * 2 ^ 24"
    using f32_scale_up [of "2 ^ c" "a * 2 ^ c" 256 0] by auto
  have less: "a * 2 ^ j < 2 ^ 24" using j(2) by (simp add: mult.commute mult.left_commute)
  have "round_even (a * 2 ^ c * 2 ^ j) (2 ^ c) = a * 2 ^ j"
    using round_even_exact [of "2 ^ c" "a * 2 ^ j"] by (simp add: mult.commute mult.left_commute)
  moreover have "j \<le> 24"
  proof (rule ccontr)
    assume "\<not> j \<le> 24"
    then have "(2 :: nat) ^ 24 \<le> 2 ^ j" by (intro power_increasing) auto
    also have "\<dots> \<le> a * 2 ^ j" using assms(1) by simp
    finally show False using less by simp
  qed
  ultimately show ?thesis using assms(1) j(1) less by (auto simp: f32_round_def Let_def)
qed

lemma round_even_bounds:
  assumes "0 < d"
  shows "n div d \<le> round_even n d \<and> 2 * d * round_even n d \<le> 2 * n + d"
proof -
  define q where "q = n div d"
  define r where "r = n mod d"
  have n: "n = q * d + r" "r < d" using assms by (simp_all add: q_def r_def)
  have "2 * d * q \<le> 2 * (q * d + r) + d" by (simp add: mult.commute)
  moreover have "2 * d * (q + 1) \<le> 2 * (q * d + r) + d" if "d \<le> 2 * r"
    using that by (simp add: distrib_left mult.commute)
  ultimately show ?thesis
    unfolding round_even_def Let_def q_def [symmetric] r_def [symmetric] n(1) [symmetric] by auto
qed

text \<open>Dividing a whole number by 255 and cutting off the fraction is the integer division.\<close>

lemma f32_trunc_div:
  assumes "0 < a" "a < 2 ^ 22" "j \<le> 24"
  shows "f32_trunc (f32_round (a * 2 ^ j) (2 ^ j * 255)) = a div 255"
proof -
  have "a * 2 ^ j < 2 ^ j * 255 * 2 ^ 24" using assms(2) by simp
  moreover have "(255 :: nat) * 2 ^ 23 \<le> a * 2 ^ 256" using assms(1) by (cases a) simp_all
  then have "2 ^ j * 255 * 2 ^ 23 \<le> a * 2 ^ j * 2 ^ 256" by (simp add: mult.commute mult.left_commute)
  ultimately obtain i where i: "f32_scale 256 (a * 2 ^ j) (2 ^ j * 255) 0 = (a * 2 ^ j * 2 ^ i, 2 ^ j * 255, 0 - int i)"
    "2 ^ j * 255 * 2 ^ 23 \<le> a * 2 ^ j * 2 ^ i"
    using f32_scale_up [of "2 ^ j * 255" "a * 2 ^ j" 256 0] by auto
  define P where "P = (2 :: nat) ^ i"
  define q where "q = round_even (a * 2 ^ j * 2 ^ i) (2 ^ j * 255)"
  have big: "255 * 2 ^ 23 \<le> a * P" using i(2) by (simp add: P_def mult.commute mult.left_commute)
  have P: "510 < P"
  proof (rule ccontr)
    assume "\<not> 510 < P"
    then have "a * P \<le> a * 510" by simp
    with big assms(2) show False by simp
  qed
  have "a * 2 ^ j * 2 ^ i div (2 ^ j * 255) \<le> q \<and> 2 * (2 ^ j * 255) * q \<le> 2 * (a * 2 ^ j * 2 ^ i) + 2 ^ j * 255"
    unfolding q_def by (rule round_even_bounds) simp
  then have lo: "a * P div 255 \<le> q" and "2 ^ j * (510 * q) \<le> 2 ^ j * (2 * (a * P) + 255)"
    by (simp_all add: P_def mult.left_commute mult.assoc distrib_left)
  then have hi: "510 * q \<le> 2 * (a * P) + 255" by (simp only: mult_le_cancel1) simp
  define k where "k = a div 255"
  define r where "r = a mod 255"
  have kr: "a div 255 = k" "a = 255 * k + r" "r < 255" by (simp_all add: k_def r_def)
  have "k * P \<le> a * P div 255" unfolding kr(2) by (simp add: distrib_right mult.assoc)
  with lo have l: "k * P \<le> q" by simp
  have "r * P \<le> 254 * P" using kr(3) by simp
  then have "2 * (a * P) \<le> 510 * (k * P) + 508 * P" unfolding kr(2) by (simp add: distrib_right)
  with hi P have "q < k * P + P" by simp
  with l have qk: "q div P = a div 255" unfolding kr(1) by (intro div_nat_eqI) (simp_all add: mult.commute)
  show ?thesis
  proof (cases "q = 2 ^ 24")
    case True
    obtain i' where i': "i = Suc i'" using P by (cases i) (simp_all add: P_def)
    have "f32_round (a * 2 ^ j) (2 ^ j * 255) = (2 ^ 23, - int i')"
      using True assms(1) i(1) by (simp add: f32_round_def Let_def i' q_def)
    moreover have "(2 :: nat) ^ 23 div 2 ^ i' = 2 * 2 ^ 23 div (2 * 2 ^ i')" by (simp only: div_mult_mult1)
    ultimately show ?thesis using qk True by (simp add: f32_trunc_def f32_frac_def P_def i')
  next
    case False
    have "f32_round (a * 2 ^ j) (2 ^ j * 255) = (q, - int i)"
      using False assms(1) i(1) by (simp add: f32_round_def Let_def q_def)
    then show ?thesis using qk by (simp add: f32_trunc_def f32_frac_def P_def)
  qed
qed

lemma percentage_exact:
  assumes "0 \<le> v" "v < 40000"
  shows "percentage v = v * 100 div 255"
proof (cases "v = 0")
  case False
  define n where "n = nat v"
  have n: "v = int n" "0 < n" "n < 40000" using assms False by (simp_all add: n_def)
  obtain c where c: "c \<le> 24" "f32_round n 1 = (n * 2 ^ c, - int c)"
    using f32_round_whole [of n 0] n by auto
  obtain j where j: "j \<le> 24" "f32_round (n * 100 * 2 ^ c) (2 ^ c) = (n * 100 * 2 ^ j, - int j)"
    using f32_round_whole [of "n * 100" c] n c(1) by auto
  have "f32_mul (f32_round n 1) 100 = (n * 100 * 2 ^ j, - int j)"
    using j(2) by (simp add: f32_mul_def f32_frac_def c(2) [unfolded One_nat_def] ac_simps)
  then have "f32_div (f32_mul (f32_round n 1) 100) 255 = f32_round (n * 100 * 2 ^ j) (2 ^ j * 255)"
    by (simp add: f32_div_def f32_frac_def)
  then show ?thesis using f32_trunc_div [of "n * 100" j] n j(1) by (simp add: percentage_def zdiv_int)
qed (simp add: percentage_def)

section \<open>Files that keep what is written\<close>

definition stored :: "(string \<rightharpoonup> string, unit) sysfs" where
  "stored =
     \<lparr>readFile = (\<lambda>p w. case w p of Some (c # cs) \<Rightarrow> (Inr (Inr (take 128 (c # cs))), w) | _ \<Rightarrow> (Inr (Inl ()), w)),
      writeFile = (\<lambda>p b w. if p \<in> dom w then (Inr (Inr ()), w(p \<mapsto> b)) else (Inr (Inl ()), w))\<rparr>"

lemma mapError_run:
  "m s = (Inr (Inr x), t) \<Longrightarrow> mapError f m s = (Inr (Inr x), t)"
  "m s = (Inr (Inl e), t) \<Longrightarrow> mapError f m s = (Inr (Inl (f e)), t)"
  by (simp_all add: mapError_def bnd_def succeed_run fail_run)

lemma length_show_nat: "n < 10 ^ k \<Longrightarrow> 0 < k \<Longrightarrow> length (show_nat n) \<le> k"
proof (induction k arbitrary: n)
  case (Suc k)
  show ?case
  proof (cases "n < 10")
    case False
    then have "0 < k" using Suc.prems(1) by (cases k) auto
    moreover have "n div 10 < 10 ^ k" using Suc.prems(1) by (simp add: less_mult_imp_div_less)
    ultimately have "length (show_nat (n div 10)) \<le> k" by (intro Suc.IH)
    with False show ?thesis by (subst show_nat.simps) simp
  qed simp
qed simp

lemma show_nat_chars: "c \<in> set (show_nat n) \<Longrightarrow> char_digit c \<noteq> None"
proof (induction n rule: show_nat.induct)
  case (1 n)
  then show ?case
    by (cases "n < 10") (auto simp: show_nat.simps [of n])
qed

lemma newline_no_digit [simp]: "char_digit (CHR 0x0A) = None"
  by (simp add: char_digit_def)

lemma show_int_no_newline: "CHR 0x0A \<notin> set (show_int i)"
  by (auto simp: show_int_def dest: show_nat_chars)

lemma show_int_nonempty [simp]: "show_int i \<noteq> []"
  by (simp add: show_int_def)

lemma length_show_int:
  assumes "in_range bits i" "bits \<le> 64"
  shows "length (show_int i) \<le> 21"
proof -
  have "(2 :: int) ^ (bits - 1) \<le> 2 ^ 63" using assms(2) by (intro power_increasing) auto
  then have "\<bar>i\<bar> \<le> 2 ^ 63" using assms(1) by (auto simp: in_range_def)
  then have "nat \<bar>i\<bar> < 10 ^ 20" by simp
  then have "length (show_nat (nat \<bar>i\<bar>)) \<le> 20" by (intro length_show_nat) auto
  then show ?thesis by (auto simp: show_int_def)
qed

lemma trimNewlines_line:
  assumes "CHR 0x0A \<notin> set s"
  shows "trimNewlines (s @ replicate k CHR 0x0A) = s"
proof -
  have none: "dropWhile (\<lambda>c. c = CHR 0x0A) xs = xs" if "CHR 0x0A \<notin> set xs" for xs
    using that by (cases xs) auto
  have nls: "dropWhile (\<lambda>c. c = CHR 0x0A) (replicate k CHR 0x0A @ xs) = dropWhile (\<lambda>c. c = CHR 0x0A) xs" for xs
    by (induction k) auto
  show ?thesis
  proof (cases s)
    case Nil
    then show ?thesis using nls [of "[]"] by (simp add: trimNewlines_def)
  next
    case (Cons c cs)
    with assms have "dropWhile (\<lambda>c. c = CHR 0x0A) (s @ replicate k CHR 0x0A) = s @ replicate k CHR 0x0A" by auto
    then show ?thesis using assms by (simp add: trimNewlines_def nls none)
  qed
qed

text \<open>A file with a number and perhaps a newline is read as that number.\<close>

lemma readHwmon_stored:
  assumes "m fan = Some p" "w p = Some (show_int v @ replicate k CHR 0x0A)" "k \<le> 1" "in_range bits v" "bits \<le> 64"
  shows "readHwmon bits stored m fan w = (Inr (Inr v), w)"
proof -
  obtain c cs where c: "show_int v @ replicate k CHR 0x0A = c # cs"
    by (cases "show_int v @ replicate k CHR 0x0A") auto
  have "length (show_int v @ replicate k CHR 0x0A) \<le> 128" using length_show_int [OF assms(4,5)] assms(3) by simp
  then have "readFile stored p w = (Inr (Inr (show_int v @ replicate k CHR 0x0A)), w)"
    using assms(2) by (simp add: stored_def c)
  then show ?thesis using assms(1)
    by (simp add: readHwmon_def ebnd_run mapError_run trimNewlines_line [OF show_int_no_newline]
        Atoi_show_int [OF assms(4)] succeed_run)
qed

lemma getFans_collect:
  assumes "\<And>i. i \<in> set is \<Longrightarrow> getFan bits fs f i w = (Inr (Inr (g i)), w)"
  shows "getFans bits fs f is r w = (Inr (Inr (r @ map g is)), w)"
  using assms by (induction "is" arbitrary: r) (simp_all add: succeed_run ebnd_run)

section \<open>Properties\<close>

text \<open>C29.
  If the fans are numbered from 0 on and the files hold numbers, as the hardware monitor writes them, \<^verbatim>\<open>GetFans\<close> returns
  every fan in order, with its speed and with its duty cycle as a whole percentage, rounded down: the single precision arithmetic
  is exact. It changes no file.
\<close>

theorem GetFans_reports:
  assumes "bits \<le> 64" "FanCount f = n"
    and "\<forall>i<n. fanMap f (int i) = Some (fp i) \<and> w (fp i) = Some (show_int (rpm i) @ [CHR 0x0A]) \<and> in_range bits (rpm i)"
    and "\<forall>i<n. pwmMap f (int i) = Some (pp i) \<and> w (pp i) = Some (show_int (pwm i) @ [CHR 0x0A]) \<and> in_range bits (pwm i) \<and>
               0 \<le> pwm i \<and> pwm i \<le> 255"
  shows "GetFans bits stored f w = (Inr (Inr (map (\<lambda>i.
    \<lparr>fan_number = of_nat i, fan_percentage = of_int (pwm i * 100 div 255), fan_rpm = of_int (rpm i)\<rparr>) [0..<n])), w)"
proof -
  have "getFan bits stored f i w = (Inr (Inr
      \<lparr>fan_number = of_nat i, fan_percentage = of_int (pwm i * 100 div 255), fan_rpm = of_int (rpm i)\<rparr>), w)"
    if "i < n" for i
  proof -
    have "ReadFanRpm bits stored f (int i) w = (Inr (Inr (rpm i)), w)"
      using assms(1,3) that readHwmon_stored [of "fanMap f" "int i" "fp i" w "rpm i" 1 bits]
      by (simp add: ReadFanRpm_def)
    moreover have "readHwmon bits stored (pwmMap f) (int i) w = (Inr (Inr (pwm i)), w)"
      using assms(1,4) that readHwmon_stored [of "pwmMap f" "int i" "pp i" w "pwm i" 1 bits] by simp
    moreover have "percentage (pwm i) = pwm i * 100 div 255"
      by (rule percentage_exact) (use assms(4) that in force)+
    ultimately show ?thesis
      by (simp add: getFan_def ReadFanPercentage_def ebnd_run succeed_run)
  qed
  then have "getFans bits stored f [0..<n] [] w = (Inr (Inr ([] @ map (\<lambda>i.
      \<lparr>fan_number = of_nat i, fan_percentage = of_int (pwm i * 100 div 255), fan_rpm = of_int (rpm i)\<rparr>) [0..<n])), w)"
    by (intro getFans_collect) (simp only: set_upt atLeastLessThan_iff)
  then show ?thesis by (simp add: GetFans_def assms(2))
qed

definition demo_fans :: FanSystem where
  "demo_fans = \<lparr>fanMap = [0 \<mapsto> ''f''], pwmMap = [0 \<mapsto> ''p'']\<rparr>"

definition demo_hwmon :: "string \<rightharpoonup> string" where
  "demo_hwmon = [''f'' \<mapsto> ''4200'' @ [CHR 0x0A], ''p'' \<mapsto> ''128'' @ [CHR 0x0A]]"

lemma demo_numbers: "show_int 4200 = ''4200''" "show_int 128 = ''128''"
  by code_simp+

theorem GetFans_reports_witness:
  "GetFans 32 stored demo_fans demo_hwmon =
    (Inr (Inr [\<lparr>fan_number = 0, fan_percentage = 50, fan_rpm = 4200\<rparr>]), demo_hwmon)"
  using GetFans_reports [of 32 demo_fans 1 "\<lambda>_. ''f''" demo_hwmon "\<lambda>_. 4200" "\<lambda>_. ''p''" "\<lambda>_. 128"]
  by (simp add: demo_fans_def FanCount_def demo_hwmon_def demo_numbers in_range_def)

text \<open>A value written to a file of the hardware monitor is the value read back, negative ones included.
\<close>

theorem writeHwmon_readHwmon:
  assumes "m fan = Some p" "p \<in> dom w" "in_range bits v" "bits \<le> 64"
  shows "ebnd (writeHwmon stored m fan v) (\<lambda>_. readHwmon bits stored m fan) w = (Inr (Inr v), w(p \<mapsto> show_int v))"
proof -
  have "writeHwmon stored m fan v w = (Inr (Inr ()), w(p \<mapsto> show_int v))"
    using assms(1,2) by (simp add: writeHwmon_def mapError_run stored_def)
  moreover have "readHwmon bits stored m fan (w(p \<mapsto> show_int v)) = (Inr (Inr v), w(p \<mapsto> show_int v))"
    using readHwmon_stored [of m fan p "w(p \<mapsto> show_int v)" v 0 bits] assms by simp
  ultimately show ?thesis by (simp add: ebnd_run)
qed

theorem writeHwmon_readHwmon_witness:
  "ebnd (writeHwmon stored [0 \<mapsto> ''p''] 0 (- 5)) (\<lambda>_. readHwmon 32 stored [0 \<mapsto> ''p''] 0) [''p'' \<mapsto> []] =
    (Inr (Inr (- 5)), [''p'' \<mapsto> show_int (- 5)])"
  using writeHwmon_readHwmon [of "[0 \<mapsto> ''p'']" 0 "''p''" "[''p'' \<mapsto> []]" 32 "- 5"] by (simp add: in_range_def)

end
