(* ===== verification/Mtd.thy ===== *)
theory Mtd
  imports Go_Prelude
begin

text \<open>
  Programming the flash from the BMC (\<^verbatim>\<open>pkg/mtd/mtd.go\<close>): the memory technology device of the kernel is opened,
  erased, written and compared with an image. The device is NOR flash as the kernel presents it: erasing sets a block to
  ones, writing clears bits, a write stops at the end of the device. The source of the image is a file that is read from its start,
  and that ends with the end of the file or with a read error.
\<close>

unbundle bit_operations_syntax

section \<open>The device\<close>

record mtdDevice =
  dev_data :: "u8 list"
  dev_pos :: nat
  dev_info :: "u8 list option"
  dev_block :: nat

text \<open>The answers to the two requests of \<^verbatim>\<open>ioctl\<close> and to reading and writing.\<close>

definition MEMGETINFO :: u32 where "MEMGETINFO = 0x80204d01"
definition MEMUNLOCK :: u32 where "MEMUNLOCK = 0x40084d06"
definition MEMERASE :: u32 where "MEMERASE = 0x40084d02"

definition eraseRange :: "nat \<Rightarrow> nat \<Rightarrow> u8 list \<Rightarrow> u8 list" where
  "eraseRange st len d = take st d @ replicate len 0xff @ drop (st + len) d"

text \<open>
  A request is refused if it is not known, and an erase if it is not for whole blocks of the device. The argument of
  \<^verbatim>\<open>MEMGETINFO\<close> is overwritten, the one of \<^verbatim>\<open>MEMERASE\<close> holds the start and the length.
\<close>

definition mtd_ioctl :: "u32 \<Rightarrow> u8 list \<Rightarrow> mtdDevice \<Rightarrow> (bool \<times> u8 list) \<times> mtdDevice" where
  "mtd_ioctl req arg s =
     (if req = MEMGETINFO then
        (case dev_info s of None \<Rightarrow> ((False, arg), s) | Some b \<Rightarrow> ((True, b), s))
      else if req = MEMERASE then
        (let st = unat (of_le32 (take 4 arg)); len = unat (of_le32 (take 4 (drop 4 arg))) in
         if 0 < dev_block s \<and> st mod dev_block s = 0 \<and> len mod dev_block s = 0 \<and> st + len \<le> length (dev_data s)
         then ((True, arg), s\<lparr>dev_data := eraseRange st len (dev_data s)\<rparr>)
         else ((False, arg), s))
      else ((False, arg), s))"

definition program :: "nat \<Rightarrow> u8 list \<Rightarrow> u8 list \<Rightarrow> u8 list" where
  "program p b d = take p d @ map2 (AND) b (drop p d) @ drop (p + length b) d"

text \<open>Writing a buffer at the position: whether all of it fitted, and the device with what did.\<close>

definition dev_write :: "u8 list \<Rightarrow> mtdDevice \<Rightarrow> bool \<times> mtdDevice" where
  "dev_write b s =
     (let n = min (length b) (length (dev_data s) - dev_pos s) in
      (n = length b,
       s\<lparr>dev_data := program (dev_pos s) (take n b) (dev_data s), dev_pos := dev_pos s + n\<rparr>))"

section \<open>Open, Erase and Write\<close>

record mtdFile =
  Size :: int
  EraseSize :: int
  WriteSize :: int

definition no_mtd :: mtdFile where
  "no_mtd = \<lparr>Size = 0, EraseSize = 0, WriteSize = 0\<rparr>"

text \<open>
  The structure of \<^verbatim>\<open>MEMGETINFO\<close> is 32 bytes, little endian; the size and the size of an erase block are the third and fourth
  words. If the request fails, \<^verbatim>\<open>Open\<close> returns a file without sizes and no error.
\<close>

definition mtdInfo_word :: "nat \<Rightarrow> u8 list \<Rightarrow> u32" where
  "mtdInfo_word i b = of_le32 (take 4 (drop (4 * i) b))"

definition mtd_Open :: "bool \<Rightarrow> (mtdDevice, mtdFile option) io" where
  "mtd_Open opens =
     (if \<not> opens then ret None
      else bnd (\<lambda>s. case mtd_ioctl MEMGETINFO (replicate 32 0) s of (r, s') \<Rightarrow> (Inr r, s')) (\<lambda>(ok, ib).
           if \<not> ok then ret (Some no_mtd)
           else if length ib \<noteq> 32 then ret None
           else ret (Some \<lparr>Size = uint (mtdInfo_word 2 ib), EraseSize = uint (mtdInfo_word 3 ib),
                           WriteSize = uint (mtdInfo_word 3 ib)\<rparr>)))"

text \<open>The loop of \<^verbatim>\<open>Erase\<close> from an address on; its fuel is the number of addresses.\<close>

fun eraseLoop :: "nat \<Rightarrow> u32 \<Rightarrow> u32 \<Rightarrow> u32 \<Rightarrow> (mtdDevice, unit) io" where
  "eraseLoop 0 i sz esz = raise NoReturn"
| "eraseLoop (Suc k) i sz esz =
     (if i < sz then
        bnd (\<lambda>s. case mtd_ioctl MEMERASE (le32 i @ le32 esz) s of ((ok, _), s') \<Rightarrow> (Inr ok, s')) (\<lambda>ok.
        if ok then eraseLoop k (i + esz) sz esz else raise (LogPanic ''MTD erase failed''))
      else ret ())"

definition Erase :: "nat \<Rightarrow> mtdFile \<Rightarrow> (mtdDevice, unit) io" where
  "Erase fuel m = eraseLoop fuel 0 (of_int (Size m)) (of_int (EraseSize m))"

text \<open>A file as a source: the bytes that are left, and what comes after them.\<close>

datatype ioError = EOF | ReadFails

record source =
  left :: "u8 list"
  atEnd :: ioError

text \<open>
  \<^verbatim>\<open>Write\<close>: \<^verbatim>\<open>make\<close> panics for a negative size and \<^verbatim>\<open>io.CopyBuffer\<close> for an empty buffer. The size of the chunks does not matter for
  what is written.
\<close>

definition mtd_Write :: "mtdFile \<Rightarrow> source \<Rightarrow> (mtdDevice, unit) io" where
  "mtd_Write m f =
     thn (\<lambda>s. (Inr (), s\<lparr>dev_pos := 0\<rparr>))
    (if WriteSize m < 0 then raise SlicePanic
     else if WriteSize m = 0 then raise (LogPanic ''empty buffer in CopyBuffer'')
     else bnd (\<lambda>s. case dev_write (left f) s of (ok, s') \<Rightarrow> (Inr ok, s')) (\<lambda>ok.
          if ok \<and> atEnd f = EOF then ret () else raise (LogPanic ''MTD write failed'')))"

section \<open>Verify\<close>

text \<open>\<^verbatim>\<open>Read\<close> of a file into a buffer: the count, the error and the buffer. An empty buffer reads nothing.\<close>

definition fileRead :: "u8 list \<Rightarrow> ioError \<Rightarrow> u8 list \<Rightarrow> (nat \<times> ioError option) \<times> u8 list \<times> u8 list" where
  "fileRead rest e buf =
     (if buf = [] then ((0, None), buf, rest)
      else if rest = [] then ((0, Some e), buf, rest)
      else let n = min (length buf) (length rest) in
           ((n, None), take n rest @ drop n buf, drop n rest))"

fun verifyLoop :: "nat \<Rightarrow> u8 list \<Rightarrow> ioError \<Rightarrow> u8 list \<Rightarrow> u8 list \<Rightarrow> u8 list \<Rightarrow> bool option" where
  "verifyLoop 0 rest e dev buf1 buf2 = None"
| "verifyLoop (Suc k) rest e dev buf1 buf2 =
     (case fileRead rest e buf1 of ((n1, err1), buf1', rest') \<Rightarrow>
      case fileRead dev EOF buf2 of ((n2, err2), buf2', dev') \<Rightarrow>
        if n1 \<noteq> n2 then Some False
        else if buf1' \<noteq> buf2' then Some False
        else if err1 \<noteq> None \<and> err2 \<noteq> Some EOF then Some False
        else if err2 \<noteq> None \<and> err2 \<noteq> Some EOF then Some False
        else if err1 = Some EOF \<and> err2 = Some EOF then Some True
        else verifyLoop k rest' e dev' buf1' buf2')"

definition Verify :: "nat \<Rightarrow> mtdFile \<Rightarrow> source \<Rightarrow> (mtdDevice, bool) io" where
  "Verify fuel m f =
     thn (\<lambda>s. (Inr (), s\<lparr>dev_pos := 0\<rparr>))
    (if WriteSize m < 0 then raise SlicePanic
     else bnd (\<lambda>s. (Inr (dev_data s), s)) (\<lambda>d.
          let buf = replicate (nat (WriteSize m)) 0 in
          case verifyLoop fuel (left f) (atEnd f) d buf buf of None \<Rightarrow> raise NoReturn | Some r \<Rightarrow> ret r))"

section \<open>Lemmas\<close>

lemma fileRead_empty: "buf \<noteq> [] \<Longrightarrow> fileRead [] e buf = ((0, Some e), buf, [])"
  by (simp add: fileRead_def)

lemma fileRead_some:
  "buf \<noteq> [] \<Longrightarrow> rest \<noteq> [] \<Longrightarrow> fileRead rest e buf =
     ((min (length buf) (length rest), None), take (length buf) rest @ drop (length rest) buf, drop (length buf) rest)"
  by (simp add: fileRead_def Let_def min_def)

text \<open>With a device of whole blocks, \<^verbatim>\<open>Verify\<close> tells whether the image is exactly what the device holds.\<close>

lemma verifyLoop_result:
  assumes "length buf = W" "0 < W" "length dev = k * W" "k < n"
  shows "verifyLoop n rest EOF dev buf buf = Some (rest = dev)"
  using assms
proof (induction k arbitrary: n rest dev buf)
  case 0
  then obtain n' where n: "n = Suc n'" by (cases n) auto
  have "buf \<noteq> []" "dev = []" using 0 by auto
  with n show ?case
    by (cases "rest = []") (auto simp: fileRead_empty fileRead_some)
next
  case (Suc k)
  then obtain n' where n: "n = Suc n'" "k < n'" by (cases n) auto
  have b: "buf \<noteq> []" "dev \<noteq> []" "W \<le> length dev" using Suc.prems by auto
  then have d: "fileRead dev EOF buf = ((W, None), take W dev, drop W dev)"
    using Suc.prems(1) by (simp add: fileRead_some min_absorb1)
  show ?case
  proof (cases "W \<le> length rest")
    case True
    then have r: "fileRead rest EOF buf = ((W, None), take W rest, drop W rest)"
      using b(1) Suc.prems(1,2) by (cases "rest = []") (simp_all add: fileRead_some min_absorb1)
    show ?thesis
    proof (cases "take W rest = take W dev")
      case same: True
      have "verifyLoop n' (drop W rest) EOF (drop W dev) (take W dev) (take W dev) = Some (drop W rest = drop W dev)"
        using Suc.prems b(3) n(2) by (intro Suc.IH) simp_all
      moreover have "(rest = dev) = (drop W rest = drop W dev)"
        using same by (metis append_take_drop_id)
      ultimately show ?thesis using n(1) d r same by simp
    qed (use n(1) d r in auto)
  next
    case False
    then have "fst (fst (fileRead rest EOF buf)) \<noteq> W"
      using b(1) Suc.prems(1,2) by (cases "rest = []") (auto simp: fileRead_some fileRead_empty)
    moreover have "rest \<noteq> dev" using False b(3) by auto
    ultimately show ?thesis using n(1) d by (auto split: prod.splits)
  qed
qed

text \<open>A source with a read error behind the last block of the device keeps the loop going.\<close>

lemma verifyLoop_hangs: "buf \<noteq> [] \<Longrightarrow> verifyLoop n [] ReadFails [] buf buf = None"
  by (induction n) (simp_all add: fileRead_empty)

lemma verifyLoop_same_then_error:
  assumes "length buf = W" "0 < W" "length dev = k * W"
  shows "verifyLoop n dev ReadFails dev buf buf = None"
  using assms
proof (induction k arbitrary: n dev buf)
  case 0
  then show ?case using verifyLoop_hangs [of buf n] by auto
next
  case (Suc k)
  show ?case
  proof (cases n)
    case (Suc n')
    have "buf \<noteq> []" "dev \<noteq> []" "W \<le> length dev" using Suc.prems by auto
    then have "fileRead dev e buf = ((W, None), take W dev, drop W dev)" for e
      using Suc.prems(1) by (simp add: fileRead_some min_absorb1)
    moreover have "verifyLoop n' (drop W dev) ReadFails (drop W dev) (take W dev) (take W dev) = None"
      using Suc.prems \<open>W \<le> length dev\<close> by (intro Suc.IH) simp_all
    ultimately show ?thesis using Suc by simp
  qed simp
qed

lemma erase_request:
  "mtd_ioctl MEMERASE (le32 i @ le32 e) s =
     (if 0 < dev_block s \<and> unat i mod dev_block s = 0 \<and> unat e mod dev_block s = 0 \<and>
         unat i + unat e \<le> length (dev_data s)
      then ((True, le32 i @ le32 e), s\<lparr>dev_data := eraseRange (unat i) (unat e) (dev_data s)\<rparr>)
      else ((False, le32 i @ le32 e), s))"
  by (simp add: mtd_ioctl_def MEMERASE_def MEMGETINFO_def Let_def)

lemma eraseRange_step:
  "length d = a + b + c \<Longrightarrow>
   eraseRange (a + b) c (eraseRange a b d) = eraseRange a (b + c) d"
  by (simp add: eraseRange_def replicate_add)

lemma eraseRange_nothing: "length d = a \<Longrightarrow> eraseRange a 0 d = d"
  by (simp add: eraseRange_def)

text \<open>From a block on, the loop of \<^verbatim>\<open>Erase\<close> sets the rest of a device of whole blocks to ones.\<close>

lemma eraseLoop_run:
  assumes "0 < E" "n * E < 2 ^ 32" "j \<le> n" "n - j < k" "dev_block s = E" "length (dev_data s) = n * E"
  shows "eraseLoop k (of_nat (j * E)) (of_nat (n * E)) (of_nat E) s =
    (Inr (), s\<lparr>dev_data := eraseRange (j * E) (n * E - j * E) (dev_data s)\<rparr>)"
  using assms
proof (induction k arbitrary: j s)
  case (Suc k)
  have small: "unat (of_nat (m * E) :: u32) = m * E" if "m \<le> n" for m
  proof -
    have "m * E < 2 ^ 32" using that Suc.prems(2) mult_le_mono1 [of m n E] by linarith
    then show ?thesis by (simp add: unat_of_nat take_bit_eq_mod del: of_nat_mult)
  qed
  show ?case
  proof (cases "j = n")
    case True
    with Suc.prems show ?thesis by (simp add: ret_run eraseRange_nothing)
  next
    case False
    then have j: "Suc j \<le> n" "j * E < n * E" using Suc.prems by auto
    have E: "unat (of_nat E :: u32) = E" using small [of 1] j by simp
    have fit: "j * E + E \<le> n * E" using mult_le_mono1 [OF j(1), of E] by simp
    have next_i: "(of_nat (j * E) + of_nat E :: u32) = of_nat (Suc j * E)" by simp
    have "eraseRange (j * E + E) (n * E - (j * E + E)) (eraseRange (j * E) E (dev_data s)) =
        eraseRange (j * E) (n * E - j * E) (dev_data s)"
      using eraseRange_step [of "dev_data s" "j * E" E "n * E - (j * E + E)"] Suc.prems(6) fit by simp
    moreover have "length (eraseRange (j * E) E (dev_data s)) = n * E"
      using Suc.prems(6) fit by (simp add: eraseRange_def)
    then have "eraseLoop k (of_nat (Suc j * E)) (of_nat (n * E)) (of_nat E)
        (s\<lparr>dev_data := eraseRange (j * E) E (dev_data s)\<rparr>) =
      (Inr (), s\<lparr>dev_data := eraseRange (Suc j * E) (n * E - Suc j * E) (eraseRange (j * E) E (dev_data s))\<rparr>)"
      using Suc.prems j by (subst Suc.IH) simp_all
    ultimately show ?thesis
      using Suc.prems j E small [of j] small [of n] fit
      by (simp add: erase_request bnd_def word_less_nat_alt add.commute del: of_nat_mult of_nat_Suc flip: next_i)
  qed
qed simp

lemma program_erased: "length b = n \<Longrightarrow> length d = n \<Longrightarrow> program 0 b (eraseRange 0 n d) = b"
proof -
  assume "length b = n" "length d = n"
  moreover have "map2 (AND) b (replicate (length b) 0xff) = b" by (induction b) simp_all
  ultimately show ?thesis by (auto simp: program_def eraseRange_def)
qed

section \<open>Properties\<close>

text \<open>A device of two blocks of two bytes, for the witnesses.\<close>

definition demo_mtd :: mtdDevice where
  "demo_mtd =
     \<lparr>dev_data = [1, 2, 3, 4], dev_pos = 0,
      dev_info = Some (replicate 8 0 @ le32 4 @ le32 2 @ replicate 16 0), dev_block = 2\<rparr>"

text \<open>C30.
  Flashing an image of exactly the size of the device works: opening, erasing, writing and verifying all succeed, for every sufficient
  number of rounds of the loops, \<^verbatim>\<open>Verify\<close> returns true, and the device holds the image.
\<close>

theorem mtd_flash_roundtrip:
  assumes "dev_info s = Some b" "length b = 32" "unat (mtdInfo_word 2 b) = length (dev_data s)"
    and "unat (mtdInfo_word 3 b) = E" "dev_block s = E" "0 < E" "length (dev_data s) = n * E"
    and "length img = n * E" "n < fuel"
  shows "\<exists>m t. mtd_Open True s = (Inr (Some m), s) \<and>
    thn (Erase fuel m) (thn (mtd_Write m \<lparr>left = img, atEnd = EOF\<rparr>) (Verify fuel m \<lparr>left = img, atEnd = EOF\<rparr>)) s =
      (Inr True, t) \<and> dev_data t = img"
proof -
  define m where "m = \<lparr>Size = uint (mtdInfo_word 2 b), EraseSize = uint (mtdInfo_word 3 b), WriteSize = uint (mtdInfo_word 3 b)\<rparr>"
  have inv_unat: "of_nat (unat x) = x" for x :: "u32" by simp
  have w: "mtdInfo_word 2 b = of_nat (n * E)" "mtdInfo_word 3 b = of_nat E"
    using inv_unat [of "mtdInfo_word 2 b"] inv_unat [of "mtdInfo_word 3 b"] assms(3,4,7) by simp_all
  have small: "n * E < 2 ^ 32" using assms(3,7) unsigned_less [of "mtdInfo_word 2 b", where ?'a = nat] by simp
  have m: "Size m = int (n * E)" "EraseSize m = int E" "WriteSize m = int E"
    using uint_nat [of "mtdInfo_word 2 b"] uint_nat [of "mtdInfo_word 3 b"] assms(3,4,7) by (simp_all add: m_def)
  let ?s1 = "s\<lparr>dev_data := eraseRange 0 (n * E) (dev_data s)\<rparr>"
  have erase: "Erase fuel m s = (Inr (), ?s1)"
    using eraseLoop_run [of E n 0 fuel s] assms small by (simp add: Erase_def m)
  have p: "program 0 img (eraseRange 0 (n * E) (dev_data s)) = img"
    using assms(7,8) by (intro program_erased) simp_all
  have len: "length (eraseRange 0 (n * E) (dev_data s)) = n * E" using assms(7) by (simp add: eraseRange_def)
  let ?s2 = "?s1\<lparr>dev_data := img, dev_pos := n * E\<rparr>"
  have wr: "mtd_Write m \<lparr>left = img, atEnd = EOF\<rparr> ?s1 = (Inr (), ?s2)"
    using assms(6,8) p len by (simp add: mtd_Write_def m thn_def bnd_def dev_write_def Let_def ret_def)
  have ver: "Verify fuel m \<lparr>left = img, atEnd = EOF\<rparr> ?s2 = (Inr True, ?s2\<lparr>dev_pos := 0\<rparr>)"
    using verifyLoop_result [of "replicate E 0" E img n fuel img] assms(6,8,9)
    by (simp add: Verify_def m thn_def bnd_def ret_def)
  have "mtd_Open True s = (Inr (Some m), s)"
    using assms(1,2) by (simp add: mtd_Open_def mtd_ioctl_def MEMGETINFO_def bnd_def ret_def m_def)
  with erase wr ver show ?thesis by (auto simp: thn_run)
qed

theorem mtd_flash_roundtrip_witness:
  "\<exists>m t. mtd_Open True demo_mtd = (Inr (Some m), demo_mtd) \<and>
    thn (Erase 5 m) (thn (mtd_Write m \<lparr>left = [9, 8, 7, 6], atEnd = EOF\<rparr>) (Verify 5 m \<lparr>left = [9, 8, 7, 6], atEnd = EOF\<rparr>)) demo_mtd =
      (Inr True, t) \<and> dev_data t = [9, 8, 7, 6]"
  using mtd_flash_roundtrip [of demo_mtd "replicate 8 0 @ le32 4 @ le32 2 @ replicate 16 0" 2 2 "[9, 8, 7, 6]" 5]
  by (simp add: demo_mtd_def mtdInfo_word_def)

text \<open>\<^verbatim>\<open>Verify\<close> returns, and returns whether the device holds exactly the image: an image that is shorter than the device is
  rejected although every byte of it has been written.
\<close>

theorem mtd_Verify_exact:
  assumes "WriteSize m = int E" "0 < E" "length (dev_data s) = n * E" "atEnd f = EOF" "n < fuel"
  shows "Verify fuel m f s = (Inr (left f = dev_data s), s\<lparr>dev_pos := 0\<rparr>)"
  using verifyLoop_result [of "replicate E 0" E "dev_data s" n fuel "left f"] assms
  by (simp add: Verify_def thn_def bnd_def ret_def)

theorem mtd_Verify_exact_witness:
  "Verify 3 \<lparr>Size = 4, EraseSize = 2, WriteSize = 2\<rparr> \<lparr>left = [1, 2], atEnd = EOF\<rparr> demo_mtd = (Inr False, demo_mtd)"
  using mtd_Verify_exact [of "\<lparr>Size = 4, EraseSize = 2, WriteSize = 2\<rparr>" 2 demo_mtd 2 "\<lparr>left = [1, 2], atEnd = EOF\<rparr>" 3]
  by (simp add: demo_mtd_def)

text \<open>If the image can be read as far as the device goes and then a read error occurs, \<^verbatim>\<open>Verify\<close> never returns: the error of the
  image is not looked at, because the test meant for it names the error of the device.
\<close>

theorem mtd_Verify_hangs:
  assumes "WriteSize m = int E" "0 < E" "length (dev_data s) = n * E" "left f = dev_data s" "atEnd f = ReadFails"
  shows "fst (Verify fuel m f s) = Inl NoReturn"
  using verifyLoop_same_then_error [of "replicate E 0" E "dev_data s" n fuel] assms
  by (simp add: Verify_def thn_def bnd_def raise_def)

theorem mtd_Verify_hangs_witness:
  "fst (Verify 1000 \<lparr>Size = 4, EraseSize = 2, WriteSize = 2\<rparr> \<lparr>left = [1, 2, 3, 4], atEnd = ReadFails\<rparr> demo_mtd) = Inl NoReturn"
  using mtd_Verify_hangs [of "\<lparr>Size = 4, EraseSize = 2, WriteSize = 2\<rparr>" 2 demo_mtd 2
      "\<lparr>left = [1, 2, 3, 4], atEnd = ReadFails\<rparr>" 1000]
  by (simp add: demo_mtd_def)

end
