(* ===== verification/Platform.thy ===== *)
theory Platform
  imports Gpio_Reg Gpio_System Buttons Pwm
begin

text \<open>
  The platforms (\<^verbatim>\<open>platform/*/pkg\<close>): the names of the lines of the Quanta F06 Leopard and which of them are
  monitored, held at a level or driven as buttons, the registers it sets up at the start, the maps of the fans and the
  serial port of the host. The other platforms have no lines and set nothing up. The two commands that use the
  hardware library alone (\<^verbatim>\<open>cmd/fan\<close>, \<^verbatim>\<open>cmd/socreset\<close>) are here too.
\<close>

unbundle bit_operations_syntax

section \<open>Lines\<close>

definition linePorts :: "(string \<times> string) list" where
  "linePorts =
    [(''UNKN_BOOT1'', ''A2''), (''UNKN_PWR_CAP'', ''A3''), (''FAST_PROCHOT'', ''B3''),
     (''CPU0_THERMTRIP_N'', ''B5''), (''CPU1_THERMTRIP_N'', ''B6''), (''MEMAB_MEMHOT_N'', ''C2''),
     (''MEMCD_MEMHOT_N'', ''C3''), (''MEMEF_MEMHOT_N'', ''C6''), (''MEMGH_MEMHOT_N'', ''C7''),
     (''NMI_BTN_N'', ''D0''), (''BMC_NMI_N'', ''D1''), (''PWR_BTN_N'', ''D2''),
     (''BMC_PWR_BTN_OUT_N'', ''D3''), (''RST_BTN_N'', ''D4''), (''BMC_RST_BTN_OUT_N'', ''D5''),
     (''PCH_PWR_OK'', ''E1''), (''SYS_PWR_OK'', ''E2''), (''UNKN_E4'', ''E4''),
     (''BMC_SMI_INT_N'', ''E5''), (''PCH_BMC_THERMTRIP_N'', ''F0''), (''CPU_CATERR_N'', ''F1''),
     (''SLP_S3_N'', ''G2''), (''UNKN_BOOT0'', ''G3''), (''BAT_SENSE_EN_N'', ''G4''),
     (''BIOS_SEL'', ''N4''), (''SPI_SEL'', ''N5''), (''UART_SELECT0'', ''N6''),
     (''UART_SELECT1'', ''N7''), (''SKU0'', ''P0''), (''SKU1'', ''P1''),
     (''SKU2'', ''P2''), (''SKU3'', ''P3''), (''CPU0_PROCHOT_N'', ''P6''),
     (''CPU1_PROCHOT_N'', ''P7''), (''UNKN_Q4'', ''Q4''), (''PWR_LED_N'', ''Q5''),
     (''CPU0_FIVR_FAULT_N'', ''Q6''), (''CPU1_FIVR_FAULT_N'', ''Q7''), (''MB_SLOT_ID'', ''R1''),
     (''SYS_THROTTLE'', ''R4'')]"

text \<open>
  The package variable \<^verbatim>\<open>linePortMap\<close>: its values are computed when the program starts, and a name that is not one of a line
  ends it.
\<close>

definition linePortMap :: "panic + (string \<times> u32) list" where
  "linePortMap =
     foldr (\<lambda>(l, n) r. case GpioPort n of Inl p \<Rightarrow> Inl p | Inr v \<Rightarrow> map_sum id (\<lambda>m. (l, v) # m) r) linePorts (Inr [])"

definition GpioNameToPort :: "(string \<times> u32) list \<Rightarrow> string \<Rightarrow> u32 option" where
  "GpioNameToPort m l = map_of m l"

text \<open>\<^verbatim>\<open>init\<close> builds the reverse map, in the order in which Go ranges over the map.\<close>

definition portLineMap :: "(string \<times> u32) list \<Rightarrow> (u32 \<rightharpoonup> string)" where
  "portLineMap order = fold (\<lambda>(k, v) m. m(v \<mapsto> k)) order Map.empty"

definition platform_GpioPortToName :: "(u32 \<rightharpoonup> string) \<Rightarrow> u32 \<Rightarrow> string option" where
  "platform_GpioPortToName r i = r i"

datatype gpioCallback = LogCallback | PowerCallback | ResetCallback

definition monitoredLines :: "(string \<times> gpioCallback) list" where
  "monitoredLines =
    [(''CPU0_FIVR_FAULT_N'', LogCallback), (''CPU0_PROCHOT_N'', LogCallback),
     (''CPU0_THERMTRIP_N'', LogCallback), (''CPU1_FIVR_FAULT_N'', LogCallback),
     (''CPU1_PROCHOT_N'', LogCallback), (''CPU1_THERMTRIP_N'', LogCallback),
     (''CPU_CATERR_N'', LogCallback), (''MB_SLOT_ID'', LogCallback),
     (''MEMAB_MEMHOT_N'', LogCallback), (''MEMCD_MEMHOT_N'', LogCallback),
     (''MEMEF_MEMHOT_N'', LogCallback), (''MEMGH_MEMHOT_N'', LogCallback),
     (''NMI_BTN_N'', LogCallback), (''PCH_BMC_THERMTRIP_N'', LogCallback),
     (''PCH_PWR_OK'', LogCallback), (''PWR_BTN_N'', PowerCallback),
     (''RST_BTN_N'', ResetCallback), (''SKU0'', LogCallback),
     (''SKU1'', LogCallback), (''SKU2'', LogCallback),
     (''SKU3'', LogCallback), (''SLP_S3_N'', LogCallback),
     (''SPI_SEL'', LogCallback), (''SYS_PWR_OK'', LogCallback),
     (''SYS_THROTTLE'', LogCallback), (''UART_SELECT0'', LogCallback),
     (''UART_SELECT1'', LogCallback), (''UNKN_BOOT0'', LogCallback),
     (''UNKN_BOOT1'', LogCallback)]"

definition hoggedLines :: "(string \<times> bool) list" where
  "hoggedLines =
    [(''BMC_NMI_N'', True), (''BMC_SMI_INT_N'', True), (''UNKN_E4'', True),
     (''UNKN_PWR_CAP'', True), (''BAT_SENSE_EN_N'', False), (''BIOS_SEL'', False),
     (''FAST_PROCHOT'', False), (''PWR_LED_N'', False), (''UNKN_Q4'', False)]"

definition GPIO_INVERTED :: int where "GPIO_INVERTED = 0x1"

text \<open>The lines of the buttons with their flags.\<close>

definition buttonLines :: "(string \<times> button \<times> int) list" where
  "buttonLines =
    [(''BMC_PWR_BTN_OUT_N'', BUTTON_POWER, GPIO_INVERTED), (''BMC_RST_BTN_OUT_N'', BUTTON_RESET, GPIO_INVERTED)]"

text \<open>
  \<^verbatim>\<open>InitializeGpio\<close> as the calls it makes: the monitors, the hogs and the managers of the buttons. The platforms other than the
  Quanta make none.
\<close>

datatype gpioCall =
    MonitorCall "(string \<times> gpioCallback) list"
  | HogCall "(string \<times> bool) list"
  | ManageCall string button int

definition quanta_InitializeGpio :: "gpioCall list" where
  "quanta_InitializeGpio = [MonitorCall monitoredLines, HogCall hoggedLines] @ map (\<lambda>(l, b, flags). ManageCall l b flags) buttonLines"

definition evb_InitializeGpio :: "gpioCall list" where
  "evb_InitializeGpio = []"

definition qemu_InitializeGpio :: "gpioCall list" where
  "qemu_InitializeGpio = []"

text \<open>
  \<^verbatim>\<open>startGpio\<close>: the device is opened, and the platform initialises the system made over it, or fails (none of the platforms does).
\<close>

datatype startGpioError = GpioOpenFailed | InitializeGpioFailed string

definition startGpio :: "bool \<Rightarrow> (GpioSystem \<Rightarrow> string option \<times> 'g) \<Rightarrow> startGpioError + GpioSystem \<times> 'g" where
  "startGpio opens initializeGpio =
     (if \<not> opens then Inl GpioOpenFailed
      else case initializeGpio NewGpioSystem of
             (Some e, _) \<Rightarrow> Inl (InitializeGpioFailed e)
           | (None, calls) \<Rightarrow> Inr (NewGpioSystem, calls))"

fun calledLines :: "gpioCall \<Rightarrow> string list" where
  "calledLines (MonitorCall ls) = map fst ls"
| "calledLines (HogCall ls) = map fst ls"
| "calledLines (ManageCall l b flags) = [l]"

section \<open>Registers\<close>

text \<open>
  \<^verbatim>\<open>InitializeSystem\<close> of the Quanta: its result is the interface for which it starts the goroutine \<^verbatim>\<open>StartNcsi\<close> at the end.
\<close>

definition quanta_InitializeSystem :: "'s Ast \<Rightarrow> ('s, string) io" where
  "quanta_InitializeSystem a =
     thn (MustWrite32 (Mem a) (0x1E789000 + 0x9c) (push_bit 22 0x6 OR push_bit 19 0x4))
    (thn (MustWrite32 (Mem a) (SCU_BASE + 0x0) SCU_PASSWORD)
    (bnd (MustRead32 (Mem a) (SCU_BASE + 0x0c)) (\<lambda>csr.
     thn (MustWrite32 (Mem a) (SCU_BASE + 0x0c) (csr AND NOT (push_bit 16 1)))
    (bnd (MustRead32 (Mem a) (SCU_BASE + 0x84)) (\<lambda>mfr.
     thn (MustWrite32 (Mem a) (SCU_BASE + 0x84) (mfr OR 0xffff0000))
    (bnd (MustRead32 (Mem a) (SCU_BASE + 0x70)) (\<lambda>hws.
     thn (MustWrite32 (Mem a) (SCU_BASE + 0x70) (hws AND NOT (push_bit 21 3)))
    (thn (MustWrite32 (Mem a) (SCU_BASE + 0x8c) 0)
    (thn (MustWrite32 (Mem a) (SCU_BASE + 0x0) 0x0)
         (ret ''eth0''))))))))))"

section \<open>Fans, thermometers and the host's serial port\<close>

definition quanta_PwmMap :: "int \<rightharpoonup> string" where
  "quanta_PwmMap = [0 \<mapsto> ''/sys/class/hwmon/hwmon0/pwm1'', 1 \<mapsto> ''/sys/class/hwmon/hwmon0/pwm2'']"

definition quanta_FanMap :: "int \<rightharpoonup> string" where
  "quanta_FanMap = [0 \<mapsto> ''/sys/class/hwmon/hwmon0/fan1_input'', 1 \<mapsto> ''/sys/class/hwmon/hwmon0/fan3_input'']"

definition quanta_ThermometerMap :: "int \<rightharpoonup> string" where
  "quanta_ThermometerMap = [0 \<mapsto> ''/sys/class/hwmon/hwmon1/temp1_input'', 1 \<mapsto> ''/sys/class/hwmon/hwmon2/temp1_input'']"

definition quanta_HostUart :: "string \<times> int" where
  "quanta_HostUart = (''/dev/ttyS2'', 57600)"

definition evb_PwmMap :: "int \<rightharpoonup> string" where
  "evb_PwmMap = [0 \<mapsto> ''/sys/class/hwmon/hwmon0/pwm1'']"

definition evb_FanMap :: "int \<rightharpoonup> string" where
  "evb_FanMap = [0 \<mapsto> ''/sys/class/hwmon/hwmon0/fan1_input'']"

definition evb_ThermometerMap :: "int \<rightharpoonup> string" where
  "evb_ThermometerMap = [0 \<mapsto> ''/sys/class/hwmon/hwmon1/temp1_input'']"

definition evb_HostUart :: "string \<times> int" where
  "evb_HostUart = (''/dev/ttyS2'', 115200)"

text \<open>The maps of the virtual machines are nil.\<close>

definition qemu_PwmMap :: "int \<rightharpoonup> string" where
  "qemu_PwmMap = Map.empty"

definition qemu_FanMap :: "int \<rightharpoonup> string" where
  "qemu_FanMap = Map.empty"

definition qemu_HostUart :: "string \<times> int" where
  "qemu_HostUart = (''/dev/ttyAMA0'', 115200)"

section \<open>Commands\<close>

text \<open>
  \<^verbatim>\<open>cmd/fan\<close>: the dump and the two speeds that are printed; with a fan number the duty cycle is set, cut to 8 bits. The handle is
  closed at the end.
\<close>

definition fan_main ::
  "nat \<Rightarrow> nat \<Rightarrow> ('s, 's memProvider) io \<Rightarrow> int \<Rightarrow> int \<Rightarrow> ('s, (string \<times> u32) list \<times> int \<times> int) io" where
  "fan_main w fuel openMem fan speed =
     bnd (Open openMem) (\<lambda>a.
     deferring (Close a)
      (bnd (DumpPwm a) (\<lambda>d.
       bnd (MeasureFanRpm w fuel a 0) (\<lambda>r0.
       bnd (MeasureFanRpm w fuel a 2) (\<lambda>r1.
       thn (if fan > - 1 then SetFanDutyCycle a (nat fan) (of_int speed) else ret ())
           (ret (d, r0, r1)))))))"

definition socreset_main :: "('s, 's memProvider) io \<Rightarrow> ('s, u32) io" where
  "socreset_main openMem =
     bnd (Open openMem) (\<lambda>a.
     deferring (Close a)
      (thn (SetResetControl a SCU_DEFAULT_RESET)
      (bnd (MustRead32 (Mem a) (SCU_BASE + 0x4)) (\<lambda>v.
       thn (ResetCpu a)
      (thn (UnfreezeCpu a)
           (ret v))))))"

section \<open>Lemmas\<close>

text \<open>The lines by their letter and their number, both from 0.\<close>

definition quanta_positions :: "(nat \<times> nat) list" where
  "quanta_positions =
    [(0, 2), (0, 3), (1, 3), (1, 5), (1, 6), (2, 2), (2, 3), (2, 6), (2, 7), (3, 0),
     (3, 1), (3, 2), (3, 3), (3, 4), (3, 5), (4, 1), (4, 2), (4, 4), (4, 5), (5, 0),
     (5, 1), (6, 2), (6, 3), (6, 4), (13, 4), (13, 5), (13, 6), (13, 7), (15, 0), (15, 1),
     (15, 2), (15, 3), (15, 6), (15, 7), (16, 4), (16, 5), (16, 6), (16, 7), (17, 1), (17, 4)]"

lemma port_names: "map snd linePorts = map (\<lambda>(k, d). [char_of (65 + k)] @ [digit_char d]) quanta_positions"
  by code_simp

lemma positions_small: "list_all (\<lambda>(k, d). k < 26 \<and> d < 8) quanta_positions"
  by (simp add: quanta_positions_def)

definition quanta_ports :: "u32 list" where
  "quanta_ports = map of_nat (map (\<lambda>(k, d). 8 * k + d) quanta_positions)"

lemma positions_ports: "map GpioPort (map snd linePorts) = map Inr quanta_ports"
proof -
  have "GpioPort ([char_of (65 + k)] @ [digit_char d]) = Inr (of_nat (8 * k + d))" if "(k, d) \<in> set quanta_positions" for k d
  proof -
    have "k < 26" "d < 8" using positions_small that by (auto simp: list_all_iff)
    then show ?thesis using GpioPort_one [of k d] by simp
  qed
  then show ?thesis unfolding port_names quanta_ports_def by auto
qed

lemma linePortMap_fold:
  "map GpioPort (map snd xs) = map Inr ps \<Longrightarrow>
   foldr (\<lambda>(l, n) r. case GpioPort n of Inl p \<Rightarrow> Inl p | Inr v \<Rightarrow> map_sum id (\<lambda>m. (l, v) # m) r) xs (Inr []) =
     Inr (zip (map fst xs) ps)"
  by (induction xs arbitrary: ps) (auto simp: Cons_eq_map_conv)

definition quanta_lines :: "(string \<times> u32) list" where
  "quanta_lines = zip (map fst linePorts) quanta_ports"

lemma linePortMap_value: "linePortMap = Inr quanta_lines"
  unfolding linePortMap_def quanta_lines_def by (rule linePortMap_fold [OF positions_ports])

lemma length_lines: "length linePorts = 40" "length quanta_positions = 40"
  by (simp_all add: linePorts_def quanta_positions_def)

lemma distinct_ports: "distinct quanta_ports"
proof -
  have "distinct (map (\<lambda>(k, d). 8 * k + d) quanta_positions)" by (simp add: quanta_positions_def)
  moreover have "inj_on (of_nat :: nat \<Rightarrow> u32) {..<208}"
    by (rule inj_onI) (simp add: word_unat_eq_iff unat_of_nat take_bit_eq_mod)
  moreover have "set (map (\<lambda>(k, d). 8 * k + d) quanta_positions) \<subseteq> {..<208}"
    using positions_small by (auto simp: list_all_iff)
  ultimately show ?thesis unfolding quanta_ports_def by (metis distinct_map inj_on_subset)
qed

lemma distinct_names: "distinct (map fst linePorts)"
  by (simp add: linePorts_def)

text \<open>Every line is in exactly one of the calls.\<close>

lemma calls_cover: "mset (concat (map calledLines quanta_InitializeGpio)) = mset (map fst linePorts)"
  by (simp add: quanta_InitializeGpio_def monitoredLines_def hoggedLines_def buttonLines_def linePorts_def)

lemma lines_keys: "map fst quanta_lines = map fst linePorts" "map snd quanta_lines = quanta_ports"
  by (simp_all add: quanta_lines_def quanta_ports_def length_lines)

lemma fold_reverse: "fold (\<lambda>(k, v) m. m(v \<mapsto> k)) xs m = m ++ map_of (rev (map prod.swap xs))"
  by (induction xs arbitrary: m) (auto simp: map_add_def fun_eq_iff split: option.split)

lemma portLineMap_iff:
  assumes "distinct (map snd order)"
  shows "portLineMap order p = Some l \<longleftrightarrow> (l, p) \<in> set order"
proof -
  have "distinct (map fst (rev (map prod.swap order)))" using assms by (simp add: rev_map [symmetric] comp_def)
  then show ?thesis by (auto simp: portLineMap_def fold_reverse)
qed

lemma names_to_ports:
  assumes "distinct (map fst m)" "set ls \<subseteq> set (map fst m)"
  shows "\<exists>ports. map (map_of m) ls = map Some ports"
proof -
  have "map (map_of m) ls = map Some (map (\<lambda>l. the (map_of m l)) ls)"
  proof -
    have "map_of m l = Some (the (map_of m l))" if "l \<in> set ls" for l
    proof -
      have "map_of m l \<noteq> None" using that assms(2) by (auto simp: map_of_eq_None_iff)
      then show ?thesis by simp
    qed
    then show ?thesis by simp
  qed
  then show ?thesis by blast
qed

text \<open>The Quanta platform and the others, which have no lines, keep the contract of the names.\<close>

interpretation quanta: line_names "GpioNameToPort quanta_lines" "platform_GpioPortToName (portLineMap quanta_lines)"
proof
  have "distinct (map snd quanta_lines)" "distinct (map fst quanta_lines)"
    by (simp_all add: lines_keys distinct_ports distinct_names)
  then show "platform_GpioPortToName (portLineMap quanta_lines) p = Some l \<longleftrightarrow> GpioNameToPort quanta_lines l = Some p" for p l
    by (simp add: platform_GpioPortToName_def GpioNameToPort_def portLineMap_iff)
qed

interpretation no_lines: line_names "GpioNameToPort []" "platform_GpioPortToName (portLineMap [])"
  by unfold_locales (simp add: platform_GpioPortToName_def GpioNameToPort_def portLineMap_def)

text \<open>What the Quanta platform holds at a level is requested with one handle, and no port is in it twice.\<close>

lemma quanta_hog_ports:
  "resolveAll (GpioNameToPort quanta_lines) hoggedLines = Inr (ps, vs) \<Longrightarrow> distinct ps \<and> length ps = 9"
  using quanta.resolveAll_distinct [of hoggedLines ps vs] resolveAll_length [of _ hoggedLines ps vs]
  by (auto simp: hoggedLines_def)

section \<open>Properties\<close>

text \<open>The names of the lines and their ports correspond to each other: whatever the order in which the reverse map is built, a port has
  a name exactly if the name has that port, and building the maps does not end the program.
\<close>

theorem quanta_names_roundtrip:
  assumes "linePortMap = Inr m" "mset order = mset m"
  shows "platform_GpioPortToName (portLineMap order) p = Some l \<longleftrightarrow> GpioNameToPort m l = Some p"
proof -
  have m: "m = quanta_lines" using assms(1) by (simp add: linePortMap_value)
  have "mset (map snd order) = mset (map snd m)" using assms(2) by simp
  then have "distinct (map snd order)" using m distinct_ports by (metis lines_keys(2) mset_eq_imp_distinct_iff)
  moreover have "set order = set m" using assms(2) by (rule mset_eq_setD)
  ultimately show ?thesis
    using distinct_names by (simp add: platform_GpioPortToName_def GpioNameToPort_def portLineMap_iff m lines_keys)
qed

theorem quanta_names_roundtrip_witness:
  "linePortMap = Inr quanta_lines \<and>
   (platform_GpioPortToName (portLineMap (rev quanta_lines)) 26 = Some ''PWR_BTN_N'' \<longleftrightarrow>
      GpioNameToPort quanta_lines ''PWR_BTN_N'' = Some 26)"
  using quanta_names_roundtrip [OF linePortMap_value, of "rev quanta_lines"] by (simp add: linePortMap_value)

text \<open>C33.
  The set-up of the Quanta platform uses its lines properly: every name that is monitored, held or managed as a button is the name
  of a line, no line is requested twice, and no line of the platform is left out.
\<close>

theorem quanta_lines_once:
  assumes "linePortMap = Inr m"
  shows "\<exists>ports. map (GpioNameToPort m) (concat (map calledLines quanta_InitializeGpio)) = map Some ports \<and>
    distinct ports \<and> set ports = snd ` set m"
proof -
  have m: "m = quanta_lines" using assms by (simp add: linePortMap_value)
  have d: "distinct (map fst m)" using distinct_names by (simp add: m lines_keys)
  let ?ls = "concat (map calledLines quanta_InitializeGpio)"
  have ls: "mset ?ls = mset (map fst m)" using calls_cover by (simp add: m lines_keys)
  then obtain ports where ports: "map (map_of m) ?ls = map Some ports"
    using names_to_ports [OF d, of ?ls] mset_eq_setD [OF ls] by auto
  have "mset (map Some ports) = image_mset (map_of m) (mset ?ls)" unfolding ports [symmetric] by simp
  also have "\<dots> = mset (map (map_of m) (map fst m))" unfolding ls by (simp add: multiset.map_comp)
  also have "map (map_of m) (map fst m) = map Some (map snd m)"
    using d by (auto simp: map_of_eq_Some_iff)
  finally have "mset ports = mset (map snd m)"
    by (metis inj_Some map_injective ex_map_conv mset_map multiset.inj_map_strong option.inject)
  then show ?thesis using ports distinct_ports m
    by (intro exI [of _ ports]) (metis (no_types, lifting) GpioNameToPort_def lines_keys(2) map_eq_conv
        mset_eq_imp_distinct_iff mset_eq_setD set_map)
qed

theorem quanta_lines_once_witness:
  "\<exists>ports. map (GpioNameToPort quanta_lines) (concat (map calledLines quanta_InitializeGpio)) = map Some ports \<and>
    distinct ports \<and> set ports = snd ` set quanta_lines"
  using quanta_lines_once [OF linePortMap_value] .

text \<open>C34.
  Starting the Quanta platform takes effect whether or not the system control unit was unlocked: the serial ports are routed to each other,
  the clock of UART2 runs, the pins of UART1 and UART2 are enabled, the pass-through of the GPIO ports is off, nothing else
  changes, the unit is locked at the end, and the report on the sideband interface is started for \<^verbatim>\<open>eth0\<close>.
\<close>

theorem quanta_InitializeSystem_effect:
  "\<exists>s'. quanta_InitializeSystem soc_ast s = (Inr ''eth0'', s') \<and> \<not> soc_unlocked s' \<and>
     soc_regs s' = (soc_regs s)(
       0x1E78909C := 0x1A00000,
       SCU_BASE + 0x0c := unset_bit 16 (soc_regs s (SCU_BASE + 0x0c)),
       SCU_BASE + 0x84 := soc_regs s (SCU_BASE + 0x84) OR 0xffff0000,
       SCU_BASE + 0x70 := unset_bit 21 (unset_bit 22 (soc_regs s (SCU_BASE + 0x70))),
       SCU_BASE + 0x8c := 0)"
proof -
  have bits: "unset_bit 21 (unset_bit 22 (w :: u32)) = w AND NOT (push_bit 21 3)" for w
  proof (rule bit_word_eqI)
    fix n assume "n < LENGTH(32)"
    have m: "(3 :: u32) = mask 2" by (simp add: mask_eq_exp_minus_1)
    show "bit (unset_bit 21 (unset_bit 22 w)) n = bit (w AND NOT (push_bit 21 3)) n"
      using \<open>n < LENGTH(32)\<close> unfolding m by (auto simp: bit_simps)
  qed
  have clk: "unset_bit 16 w = w AND NOT (push_bit 16 1)" for w :: u32 by (rule unset_bit_and)
  show ?thesis unfolding bits clk
    by (simp add: quanta_InitializeSystem_def scu_run Mem_OpenWithMemory SCU_BASE_def in_scu_def)
qed

text \<open>\<^verbatim>\<open>cmd/socreset\<close> restores the default reset control, restarts the CPU and lets it run.\<close>

lemma socreset_effect:
  assumes "Open openMem s = (Inr soc_ast, s)"
  shows "\<exists>t. socreset_main openMem s = (Inr SCU_DEFAULT_RESET, t) \<and>
    soc_regs t (SCU_BASE + 0x4) = SCU_DEFAULT_RESET \<and> soc_regs t WDT1_CTRL = 0x3 \<and> \<not> soc_unlocked t"
proof -
  have "CloseMem (ast_mem soc_ast) = ret ()" by (simp add: ahb_provider_def OpenWithMemory_def)
  then show ?thesis
    by (simp add: socreset_main_def assms deferring_def thn_def bnd_def SetResetControl_run
        Mem_OpenWithMemory soc_runs soc_reg_def wdt_ops UnfreezeCpu_def setCpuEnable_run soc_set_def Close_def
        ret_def)
      (simp add: SCU_BASE_def WDT1_CTRL_def WDT2_CTRL_def WDT2_TMOUT_CLR_def WDT1_RESTART_def WDT1_RLD_CTR_def in_scu_def)
qed

end
