(* ===== verification/Network.thy ===== *)
theory Network
  imports Go_Error
begin

text \<open>
  The network of the BMC (\<^verbatim>\<open>pkg/bmc/interface.go\<close>): addresses, the state of the links, the host name, and the goroutine
  that resets the interface when its link-local address does not fit its hardware address. The kernel's answers are an environment;
  for the goroutine, which runs forever, there is one environment for each round.
\<close>

unbundle bit_operations_syntax

section \<open>State and environment\<close>

record netState =
  addrs :: "string \<Rightarrow> string list"
  linkUp :: "string \<Rightarrow> bool"
  hostname :: string

text \<open>
  Which links exist, which addresses parse, whether a handle can be had, whether addresses can be set, links brought up and taken
  down, the hardware addresses of the links, the IPv6 addresses of a link (\<open>None\<close> if listing them fails), and whether the host name can be set.
\<close>

record netEnv =
  linkExists :: "string \<Rightarrow> bool"
  parseAddr :: "string \<Rightarrow> bool"
  newHandle :: bool
  addrReplace :: "string \<Rightarrow> string \<Rightarrow> bool"
  canSetUp :: "string \<Rightarrow> bool"
  canSetDown :: "string \<Rightarrow> bool"
  hardwareAddr :: "string \<Rightarrow> u8 list"
  addrList :: "string \<Rightarrow> u8 list list option"
  canSethostname :: bool

datatype netError =
    NoInterface string
  | ParseAddrError string
  | NewHandleError
  | AddrReplaceError string
  | LinkSetUpError
  | LinkSetDownError

section \<open>Addresses and links\<close>

definition addIp :: "netEnv \<Rightarrow> string \<Rightarrow> string \<Rightarrow> (netState, netError, unit) eio" where
  "addIp e cidr iface =
     (if \<not> linkExists e iface then fail (NoInterface iface)
      else if \<not> parseAddr e cidr then fail (ParseAddrError cidr)
      else if \<not> newHandle e then fail NewHandleError
      else if \<not> addrReplace e cidr iface then fail (AddrReplaceError cidr)
      else (\<lambda>s. (Inr (Inr ()), s\<lparr>addrs := (addrs s)(iface := List.insert cidr (addrs s iface))\<rparr>)))"

definition setLinkUp :: "netEnv \<Rightarrow> string \<Rightarrow> (netState, netError, unit) eio" where
  "setLinkUp e iface =
     (if \<not> linkExists e iface then fail (NoInterface iface)
      else if \<not> newHandle e then fail NewHandleError
      else if \<not> canSetUp e iface then fail LinkSetUpError
      else (\<lambda>s. (Inr (Inr ()), s\<lparr>linkUp := (linkUp s)(iface := True)\<rparr>)))"

definition setLinkDown :: "netEnv \<Rightarrow> string \<Rightarrow> (netState, netError, unit) eio" where
  "setLinkDown e iface =
     (if \<not> linkExists e iface then fail (NoInterface iface)
      else if \<not> newHandle e then fail NewHandleError
      else if \<not> canSetDown e iface then fail LinkSetDownError
      else (\<lambda>s. (Inr (Inr ()), s\<lparr>linkUp := (linkUp s)(iface := False)\<rparr>)))"

section \<open>Link-local addresses\<close>

text \<open>\<^verbatim>\<open>hw[5]\<close> panics for a short hardware address.\<close>

definition isLinkLocalForMAC :: "u8 list \<Rightarrow> u8 list \<Rightarrow> panic + bool" where
  "isLinkLocalForMAC addr hw =
     (if length hw < 6 then Inl IndexPanic
      else let chw = [0xfe, 0x80, 0, 0, 0, 0, 0, 0] @
                     [hw ! 0, hw ! 1, hw ! 2, 0xff, 0xfe, hw ! 3, hw ! 4, hw ! 5];
               chw = chw[8 := chw ! 8 XOR 0x2]
           in Inr (chw = addr))"

text \<open>\<^verbatim>\<open>net.IP\<close>'s \<^verbatim>\<open>IsLinkLocalUnicast\<close> on an address of 16 bytes that is not a mapped IPv4 address.\<close>

definition IsLinkLocalUnicast :: "u8 list \<Rightarrow> bool" where
  "IsLinkLocalUnicast ip = (length ip = 16 \<and> ip ! 0 = 0xfe \<and> ip ! 1 AND 0xc0 = 0x80)"

fun findLinkLocal :: "u8 list \<Rightarrow> u8 list list \<Rightarrow> panic + bool" where
  "findLinkLocal hw [] = Inr False"
| "findLinkLocal hw (a # as) =
     (if IsLinkLocalUnicast a then
        (case isLinkLocalForMAC a hw of
           Inl p \<Rightarrow> Inl p
         | Inr b \<Rightarrow> if b then Inr True else findLinkLocal hw as)
      else findLinkLocal hw as)"

text \<open>One round of \<^verbatim>\<open>ipv6LinkFixer\<close>: the result is the time in seconds before the next one.\<close>

definition fixerRound :: "netEnv \<Rightarrow> string \<Rightarrow> (netState, nat) io" where
  "fixerRound e iface =
     (if \<not> linkExists e iface then ret 1
      else bnd (\<lambda>s. (Inr (linkUp s iface), s)) (\<lambda>up.
      if \<not> up then ret 1
      else case addrList e iface of
        None \<Rightarrow> ret 1
      | Some as \<Rightarrow>
          (case findLinkLocal (hardwareAddr e iface) as of
             Inl p \<Rightarrow> raise p
           | Inr True \<Rightarrow> ret 1
           | Inr False \<Rightarrow>
               bnd (setLinkDown e iface) (\<lambda>r.
               case r of
                 Inl _ \<Rightarrow> ret 1
               | Inr _ \<Rightarrow>
                   bnd (setLinkUp e iface) (\<lambda>r. ret (case r of Inl _ \<Rightarrow> 1 | Inr _ \<Rightarrow> 10))))))"

text \<open>The goroutine over the rounds so far: how long it has slept before each round and will sleep next.\<close>

fun fixerRounds :: "netEnv list \<Rightarrow> string \<Rightarrow> (netState, nat list) io" where
  "fixerRounds [] iface = ret []"
| "fixerRounds (e # es) iface = bnd (fixerRound e iface) (\<lambda>t. bnd (fixerRounds es iface) (\<lambda>ts. ret (t # ts)))"

definition ipv6LinkFixer :: "bool \<Rightarrow> netEnv list \<Rightarrow> string \<Rightarrow> (netState, nat list) io" where
  "ipv6LinkFixer handle es iface =
     (if \<not> handle then ret [] else bnd (fixerRounds es iface) (\<lambda>ts. ret (1 # ts)))"

section \<open>Start of the network\<close>

record network =
  fqdn :: string
  ipv4 :: "u8 list option"
  ipv6 :: "u8 list option"

definition FQDN :: "network \<Rightarrow> string" where "FQDN n = fqdn n"
definition IPv4 :: "network \<Rightarrow> u8 list option" where "IPv4 n = ipv4 n"
definition IPv6 :: "network \<Rightarrow> u8 list option" where "IPv6 n = ipv4 n"
definition AddressLifetime :: nat where "AddressLifetime = 3600"

record pbNetwork =
  pb_Vlan :: u32
  pb_Ipv4Address :: string
  pb_Ipv6Address :: string
  pb_Ipv4Route :: "string list"
  pb_Ipv6Route :: "string list"
  pb_Hostname :: string

definition no_config :: pbNetwork where
  "no_config = \<lparr>pb_Vlan = 0, pb_Ipv4Address = [], pb_Ipv6Address = [], pb_Ipv4Route = [], pb_Ipv6Route = [], pb_Hostname = []\<rparr>"

text \<open>An address from the configuration: an error is only logged.\<close>

definition addConfigured :: "netEnv \<Rightarrow> string \<Rightarrow> string \<Rightarrow> (netState, unit) io" where
  "addConfigured e cidr iface = (if cidr = [] then ret () else bnd (addIp e cidr iface) (\<lambda>_. ret ()))"

definition setHostname :: "netEnv \<Rightarrow> string \<Rightarrow> (netState, unit) io" where
  "setHostname e h s = (Inr (), if canSethostname e then s\<lparr>hostname := h\<rparr> else s)"

definition startNetwork :: "netEnv \<Rightarrow> pbNetwork option \<Rightarrow> (netState, netError, network) eio" where
  "startNetwork e config =
     (let config = (case config of None \<Rightarrow> no_config | Some c \<Rightarrow> c); iface = ''eth0'' in
      ethn (addIp e ''127.0.0.1/8'' ''lo'')
     (ethn (addIp e ''::1/32'' ''lo'')
     (ethn (setLinkUp e ''lo'')
     (thn (addConfigured e (pb_Ipv4Address config) iface)
     (thn (addConfigured e (pb_Ipv6Address config) iface)
     (let fq = (if pb_Hostname config \<noteq> [] then pb_Hostname config else ''ubmc.local'') in
      thn (setHostname e fq)
          (succeed \<lparr>fqdn = fq, ipv4 = None, ipv6 = None\<rparr>)))))))"

section \<open>Lemmas\<close>

text \<open>The link-local address made of a hardware address, and the hardware address read off it.\<close>

definition linkLocal :: "u8 list \<Rightarrow> u8 list" where
  "linkLocal hw =
     [0xfe, 0x80, 0, 0, 0, 0, 0, 0, hw ! 0 XOR 0x2, hw ! 1, hw ! 2, 0xff, 0xfe, hw ! 3, hw ! 4, hw ! 5]"

definition macOf :: "u8 list \<Rightarrow> u8 list" where
  "macOf a = [a ! 8 XOR 0x2, a ! 9, a ! 10, a ! 13, a ! 14, a ! 15]"

lemma isLinkLocalForMAC_eq: "6 \<le> length hw \<Longrightarrow> isLinkLocalForMAC a hw = Inr (a = linkLocal hw)"
  by (auto simp: isLinkLocalForMAC_def linkLocal_def)

lemma linkLocal_unicast: "IsLinkLocalUnicast (linkLocal hw)"
  by (simp add: IsLinkLocalUnicast_def linkLocal_def)

lemma xor_twice [simp]: "((x :: u8) XOR 2) XOR 2 = x"
  by (simp add: xor.assoc)

lemma macOf_linkLocal: "length hw = 6 \<Longrightarrow> macOf (linkLocal hw) = hw"
  by (auto simp: macOf_def linkLocal_def numeral_eq_Suc length_Suc_conv)

lemma findLinkLocal_eq: "6 \<le> length hw \<Longrightarrow> findLinkLocal hw as = Inr (linkLocal hw \<in> set as)"
  by (induction as) (auto simp: isLinkLocalForMAC_eq linkLocal_unicast)

text \<open>No round brings up a link that is down.\<close>

lemma fixerRound_down: "\<not> linkUp s iface \<Longrightarrow> fixerRound e iface s = (Inr 1, s)"
  by (simp add: fixerRound_def bnd_def ret_def)

lemma fixerRounds_down: "\<not> linkUp s iface \<Longrightarrow> fixerRounds es iface s = (Inr (replicate (length es) 1), s)"
  by (induction es) (simp_all add: fixerRound_down bnd_def ret_def)

lemma startNetwork_keeps_eth0:
  "startNetwork e c s = (r, t) \<Longrightarrow> linkUp t ''eth0'' = linkUp s ''eth0''"
  by (auto simp: startNetwork_def Let_def ethn_def ebnd_def thn_def bnd_def addIp_def setLinkUp_def
      addConfigured_def setHostname_def fail_def succeed_def ret_def split: if_splits)

section \<open>Properties\<close>

definition good_env :: netEnv where
  "good_env =
     \<lparr>linkExists = (\<lambda>_. True), parseAddr = (\<lambda>_. True), newHandle = True, addrReplace = (\<lambda>_ _. True),
      canSetUp = (\<lambda>_. True), canSetDown = (\<lambda>_. True), hardwareAddr = (\<lambda>_. [2, 0, 0, 1, 2, 3]),
      addrList = (\<lambda>_. Some [linkLocal [2, 0, 0, 1, 2, 4]]), canSethostname = True\<rparr>"

definition eth0_up :: netState where
  "eth0_up = \<lparr>addrs = (\<lambda>_. []), linkUp = (\<lambda>i. i = ''eth0''), hostname = []\<rparr>"

text \<open>A round of the goroutine that guards the link-local address leaves an interface alone exactly if it has the address made of its
  hardware address, and otherwise takes it down and up again and waits ten times as long; the address determines the hardware address.
\<close>

theorem fixerRound_outcome:
  assumes "linkExists e iface" "newHandle e" "canSetUp e iface" "canSetDown e iface" "linkUp s iface"
    and "addrList e iface = Some as" "length (hardwareAddr e iface) = 6"
  shows "fixerRound e iface s = (Inr (if \<exists>a \<in> set as. IsLinkLocalUnicast a \<and> isLinkLocalForMAC a (hardwareAddr e iface) = Inr True
                                      then 1 else 10), s) \<and>
    (\<forall>a hw. length hw = 6 \<and> isLinkLocalForMAC a hw = Inr True \<longrightarrow> macOf a = hw)"
proof -
  have l: "6 \<le> length (hardwareAddr e iface)" using assms(7) by simp
  have "s\<lparr>linkUp := (linkUp s)(iface := True)\<rparr> = s" using assms(5) by (simp add: fun_upd_idem)
  moreover have "(\<exists>a \<in> set as. IsLinkLocalUnicast a \<and> isLinkLocalForMAC a (hardwareAddr e iface) = Inr True) =
      (linkLocal (hardwareAddr e iface) \<in> set as)"
    by (auto simp: isLinkLocalForMAC_eq [OF l] linkLocal_unicast)
  ultimately show ?thesis using assms(1-6)
    by (auto simp: fixerRound_def bnd_def ret_def findLinkLocal_eq [OF l] setLinkDown_def setLinkUp_def
        isLinkLocalForMAC_eq macOf_linkLocal)
qed

theorem fixerRound_outcome_witness:
  "fixerRound good_env ''eth0'' eth0_up = (Inr 10, eth0_up)"
  using fixerRound_outcome [of good_env "''eth0''" eth0_up "[linkLocal [2, 0, 0, 1, 2, 4]]"]
  by (simp add: good_env_def eth0_up_def isLinkLocalForMAC_eq) (simp add: linkLocal_def)

text \<open>With the loopback interface set up, the start of the network succeeds whatever happens to the configured addresses and the host name: both
  loopback addresses are there, the loopback link is up, and the host has the configured name or \<^verbatim>\<open>ubmc.local\<close>.
\<close>

theorem startNetwork_succeeds:
  assumes "linkExists e ''lo''" "newHandle e" "canSetUp e ''lo''"
    and "parseAddr e ''127.0.0.1/8''" "parseAddr e ''::1/32''"
    and "addrReplace e ''127.0.0.1/8'' ''lo''" "addrReplace e ''::1/32'' ''lo''"
  shows "\<exists>n t. startNetwork e c s = (Inr (Inr n), t) \<and>
    FQDN n = (case c of Some p \<Rightarrow> if pb_Hostname p = [] then ''ubmc.local'' else pb_Hostname p | None \<Rightarrow> ''ubmc.local'') \<and>
    hostname t = (if canSethostname e then FQDN n else hostname s) \<and>
    linkUp t ''lo'' \<and> {''127.0.0.1/8'', ''::1/32''} \<subseteq> set (addrs t ''lo'')"
  using assms
  by (auto simp: startNetwork_def Let_def ethn_def ebnd_def thn_def bnd_def addIp_def setLinkUp_def no_config_def
      addConfigured_def setHostname_def fail_def succeed_def ret_def FQDN_def split: option.splits)

theorem startNetwork_succeeds_witness:
  "\<exists>n t. startNetwork good_env None eth0_up = (Inr (Inr n), t) \<and> FQDN n = ''ubmc.local'' \<and>
    hostname t = ''ubmc.local'' \<and> linkUp t ''lo'' \<and> {''127.0.0.1/8'', ''::1/32''} \<subseteq> set (addrs t ''lo'')"
  using startNetwork_succeeds [of good_env None eth0_up] by (auto simp: good_env_def)

text \<open>An interface that is down stays down: neither the start of the network nor any number of rounds of the goroutine brings it up.
\<close>

theorem eth0_stays_down:
  assumes "\<not> linkUp s ''eth0''"
  shows "\<not> linkUp (snd (bnd (startNetwork e c) (\<lambda>_. ipv6LinkFixer handle es ''eth0'') s)) ''eth0''"
proof -
  obtain r t where t: "startNetwork e c s = (r, t)" by fastforce
  then have "\<not> linkUp t ''eth0''" using startNetwork_keeps_eth0 assms by blast
  then show ?thesis using t
    by (cases r) (simp_all add: bnd_def ipv6LinkFixer_def ret_def fixerRounds_down)
qed

theorem eth0_stays_down_witness:
  "\<not> linkUp (snd (bnd (startNetwork good_env None) (\<lambda>_. ipv6LinkFixer True [good_env] ''eth0'')
     \<lparr>addrs = (\<lambda>_. []), linkUp = (\<lambda>_. False), hostname = []\<rparr>)) ''eth0''"
  by (rule eth0_stays_down) simp

end
