(* ===== verification/Ncsi.thy ===== *)
theory Ncsi
  imports Go_Prelude
begin

text \<open>
  The report on the network controller's sideband interface (\<^verbatim>\<open>pkg/bmc/ncsi.go\<close>): the packages and channels that the kernel lists
  as nested netlink attributes. The decoder of the netlink library is a parameter: it gives the attributes of a buffer, and an error if the
  buffer breaks off after them. The result of each function is what it has logged and the error it returns.
\<close>

section \<open>Attributes\<close>

type_synonym attr = "nat \<times> u8 list"

datatype ncsiError = NewDecoder | BadAttribute | BadUint32

text \<open>An error when the decoder is made, or the attributes and the error behind them.\<close>

type_synonym decoder = "u8 list \<Rightarrow> (ncsiError + attr list \<times> ncsiError option)"

definition NCSI_ATTR_IFINDEX :: nat where "NCSI_ATTR_IFINDEX = 1"
definition NCSI_ATTR_PACKAGE_LIST :: nat where "NCSI_ATTR_PACKAGE_LIST = 2"
definition NCSI_PKG_ATTR :: nat where "NCSI_PKG_ATTR = 1"
definition NCSI_PKG_ATTR_ID :: nat where "NCSI_PKG_ATTR_ID = 1"
definition NCSI_PKG_ATTR_CHANNEL_LIST :: nat where "NCSI_PKG_ATTR_CHANNEL_LIST = 3"
definition NCSI_CHANNEL_ATTR :: nat where "NCSI_CHANNEL_ATTR = 1"
definition NCSI_CHANNEL_ATTR_ID :: nat where "NCSI_CHANNEL_ATTR_ID = 1"
definition NCSI_CHANNEL_ATTR_LINK_STATE :: nat where "NCSI_CHANNEL_ATTR_LINK_STATE = 5"
definition NCSI_CHANNEL_ATTR_ACTIVE :: nat where "NCSI_CHANNEL_ATTR_ACTIVE = 6"
definition NCSI_CHANNEL_ATTR_FORCED :: nat where "NCSI_CHANNEL_ATTR_FORCED = 7"

lemmas ncsi_types =
  NCSI_ATTR_IFINDEX_def NCSI_ATTR_PACKAGE_LIST_def NCSI_PKG_ATTR_def NCSI_PKG_ATTR_ID_def NCSI_PKG_ATTR_CHANNEL_LIST_def
  NCSI_CHANNEL_ATTR_def NCSI_CHANNEL_ATTR_ID_def NCSI_CHANNEL_ATTR_LINK_STATE_def NCSI_CHANNEL_ATTR_ACTIVE_def
  NCSI_CHANNEL_ATTR_FORCED_def

text \<open>\<^verbatim>\<open>for ad.Next() { ... }\<close>: the loop ends at the first error, which \<^verbatim>\<open>ad.Err()\<close> then is.\<close>

fun attrLoop :: "(attr \<Rightarrow> 's \<Rightarrow> 's \<times> ncsiError option) \<Rightarrow> attr list \<Rightarrow> ncsiError option \<Rightarrow> 's \<Rightarrow> 's \<times> ncsiError option" where
  "attrLoop h [] e s = (s, e)"
| "attrLoop h (a # as) e s =
     (case h a s of (s', Some err) \<Rightarrow> (s', Some err) | (s', None) \<Rightarrow> attrLoop h as e s')"

definition withDecoder :: "decoder \<Rightarrow> u8 list \<Rightarrow> (attr \<Rightarrow> 's \<Rightarrow> 's \<times> ncsiError option) \<Rightarrow> 's \<Rightarrow> 's \<times> ncsiError option" where
  "withDecoder dec b h s = (case dec b of Inl e \<Rightarrow> (s, Some e) | Inr (as, e) \<Rightarrow> attrLoop h as e s)"

text \<open>\<^verbatim>\<open>ad.Uint32()\<close>: a value of another size is an error, and reads as 0.\<close>

definition attrUint32 :: "u8 list \<Rightarrow> u32 \<times> ncsiError option" where
  "attrUint32 b = (if length b = 4 then (of_le32 b, None) else (0, Some BadUint32))"

section \<open>Packages and channels\<close>

datatype ncsiLog = PackagePresent u32 | ChannelPresent int int bool bool

text \<open>The variables of \<^verbatim>\<open>registerNcsiChannel\<close>; its \<^verbatim>\<open>int\<close> has \<open>w\<close> bits.\<close>

record channelVars =
  ch_id :: int
  ch_ls :: int
  ch_active :: bool
  ch_forced :: bool

definition channelAttr :: "nat \<Rightarrow> attr \<Rightarrow> channelVars \<Rightarrow> channelVars \<times> ncsiError option" where
  "channelAttr w a v =
     (case a of (t, b) \<Rightarrow>
        if t = NCSI_CHANNEL_ATTR_ID then (case attrUint32 b of (x, e) \<Rightarrow> (v\<lparr>ch_id := wrap w (uint x)\<rparr>, e))
        else if t = NCSI_CHANNEL_ATTR_ACTIVE then (v\<lparr>ch_active := True\<rparr>, None)
        else if t = NCSI_CHANNEL_ATTR_FORCED then (v\<lparr>ch_forced := True\<rparr>, None)
        else if t = NCSI_CHANNEL_ATTR_LINK_STATE then (case attrUint32 b of (x, e) \<Rightarrow> (v\<lparr>ch_ls := wrap w (uint x)\<rparr>, e))
        else (v, None))"

definition registerNcsiChannel :: "nat \<Rightarrow> decoder \<Rightarrow> u8 list \<Rightarrow> ncsiLog list \<Rightarrow> ncsiLog list \<times> ncsiError option" where
  "registerNcsiChannel w dec b l =
     (case withDecoder dec b (channelAttr w) \<lparr>ch_id = - 1, ch_ls = - 1, ch_active = False, ch_forced = False\<rparr> of
        (v, Some e) \<Rightarrow> (l, Some e)
      | (v, None) \<Rightarrow> (l @ [ChannelPresent (ch_id v) (ch_ls v) (ch_active v) (ch_forced v)], None))"

definition handleNcsiChannelList :: "nat \<Rightarrow> decoder \<Rightarrow> u8 list \<Rightarrow> ncsiLog list \<Rightarrow> ncsiLog list \<times> ncsiError option" where
  "handleNcsiChannelList w dec b =
     withDecoder dec b (\<lambda>(t, c) l. if t = NCSI_CHANNEL_ATTR then registerNcsiChannel w dec c l else (l, None))"

definition registerNcsiPackage :: "nat \<Rightarrow> decoder \<Rightarrow> u8 list \<Rightarrow> ncsiLog list \<Rightarrow> ncsiLog list \<times> ncsiError option" where
  "registerNcsiPackage w dec b =
     withDecoder dec b (\<lambda>(t, c) l.
       if t = NCSI_PKG_ATTR_ID then (case attrUint32 c of (x, e) \<Rightarrow> (l @ [PackagePresent x], e))
       else if t = NCSI_PKG_ATTR_CHANNEL_LIST then handleNcsiChannelList w dec c l
       else (l, None))"

definition handleNcsiPackageList :: "nat \<Rightarrow> decoder \<Rightarrow> u8 list \<Rightarrow> ncsiLog list \<Rightarrow> ncsiLog list \<times> ncsiError option" where
  "handleNcsiPackageList w dec b =
     withDecoder dec b (\<lambda>(t, c) l. if t = NCSI_PKG_ATTR then registerNcsiPackage w dec c l else (l, None))"

text \<open>
  \<^verbatim>\<open>StartNcsi\<close>: the arguments tell whether the socket, the family and the interface are there and what the dump returns. A message
  that does not decode ends it; the error it logs then is the wrong variable, which is nil.
\<close>

datatype ncsiEnd = DialFailed | NoFamily | NoNcsiInterface | DumpFailed | DecoderFailed ncsiError | DecodeFailed | Finished

definition ncsiMessage :: "nat \<Rightarrow> decoder \<Rightarrow> u8 list \<Rightarrow> ncsiLog list \<Rightarrow> ncsiLog list \<times> ncsiEnd" where
  "ncsiMessage w dec b l =
     (case dec b of
        Inl e \<Rightarrow> (l, DecoderFailed e)
      | Inr (as, e) \<Rightarrow>
          (case attrLoop (\<lambda>(t, c) l. if t = NCSI_ATTR_PACKAGE_LIST then handleNcsiPackageList w dec c l else (l, None)) as e l of
             (l', Some _) \<Rightarrow> (l', DecodeFailed)
           | (l', None) \<Rightarrow> (l', Finished)))"

fun ncsiMessages :: "nat \<Rightarrow> decoder \<Rightarrow> u8 list list \<Rightarrow> ncsiLog list \<Rightarrow> ncsiLog list \<times> ncsiEnd" where
  "ncsiMessages w dec [] l = (l, Finished)"
| "ncsiMessages w dec (m # ms) l =
     (case ncsiMessage w dec m l of (l', Finished) \<Rightarrow> ncsiMessages w dec ms l' | (l', e) \<Rightarrow> (l', e))"

definition StartNcsi :: "nat \<Rightarrow> decoder \<Rightarrow> bool \<Rightarrow> bool \<Rightarrow> bool \<Rightarrow> u8 list list option \<Rightarrow> ncsiLog list \<times> ncsiEnd" where
  "StartNcsi w dec dials family iface dump =
     (if \<not> dials then ([], DialFailed)
      else if \<not> family then ([], NoFamily)
      else if \<not> iface then ([], NoNcsiInterface)
      else case dump of None \<Rightarrow> ([], DumpFailed) | Some msgs \<Rightarrow> ncsiMessages w dec msgs [])"

section \<open>What the kernel sends\<close>

record ncsiChannel =
  nc_id :: u32
  nc_link :: u32
  nc_active :: bool
  nc_forced :: bool

record ncsiPackage =
  np_id :: u32
  np_channels :: "ncsiChannel list"

definition channelAttrs :: "ncsiChannel \<Rightarrow> attr list" where
  "channelAttrs c =
     [(NCSI_CHANNEL_ATTR_ID, le32 (nc_id c)), (NCSI_CHANNEL_ATTR_LINK_STATE, le32 (nc_link c))] @
     (if nc_active c then [(NCSI_CHANNEL_ATTR_ACTIVE, [])] else []) @
     (if nc_forced c then [(NCSI_CHANNEL_ATTR_FORCED, [])] else [])"

definition packageAttrs :: "(attr list \<Rightarrow> u8 list) \<Rightarrow> ncsiPackage \<Rightarrow> attr list" where
  "packageAttrs enc p =
     [(NCSI_PKG_ATTR_ID, le32 (np_id p)),
      (NCSI_PKG_ATTR_CHANNEL_LIST, enc (map (\<lambda>c. (NCSI_CHANNEL_ATTR, enc (channelAttrs c))) (np_channels p)))]"

definition dumpMessage :: "(attr list \<Rightarrow> u8 list) \<Rightarrow> ncsiPackage list \<Rightarrow> u8 list" where
  "dumpMessage enc ps =
     enc [(NCSI_ATTR_PACKAGE_LIST, enc (map (\<lambda>p. (NCSI_PKG_ATTR, enc (packageAttrs enc p))) ps))]"

definition packageLog :: "nat \<Rightarrow> ncsiPackage \<Rightarrow> ncsiLog list" where
  "packageLog w p =
     PackagePresent (np_id p) #
     map (\<lambda>c. ChannelPresent (wrap w (uint (nc_id c))) (wrap w (uint (nc_link c))) (nc_active c) (nc_forced c)) (np_channels p)"

lemma attrLoop_all:
  "(\<And>a l. a \<in> set as \<Longrightarrow> h a l = (l @ g a, None)) \<Longrightarrow> attrLoop h as None l = (l @ concat (map g as), None)"
  by (induction as arbitrary: l) simp_all

text \<open>A codec of the library: decoding gives back the attributes.\<close>

definition codec :: "(attr list \<Rightarrow> u8 list) \<Rightarrow> decoder \<Rightarrow> bool" where
  "codec enc dec \<longleftrightarrow> (\<forall>as. dec (enc as) = Inr (as, None))"

lemma registerNcsiChannel_enc:
  "codec enc dec \<Longrightarrow> registerNcsiChannel w dec (enc (channelAttrs c)) l =
     (l @ [ChannelPresent (wrap w (uint (nc_id c))) (wrap w (uint (nc_link c))) (nc_active c) (nc_forced c)], None)"
  by (simp add: codec_def registerNcsiChannel_def withDecoder_def channelAttrs_def channelAttr_def attrUint32_def ncsi_types)

lemma handleNcsiChannelList_enc:
  assumes "codec enc dec"
  shows "handleNcsiChannelList w dec (enc (map (\<lambda>c. (NCSI_CHANNEL_ATTR, enc (channelAttrs c))) cs)) l =
    (l @ map (\<lambda>c. ChannelPresent (wrap w (uint (nc_id c))) (wrap w (uint (nc_link c))) (nc_active c) (nc_forced c)) cs, None)"
proof -
  have "attrLoop (\<lambda>(t, c) l. if t = NCSI_CHANNEL_ATTR then registerNcsiChannel w dec c l else (l, None))
      (map (\<lambda>c. (NCSI_CHANNEL_ATTR, enc (channelAttrs c))) cs) None l =
    (l @ map (\<lambda>c. ChannelPresent (wrap w (uint (nc_id c))) (wrap w (uint (nc_link c))) (nc_active c) (nc_forced c)) cs, None)"
    by (induction cs arbitrary: l) (simp_all add: registerNcsiChannel_enc [OF assms])
  then show ?thesis using assms by (simp add: handleNcsiChannelList_def withDecoder_def codec_def)
qed

lemma registerNcsiPackage_enc:
  assumes "codec enc dec"
  shows "registerNcsiPackage w dec (enc (packageAttrs enc p)) l = (l @ packageLog w p, None)"
  using assms
  by (simp add: registerNcsiPackage_def withDecoder_def packageAttrs_def attrUint32_def ncsi_types packageLog_def
      handleNcsiChannelList_enc [OF assms, unfolded NCSI_CHANNEL_ATTR_def One_nat_def] codec_def)

lemma handleNcsiPackageList_enc:
  assumes "codec enc dec"
  shows "handleNcsiPackageList w dec (enc (map (\<lambda>p. (NCSI_PKG_ATTR, enc (packageAttrs enc p))) ps)) l =
    (l @ concat (map (packageLog w) ps), None)"
proof -
  have "attrLoop (\<lambda>(t, c) l. if t = NCSI_PKG_ATTR then registerNcsiPackage w dec c l else (l, None))
      (map (\<lambda>p. (NCSI_PKG_ATTR, enc (packageAttrs enc p))) ps) None l = (l @ concat (map (packageLog w) ps), None)"
    by (induction ps arbitrary: l) (simp_all add: registerNcsiPackage_enc [OF assms])
  then show ?thesis using assms by (simp add: handleNcsiPackageList_def withDecoder_def codec_def)
qed

lemma ncsiMessage_enc:
  assumes "codec enc dec"
  shows "ncsiMessage w dec (dumpMessage enc ps) l = (l @ concat (map (packageLog w) ps), Finished)"
  using assms by (simp add: ncsiMessage_def dumpMessage_def handleNcsiPackageList_enc [OF assms] codec_def)

lemma ncsiMessages_enc:
  assumes "codec enc dec"
  shows "ncsiMessages w dec (map (dumpMessage enc) pss) l = (l @ concat (map (packageLog w) (concat pss)), Finished)"
  by (induction pss arbitrary: l) (simp_all add: ncsiMessage_enc [OF assms])

section \<open>A codec for the witness\<close>

text \<open>Each number is a run of ones before a zero.\<close>

definition runOf :: "nat \<Rightarrow> u8 list" where
  "runOf n = replicate n 1 @ [0]"

fun readRun :: "u8 list \<Rightarrow> (nat \<times> u8 list) option" where
  "readRun [] = None"
| "readRun (x # xs) = (if x = 1 then map_option (\<lambda>(n, r). (n + 1, r)) (readRun xs) else Some (0, xs))"

definition runEnc :: "attr list \<Rightarrow> u8 list" where
  "runEnc as = concat (map (\<lambda>(t, b). runOf t @ runOf (length b) @ b) as)"

fun runDec :: "nat \<Rightarrow> u8 list \<Rightarrow> attr list \<times> ncsiError option" where
  "runDec 0 b = ([], Some BadAttribute)"
| "runDec (Suc k) b =
     (if b = [] then ([], None)
      else case readRun b of
        None \<Rightarrow> ([], Some BadAttribute)
      | Some (t, r) \<Rightarrow>
          (case readRun r of
             None \<Rightarrow> ([], Some BadAttribute)
           | Some (n, r) \<Rightarrow> (case runDec k (drop n r) of (as, e) \<Rightarrow> ((t, take n r) # as, e))))"

definition runDecoder :: decoder where
  "runDecoder b = Inr (runDec (length b + 1) b)"

lemma readRun_runOf: "readRun (runOf n @ r) = Some (n, r)"
  by (induction n) (simp_all add: runOf_def)

lemma runDec_runEnc: "length as < k \<Longrightarrow> runDec k (runEnc as) = (as, None)"
proof (induction as arbitrary: k)
  case Nil
  then show ?case by (cases k) (simp_all add: runEnc_def)
next
  case (Cons a as)
  obtain t b where a: "a = (t, b)" by fastforce
  from Cons obtain k' where "k = Suc k'" "runDec k' (runEnc as) = (as, None)" by (cases k) auto
  then show ?case by (simp add: a runEnc_def readRun_runOf) (simp add: runOf_def)
qed

lemma runDecoder_codec: "codec runEnc runDecoder"
proof -
  have "length as \<le> length (runEnc as)" for as
    by (induction as) (auto simp: runEnc_def runOf_def)
  then show ?thesis unfolding codec_def runDecoder_def by (simp add: runDec_runEnc less_Suc_eq_le del: runDec.simps)
qed

section \<open>Properties\<close>



end
