(* ===== verification/I2c.thy ===== *)
theory I2c
  imports Scu
begin

text \<open>
  The I2C watcher (\<^verbatim>\<open>cmd/i2cwatcher\<close>): it lists the buses, slows one down and then samples the state machine and the data
  buffer of that bus to put together the transactions that go by. A round of its endless loop is a function of the sample; the lemmas show that
  it prints the bytes that were transferred, however often the same state is seen.
\<close>

unbundle bit_operations_syntax

section \<open>The buses\<close>

definition i2cOffset :: "uintptr list" where
  "i2cOffset = [0x40, 0x80, 0xc0, 0x100, 0x140, 0x180, 0x1c0, 0x300, 0x340, 0x380, 0x3c0, 0x400, 0x440, 0x480]"

definition i2cBase :: uintptr where
  "i2cBase = 0x1E78A000"

text \<open>A line of the list: the number of the bus, the factor of the clock, the data buffer, whether it is a master and a slave.\<close>

record busInfo =
  bi_bus :: nat
  bi_clk :: int
  bi_buffer :: u32
  bi_master :: bool
  bi_slave :: bool

definition busLine :: "'s Ast \<Rightarrow> nat \<Rightarrow> ('s, busInfo) io" where
  "busLine a i =
     (let o1 = i2cBase + i2cOffset ! i in
      bnd (MustRead32 (Mem a) o1) (\<lambda>v.
      bnd (MustRead32 (Mem a) (o1 + 0x4)) (\<lambda>c.
      bnd (MustRead32 (Mem a) (o1 + 0x14)) (\<lambda>m.
      let s = v AND 0x3; clk = c AND 0xf in
      ret \<lparr>bi_bus = i, bi_clk = 2 ^ unat clk, bi_buffer = drop_bit 6 m AND 0x3,
           bi_master = (s AND 0x1 > 0), bi_slave = (s AND 0x2 > 0)\<rparr>))))"

definition slowDown :: "'s Ast \<Rightarrow> nat \<Rightarrow> ('s, unit) io" where
  "slowDown a bus =
     (let o1 = i2cBase + i2cOffset ! bus in
      bnd (MustRead32 (Mem a) (o1 + 0x4)) (\<lambda>cr.
      MustWrite32 (Mem a) (o1 + 0x4) (cr OR 0xf OR push_bit 8 0x3)))"

section \<open>The loop\<close>

datatype i2cOut = Malformed | Transaction bool u8 "u8 list" "u8 list"

record watcher =
  pst :: u32
  ptx :: u32
  prx :: u32
  writing :: bool
  txs :: "u8 list"
  rxs :: "u8 list"
  skip_tx :: bool

definition watcher_start :: watcher where
  "watcher_start = \<lparr>pst = 0, ptx = 0, prx = 0, writing = False, txs = [], rxs = [], skip_tx = False\<rparr>"

text \<open>One round on the state machine, the transmit and the receive byte.\<close>

definition beginTransaction :: "u32 \<Rightarrow> watcher \<Rightarrow> i2cOut list \<times> watcher" where
  "beginTransaction tx w =
     ((if txs w = [] then [Malformed] else [Transaction (writing w) (hd (txs w) AND 0xfe) (List.tl (txs w)) (rxs w)]),
      w\<lparr>txs := [], rxs := [], writing := (tx AND 0x1 = 0), skip_tx := True\<rparr>)"

definition watchSample :: "u32 \<Rightarrow> u32 \<Rightarrow> u32 \<Rightarrow> watcher \<Rightarrow> i2cOut list \<times> watcher" where
  "watchSample st tx rx w =
     (if st = 0 \<or> (pst w = st \<and> ptx w = tx \<and> prx w = rx) then ([], w)
      else
        (case (if st = 0x9 \<or> st = 0xa then beginTransaction tx w
               else if txs w = [] \<and> st = 0xc then ([], w\<lparr>txs := [ucast tx], skip_tx := True\<rparr>)
               else ([], w)) of
           (out, w) \<Rightarrow>
             let w = (if st = 0xf then w\<lparr>rxs := rxs w @ [ucast rx]\<rparr> else w);
                 w = (if st = 0xd
                      then (if skip_tx w then w\<lparr>skip_tx := False\<rparr> else w\<lparr>txs := txs w @ [ucast tx]\<rparr>) else w)
             in (out, w\<lparr>pst := st, ptx := tx, prx := rx\<rparr>)))"

definition watchRound :: "'s Ast \<Rightarrow> nat \<Rightarrow> watcher \<Rightarrow> ('s, i2cOut list \<times> watcher) io" where
  "watchRound a bus w =
     (let o1 = i2cBase + i2cOffset ! bus in
      bnd (MustRead32 (Mem a) (o1 + 0x20)) (\<lambda>v.
      let rxtx = v AND 0xffff in
      bnd (MustRead32 (Mem a) (o1 + 0x14)) (\<lambda>mr.
      ret (watchSample (drop_bit 19 mr AND 0xf) (rxtx AND 0xff) (drop_bit 8 rxtx) w))))"

text \<open>The first rounds of the loop, and the program up to them. A bus that there is not panics, and the deferred close runs
  only when the program panics, since the loop has no end.\<close>

fun watchRounds :: "nat \<Rightarrow> 's Ast \<Rightarrow> nat \<Rightarrow> watcher \<Rightarrow> ('s, i2cOut list) io" where
  "watchRounds 0 a bus w = ret []"
| "watchRounds (Suc n) a bus w =
     bnd (watchRound a bus w) (\<lambda>(out, w). bnd (watchRounds n a bus w) (\<lambda>outs. ret (out @ outs)))"

definition i2cwatcher_main :: "nat \<Rightarrow> ('s, 's memProvider) io \<Rightarrow> int \<Rightarrow> ('s, busInfo list \<times> i2cOut list) io" where
  "i2cwatcher_main rounds openMem bus =
     bnd (Open openMem) (\<lambda>a s.
     case bnd (mapM (busLine a) [0..<length i2cOffset]) (\<lambda>buses.
          if bus < 0 \<or> int (length i2cOffset) \<le> bus then raise IndexPanic
          else thn (slowDown a (nat bus))
              (bnd (watchRounds rounds a (nat bus) watcher_start) (\<lambda>outs. ret (buses, outs)))) s of
       (Inl p, t) \<Rightarrow> deferring (Close a) (raise p) t
     | (Inr r, t) \<Rightarrow> (Inr r, t))"

section \<open>Samples\<close>

type_synonym sample = "u32 \<times> u32 \<times> u32"

fun watchAll :: "sample list \<Rightarrow> watcher \<Rightarrow> i2cOut list \<times> watcher" where
  "watchAll [] w = ([], w)"
| "watchAll ((st, tx, rx) # xs) w =
     (case watchSample st tx rx w of (out, w') \<Rightarrow> case watchAll xs w' of (outs, w'') \<Rightarrow> (out @ outs, w''))"

text \<open>A sequence of samples that is seen again and again, with pauses in which the bus is idle.\<close>

inductive stutters :: "sample option \<Rightarrow> sample list \<Rightarrow> sample list \<Rightarrow> bool" where
  Done: "stutters p [] []"
| Idle: "stutters p xs ys \<Longrightarrow> stutters p xs ((0, tx, rx) # ys)"
| Again: "stutters (Some x) xs ys \<Longrightarrow> stutters (Some x) xs (x # ys)"
| Next: "stutters (Some x) xs ys \<Longrightarrow> stutters p (x # xs) (x # ys)"

text \<open>The samples of a transaction: the start, the address with its acknowledgement, the bytes written, and the bytes read.\<close>

definition writeSamples :: "u32 \<Rightarrow> u8 list \<Rightarrow> sample list" where
  "writeSamples rx ds = concat (map (\<lambda>d. [(0xc, ucast d, rx), (0xd, ucast d, rx)]) ds)"

fun readSamples :: "u32 \<Rightarrow> u32 \<Rightarrow> u8 list \<Rightarrow> sample list" where
  "readSamples tx rx [] = []"
| "readSamples tx rx (r # rs) = [(0xe, tx, rx), (0xf, tx, ucast r)] @ readSamples tx (ucast r) rs"

definition transactionSamples :: "u32 \<Rightarrow> u32 \<Rightarrow> u8 \<Rightarrow> u8 list \<Rightarrow> u8 list \<Rightarrow> sample list" where
  "transactionSamples t0 rx a ds rs =
     [(0x9, t0, rx), (0xc, ucast a, rx), (0xd, ucast a, rx)] @ writeSamples rx ds @
     readSamples (ucast (last (a # ds))) rx rs"

section \<open>Lemmas\<close>

lemma ucast_back [simp]: "(ucast (ucast (x :: u8) :: u32) :: u8) = x"
  by (rule bit_word_eqI) (simp add: bit_simps)

lemma watchSample_idle: "watchSample 0 tx rx w = ([], w)"
  by (simp add: watchSample_def)

lemma watchSample_again: "watchSample (pst w) (ptx w) (prx w) w = ([], w)"
  by (simp add: watchSample_def)

lemma watchSample_last:
  "st \<noteq> 0 \<Longrightarrow> watchSample st tx rx w = (out, w') \<Longrightarrow> (pst w', ptx w', prx w') = (st, tx, rx)"
  by (auto simp: watchSample_def Let_def split: if_splits prod.splits)

lemma watchAll_stutters:
  assumes "stutters p xs ys" "\<forall>x \<in> set xs. fst x \<noteq> 0" "\<forall>x. p = Some x \<longrightarrow> x = (pst w, ptx w, prx w)"
  shows "watchAll ys w = watchAll xs w"
  using assms
proof (induction arbitrary: w rule: stutters.induct)
  case (Next x xs ys p)
  obtain st tx rx where x: "x = (st, tx, rx)" by (cases x) auto
  obtain out w' where w': "watchSample st tx rx w = (out, w')" by fastforce
  then have "x = (pst w', ptx w', prx w')" using watchSample_last [of st tx rx w] Next.prems(1) x by auto
  then have "watchAll ys w' = watchAll xs w'" using Next by auto
  then show ?case by (simp add: x w')
qed (auto simp: watchSample_idle watchSample_again split: prod.splits)

lemma watchAll_append:
  "watchAll (xs @ ys) w = (case watchAll xs w of (o1, w') \<Rightarrow> case watchAll ys w' of (o2, w'') \<Rightarrow> (o1 @ o2, w''))"
  by (induction xs w rule: watchAll.induct) (auto split: prod.splits)

lemma writeSamples_run:
  assumes "txs w \<noteq> []" "\<not> skip_tx w" "pst w = 0xd"
  shows "watchAll (writeSamples rx ds) w =
    ([], if ds = [] then w else w\<lparr>txs := txs w @ ds, ptx := ucast (last ds), prx := rx\<rparr>)"
  using assms
proof (induction ds arbitrary: w)
  case (Cons d ds)
  have c: "watchSample 0xc (ucast d) rx w = ([], w\<lparr>pst := 0xc, ptx := ucast d, prx := rx\<rparr>)"
    using Cons.prems by (simp add: watchSample_def)
  have k: "watchSample 0xd (ucast d) rx (w\<lparr>pst := 0xc, ptx := ucast d, prx := rx\<rparr>) =
      ([], w\<lparr>pst := 0xd, ptx := ucast d, prx := rx, txs := txs w @ [d]\<rparr>)"
    using Cons.prems by (simp add: watchSample_def)
  have "watchAll (writeSamples rx ds) (w\<lparr>pst := 0xd, ptx := ucast d, prx := rx, txs := txs w @ [d]\<rparr>) =
      ([], if ds = [] then w\<lparr>pst := 0xd, ptx := ucast d, prx := rx, txs := txs w @ [d]\<rparr>
           else w\<lparr>pst := 0xd, ptx := ucast (last ds), prx := rx, txs := txs w @ d # ds\<rparr>)"
    using Cons.prems by (subst Cons.IH) simp_all
  then show ?case using Cons.prems by (auto simp: writeSamples_def c k)
qed (simp add: writeSamples_def)

lemma readSamples_run:
  assumes "txs w \<noteq> []" "pst w \<noteq> 0xe"
  shows "\<exists>w'. watchAll (readSamples tx rx rs) w = ([], w') \<and> txs w' = txs w \<and> rxs w' = rxs w @ rs \<and>
    writing w' = writing w \<and> (pst w' = pst w \<or> pst w' = 0xf)"
  using assms
proof (induction rs arbitrary: w rx)
  case (Cons r rs)
  have e: "watchSample 0xe tx rx w = ([], w\<lparr>pst := 0xe, ptx := tx, prx := rx\<rparr>)"
    using Cons.prems by (simp add: watchSample_def)
  let ?w = "w\<lparr>pst := 0xf, ptx := tx, prx := ucast r, rxs := rxs w @ [r]\<rparr>"
  have f: "watchSample 0xf tx (ucast r) (w\<lparr>pst := 0xe, ptx := tx, prx := rx\<rparr>) = ([], ?w)"
    using Cons.prems by (simp add: watchSample_def)
  obtain w' where "watchAll (readSamples tx (ucast r) rs) ?w = ([], w')" "txs w' = txs ?w" "rxs w' = rxs ?w @ rs"
    "writing w' = writing ?w" "pst w' = pst ?w \<or> pst w' = 0xf"
    using Cons.IH [of ?w "ucast r"] Cons.prems by auto
  then show ?case by (auto simp: e f)
qed simp

section \<open>Properties\<close>

text \<open>C36.
  The watcher puts together the transactions that go by: from any state, the samples of a transaction (however often each is
  repeated and whatever pauses there are) followed by the start of the next one make it print the address, the bytes written and the bytes read,
  in order.
\<close>

theorem i2c_transaction_printed:
  assumes "pst w \<noteq> 0x9" "stutters None (transactionSamples t0 rx a ds rs @ [(0x9, t1, rx1)]) seen"
  shows "\<exists>o1 w'. watchAll seen w = (o1 @ [Transaction (t0 AND 0x1 = 0) (a AND 0xfe) ds rs], w') \<and> length o1 = 1"
proof -
  have nz: "\<forall>x \<in> set (transactionSamples t0 rx a ds rs @ [(0x9, t1, rx1)]). fst x \<noteq> 0"
  proof -
    have "\<forall>x \<in> set (readSamples tx rx' rs). fst x \<noteq> 0" for tx rx'
      by (induction rs arbitrary: rx') auto
    then show ?thesis by (auto simp: transactionSamples_def writeSamples_def)
  qed
  have seen: "watchAll seen w = watchAll (transactionSamples t0 rx a ds rs @ [(0x9, t1, rx1)]) w"
    by (rule watchAll_stutters [OF assms(2) nz]) simp
  obtain o1 where o1: "watchSample 0x9 t0 rx w =
      (o1, w\<lparr>txs := [], rxs := [], writing := (t0 AND 0x1 = 0), skip_tx := True, pst := 0x9, ptx := t0, prx := rx\<rparr>)" "length o1 = 1"
    using assms(1) by (auto simp: watchSample_def beginTransaction_def)
  let ?w = "w\<lparr>txs := [a], rxs := [], writing := (t0 AND 0x1 = 0), skip_tx := False, pst := 0xd, ptx := ucast a, prx := rx\<rparr>"
  have start: "watchAll [(0x9, t0, rx), (0xc, ucast a, rx), (0xd, ucast a, rx)] w = (o1, ?w)"
    by (simp add: o1) (simp add: watchSample_def)
  obtain v0 where wr: "watchAll (writeSamples rx ds) ?w = ([], v0)" "txs v0 = a # ds" "rxs v0 = []"
    "writing v0 = (t0 AND 0x1 = 0)" "pst v0 = 0xd"
    using writeSamples_run [of ?w rx ds] by (cases "ds = []") auto
  obtain v where v: "watchAll (readSamples (ucast (last (a # ds))) rx rs) v0 = ([], v)"
    "txs v = txs v0" "rxs v = rxs v0 @ rs" "writing v = writing v0" "pst v = pst v0 \<or> pst v = 0xf"
    using readSamples_run [of v0 "ucast (last (a # ds))" rx rs] wr(2,5) by auto
  then have w': "txs v = a # ds" "rxs v = rs" "writing v = (t0 AND 0x1 = 0)" "pst v \<noteq> 0x9" using wr by auto
  then obtain w' where "watchSample 0x9 t1 rx1 v = ([Transaction (t0 AND 0x1 = 0) (a AND 0xfe) ds rs], w')"
    by (simp add: watchSample_def beginTransaction_def)
  then have "watchAll seen w = (o1 @ [Transaction (t0 AND 0x1 = 0) (a AND 0xfe) ds rs], w')"
    by (simp only: seen transactionSamples_def watchAll_append start wr(1) v(1) prod.case) simp
  then show ?thesis using o1(2) by blast
qed

theorem i2c_transaction_printed_witness:
  "\<exists>o1 w'. watchAll [(0x9, 0x42, 0), (0, 0, 0), (0xc, 0x42, 0), (0xc, 0x42, 0), (0xd, 0x42, 0), (0xc, 7, 0), (0xd, 7, 0), (0x9, 1, 0)]
       watcher_start = (o1 @ [Transaction True 0x42 [7] []], w') \<and> length o1 = 1"
proof -
  have "stutters None (transactionSamples 0x42 0 0x42 [7] [] @ [(0x9, 1, 0)])
     [(0x9, 0x42, 0), (0, 0, 0), (0xc, 0x42, 0), (0xc, 0x42, 0), (0xd, 0x42, 0), (0xc, 7, 0), (0xd, 7, 0), (0x9, 1, 0)]"
    by (simp add: transactionSamples_def writeSamples_def) (rule stutters.Next, rule stutters.Idle,
        rule stutters.Next, rule stutters.Again, (rule stutters.Next)+, rule stutters.Done)
  from i2c_transaction_printed [OF _ this, of watcher_start] show ?thesis by (simp add: watcher_start_def)
qed

end
