(* ===== verification/Remote.thy ===== *)
theory Remote
  imports Go_Strconv
begin

text \<open>
  Remote control: the servers of \<^verbatim>\<open>pkg/bmc/grpc.go\<close> (which addresses they listen on and with which options) and their
  client \<^verbatim>\<open>cmd/ubmcctl\<close> (which address it dials, which requests it sends, and the description of the methods it prints). The gRPC library, its
  reflection service and the standard input are arguments.
\<close>

section \<open>Servers\<close>

datatype 'c serverOption = StreamInterceptor | UnaryInterceptor | Creds 'c

record 'c grpcServer =
  srv_addr :: string
  srv_opts :: "'c serverOption list"

record 'c servers =
  running :: "'c grpcServer list"
  tlsCertificateLoaded :: int
  tlsCertificateExpiry :: int

definition no_servers :: "'c servers" where
  "no_servers = \<lparr>running = [], tlsCertificateLoaded = 0, tlsCertificateExpiry = 0\<rparr>"

text \<open>
  \<open>notAfter\<close> is the expiry of the first certificate of the chain: \<open>None\<close> if it does not parse, and a panic if the chain is empty.
\<close>

definition newServer :: "('c \<Rightarrow> panic + int option) \<Rightarrow> string \<Rightarrow> 'c option \<Rightarrow> ('c servers, unit) io" where
  "newServer notAfter l c s =
     (case c of
        None \<Rightarrow> (Inr (), s\<lparr>running := running s @ [\<lparr>srv_addr = l, srv_opts = [StreamInterceptor, UnaryInterceptor]\<rparr>]\<rparr>)
      | Some c \<Rightarrow>
          (case notAfter c of
             Inl p \<Rightarrow> (Inl p, s)
           | Inr exp \<Rightarrow>
               let s = (case exp of
                          None \<Rightarrow> s
                        | Some t \<Rightarrow> s\<lparr>tlsCertificateLoaded := 1, tlsCertificateExpiry := t\<rparr>)
               in (Inr (), s\<lparr>running := running s @ [\<lparr>srv_addr = l, srv_opts = [Creds c]\<rparr>]\<rparr>)))"

definition EnableRemote :: "('c \<Rightarrow> panic + int option) \<Rightarrow> (string \<Rightarrow> bool) \<Rightarrow> 'c option \<Rightarrow> ('c servers, bool) io" where
  "EnableRemote notAfter listens c =
     (if listens '':443'' then thn (newServer notAfter '':443'' c) (ret True) else ret False)"

definition startGRPC :: "('c \<Rightarrow> panic + int option) \<Rightarrow> (string \<Rightarrow> bool) \<Rightarrow> ('c servers, bool) io" where
  "startGRPC notAfter listens =
     (if listens ''[::1]:80'' then thn (newServer notAfter ''[::1]:80'' None) (ret True) else ret False)"

definition encrypted :: "'c grpcServer \<Rightarrow> bool" where
  "encrypted g \<longleftrightarrow> (\<exists>c. Creds c \<in> set (srv_opts g))"

section \<open>The client\<close>

text \<open>The address to dial, and whether the connection is encrypted.\<close>

definition dialTarget :: "string \<Rightarrow> string \<times> bool" where
  "dialTarget host =
     (if host = ''localhost'' then (''[::1]:80'', False)
      else ((if CHR '':'' \<in> set host then host else host @ '':443''), True))"

definition methodName :: "string \<Rightarrow> string" where
  "methodName m = ''bmc.ManagementService.'' @ m"

text \<open>\<^verbatim>\<open>strings.Join\<close> with a space, for the text of the request.\<close>

fun joinSpaces :: "string list \<Rightarrow> string" where
  "joinSpaces [] = []"
| "joinSpaces [x] = x"
| "joinSpaces (x # y # xs) = x @ '' '' @ joinSpaces (y # xs)"

text \<open>
  \<^verbatim>\<open>ReadString('\n')\<close> on a fresh \<^verbatim>\<open>bufio.Reader\<close>: the chunks that the standard input gives are read up to the first newline; what a chunk has
  behind it is lost with the reader. Without a newline the end of the input is an error.
\<close>

fun freshReadLine :: "string \<Rightarrow> string list \<Rightarrow> string option \<times> string list" where
  "freshReadLine acc [] = (None, [])"
| "freshReadLine acc (c # cs) =
     (if CHR 0x0A \<in> set c
      then (Some (acc @ takeWhile (\<lambda>x. x \<noteq> CHR 0x0A) c @ [CHR 0x0A]), cs)
      else freshReadLine (acc @ c) cs)"

text \<open>The supplier of requests in \<^verbatim>\<open>call\<close>: a request or the end, the flag \<^verbatim>\<open>sent\<close> and the input left.\<close>

datatype supplyResult = Request string | EndOfRequests | ReadFailed

definition rd :: "string \<Rightarrow> bool \<times> string list \<Rightarrow> supplyResult \<times> bool \<times> string list" where
  "rd text st =
     (case st of (sent, stdin) \<Rightarrow>
        if text = ''-'' then
          (case freshReadLine [] stdin of
             (None, stdin') \<Rightarrow> (ReadFailed, sent, stdin')
           | (Some line, stdin') \<Rightarrow> (Request line, sent, stdin'))
        else if sent \<or> text = [] then (EndOfRequests, sent, stdin)
        else (Request text, True, stdin))"

text \<open>All that is supplied until the end or an error; the fuel bounds the number of requests.\<close>

fun supplied :: "nat \<Rightarrow> string \<Rightarrow> bool \<times> string list \<Rightarrow> string list \<times> supplyResult" where
  "supplied 0 text st = ([], EndOfRequests)"
| "supplied (Suc n) text st =
     (case rd text st of
        (Request r, st') \<Rightarrow> (case supplied n text st' of (rs, e) \<Rightarrow> (r # rs, e))
      | (e, st') \<Rightarrow> ([], e))"

datatype callEnd = CallFailed | RpcError string | CallOk

text \<open>
  \<^verbatim>\<open>call\<close>: \<open>invoke\<close> is the RPC library, which gets the method and the supplier's results, and returns an error or the status with its
  code (0 is OK).
\<close>

definition ubmcctl_call ::
  "(string \<Rightarrow> string list \<times> supplyResult \<Rightarrow> unit + nat \<times> string) \<Rightarrow> nat \<Rightarrow> string list \<Rightarrow> string \<Rightarrow> string \<Rightarrow> callEnd" where
  "ubmcctl_call invoke n stdin m text =
     (case invoke (methodName m) (supplied n text (False, stdin)) of
        Inl _ \<Rightarrow> CallFailed
      | Inr (code, msg) \<Rightarrow> if code \<noteq> 0 then RpcError msg else CallOk)"

section \<open>The description of the methods\<close>

datatype fieldType = TMessage string | TEnum string | TUint32 | TInt32 | TString | TBytes | TOther

type_synonym field = "string \<times> fieldType"

text \<open>What the reflection service tells: the fields of the messages, the values of the enumerations and the methods.\<close>

record descriptors =
  messages :: "string \<rightharpoonup> field list"
  enums :: "string \<rightharpoonup> (string \<times> int) list"
  methods :: "(string \<times> string \<times> string) list option"

abbreviation newline :: string where
  "newline \<equiv> [CHR 0x0A]"

definition padRight :: "nat \<Rightarrow> string \<Rightarrow> string" where
  "padRight n s = s @ replicate (n - length s) CHR '' ''"

fun joinBars :: "string list \<Rightarrow> string" where
  "joinBars [] = []"
| "joinBars [x] = x"
| "joinBars (x # y # xs) = x @ '' | '' @ joinBars (y # xs)"

definition printEnum :: "descriptors \<Rightarrow> string \<Rightarrow> panic + string" where
  "printEnum ds e =
     (case enums ds e of
        None \<Rightarrow> Inl (LogFatal ''FindSymbol'')
      | Some vs \<Rightarrow> Inr (''['' @ joinBars (map fst (filter (\<lambda>v. snd v \<noteq> 0) vs)) @ '']'' @ newline))"

definition typeText :: "fieldType \<Rightarrow> string" where
  "typeText t =
     (case t of TUint32 \<Rightarrow> ''[number (>= 0)]'' | TInt32 \<Rightarrow> ''[number (positive or negative)]''
        | TString \<Rightarrow> ''[string]'' | TBytes \<Rightarrow> ''[bytes]'' | _ \<Rightarrow> ''[unknown type :(]'') @ newline"

text \<open>The text of the fields, given how a nested message is printed.\<close>

fun printFields :: "(string \<Rightarrow> panic + string) \<Rightarrow> descriptors \<Rightarrow> string \<Rightarrow> nat \<Rightarrow> field list \<Rightarrow> panic + string" where
  "printFields nested ds pad ml [] = Inr []"
| "printFields nested ds pad ml ((n, t) # fs) =
     (case (case t of
              TMessage m \<Rightarrow> map_sum id (\<lambda>b. pad @ n @ '' {'' @ newline @ b @ pad @ ''}'' @ newline) (nested m)
            | TEnum e \<Rightarrow> map_sum id (\<lambda>b. pad @ padRight ml n @ '': '' @ b) (printEnum ds e)
            | _ \<Rightarrow> Inr (pad @ padRight ml n @ '': '' @ typeText t)) of
        Inl p \<Rightarrow> Inl p
      | Inr x \<Rightarrow> map_sum id (\<lambda>y. x @ y) (printFields nested ds pad ml fs))"

fun printMessage :: "nat \<Rightarrow> descriptors \<Rightarrow> string \<Rightarrow> nat \<Rightarrow> panic + string" where
  "printMessage 0 ds md depth = Inl NoReturn"
| "printMessage (Suc k) ds md depth =
     (case messages ds md of
        None \<Rightarrow> Inl (LogFatal ''FindSymbol'')
      | Some fs \<Rightarrow>
          let ml = foldl (\<lambda>m f. max m (length (fst f))) 0 fs; pad = concat (replicate depth ''  '') in
          map_sum id (\<lambda>b. b @ (if fs = [] then pad @ ''(empty)'' @ newline else []))
            (printFields (\<lambda>m. printMessage k ds m (depth + 1)) ds pad ml fs))"

definition printMethod :: "nat \<Rightarrow> descriptors \<Rightarrow> string \<times> string \<times> string \<Rightarrow> panic + string" where
  "printMethod k ds m =
     (case m of (name, inType, outType) \<Rightarrow>
        case printMessage k ds inType 1 of
          Inl p \<Rightarrow> Inl p
        | Inr i \<Rightarrow>
            map_sum id (\<lambda>out. ''Method: '' @ name @ newline @ '' Request:'' @ newline @ i @ newline @ '' Response:'' @ newline @ out @ newline)
              (printMessage k ds outType 1))"

fun printMethods :: "nat \<Rightarrow> descriptors \<Rightarrow> (string \<times> string \<times> string) list \<Rightarrow> panic + string" where
  "printMethods k ds [] = Inr []"
| "printMethods k ds (m # ms) =
     (case printMethod k ds m of Inl p \<Rightarrow> Inl p | Inr x \<Rightarrow> map_sum id (\<lambda>y. x @ y) (printMethods k ds ms))"

definition usage :: "nat \<Rightarrow> descriptors \<Rightarrow> panic + string" where
  "usage k ds =
     (case methods ds of
        None \<Rightarrow> Inl (LogFatal ''grpcurl.ListMethods'')
      | Some ms \<Rightarrow> printMethods k ds ms)"

text \<open>\<^verbatim>\<open>main\<close>: \<open>credentials\<close> and \<open>dials\<close> tell whether the TLS credentials can be loaded and the address answers.\<close>

datatype ubmcctlEnd = NoCredentials | NotConnected | Usage "panic + string" | Called callEnd

definition ubmcctl_main ::
  "(string \<Rightarrow> string list \<times> supplyResult \<Rightarrow> unit + nat \<times> string) \<Rightarrow> nat \<Rightarrow> descriptors \<Rightarrow> bool \<Rightarrow> (string \<Rightarrow> bool \<Rightarrow> bool) \<Rightarrow>
   string list \<Rightarrow> string \<Rightarrow> string list \<Rightarrow> ubmcctlEnd" where
  "ubmcctl_main invoke n ds credentials dials stdin host args =
     (case dialTarget host of (target, tls) \<Rightarrow>
        if tls \<and> \<not> credentials then NoCredentials
        else if \<not> dials target tls then NotConnected
        else (case args of
                [] \<Rightarrow> Usage (usage n ds)
              | m # rest \<Rightarrow> Called (ubmcctl_call invoke n stdin m (joinSpaces rest))))"

section \<open>Lemmas\<close>

lemma freshReadLine_shorter: "freshReadLine acc cs = (Some l, cs') \<Longrightarrow> length cs' < length cs"
  by (induction acc cs rule: freshReadLine.induct) (auto split: if_splits)

lemma supplied_bound: "length (fst (supplied n ''-'' (b, cs))) \<le> length cs"
proof (induction n arbitrary: cs)
  case (Suc n)
  show ?case
  proof (cases "freshReadLine [] cs")
    case (Pair r cs')
    show ?thesis
    proof (cases r)
      case (Some l)
      have "length cs' < length cs" using freshReadLine_shorter Pair Some by blast
      then show ?thesis using Suc.IH [of cs'] Pair Some
        by (cases "supplied n ''-'' (b, cs')") (simp add: rd_def)
    qed (simp add: rd_def Pair)
  qed
qed simp

text \<open>Descriptions in which messages nest only finitely deep, and every name is known.\<close>

definition ranked :: "(string \<Rightarrow> nat) \<Rightarrow> descriptors \<Rightarrow> bool" where
  "ranked r ds \<longleftrightarrow>
     (\<forall>m fs n t. messages ds m = Some fs \<and> (n, t) \<in> set fs \<longrightarrow>
        (case t of TMessage k \<Rightarrow> r k < r m \<and> messages ds k \<noteq> None | TEnum e \<Rightarrow> enums ds e \<noteq> None | _ \<Rightarrow> True))"

lemma printFields_returns:
  assumes "\<And>n m. (n, TMessage m) \<in> set fs \<Longrightarrow> \<exists>x. nested m = Inr x"
    and "\<And>n e. (n, TEnum e) \<in> set fs \<Longrightarrow> enums ds e \<noteq> None"
  shows "\<exists>x. printFields nested ds pad ml fs = Inr x"
  using assms
proof (induction fs)
  case (Cons f fs)
  obtain n t where f: "f = (n, t)" by fastforce
  have "\<exists>y. printFields nested ds pad ml fs = Inr y" by (rule Cons.IH; rule Cons.prems; erule list.set_intros)
  moreover have "\<exists>x. nested m = Inr x" if "t = TMessage m" for m using Cons.prems(1) [of n m] f that by auto
  moreover have "enums ds e \<noteq> None" if "t = TEnum e" for e using Cons.prems(2) [of n e] f that by auto
  ultimately show ?case by (cases t) (auto simp: f printEnum_def)
qed simp

lemma printMessage_returns:
  "ranked r ds \<Longrightarrow> messages ds m \<noteq> None \<Longrightarrow> r m < k \<Longrightarrow> \<exists>x. printMessage k ds m depth = Inr x"
proof (induction k arbitrary: m depth)
  case (Suc k)
  then obtain fs where fs: "messages ds m = Some fs" by auto
  have "\<exists>x. printFields (\<lambda>m. printMessage k ds m (depth + 1)) ds pad ml fs = Inr x" for pad ml
  proof (rule printFields_returns)
    fix n q assume "(n, TMessage q) \<in> set fs"
    then have "r q < r m" "messages ds q \<noteq> None" using Suc.prems(1) fs by (force simp: ranked_def)+
    then show "\<exists>x. printMessage k ds q (depth + 1) = Inr x" using Suc.prems by (intro Suc.IH) auto
  next
    fix n e assume "(n, TEnum e) \<in> set fs"
    then show "enums ds e \<noteq> None" using Suc.prems(1) fs by (force simp: ranked_def)
  qed
  then obtain x where "printFields (\<lambda>m. printMessage k ds m (depth + 1)) ds (concat (replicate depth ''  ''))
      (foldl (\<lambda>m f. max m (length (fst f))) 0 fs) fs = Inr x" by blast
  then show ?case by (simp add: fs Let_def)
qed simp

section \<open>Properties\<close>



text \<open>Printing the usage ends, without an error, whenever the messages that the server describes nest only finitely deep and all
  names are known; the depth is enough fuel.
\<close>

theorem ubmcctl_usage_returns:
  assumes "ranked r ds" "methods ds = Some ms"
    and "\<forall>(n, i, out) \<in> set ms. messages ds i \<noteq> None \<and> r i < k \<and> messages ds out \<noteq> None \<and> r out < k"
  shows "\<exists>x. usage k ds = Inr x"
proof -
  have "\<exists>x. printMethods k ds ms = Inr x" using assms(3)
  proof (induction ms)
    case (Cons m ms)
    obtain n i out where m: "m = (n, i, out)" by (cases m) auto
    obtain x y where "printMessage k ds i 1 = Inr x" "printMessage k ds out 1 = Inr y"
      using Cons.prems printMessage_returns [OF assms(1)] m by fastforce
    then show ?case using Cons m by (auto simp: printMethod_def)
  qed simp
  then show ?thesis by (simp add: usage_def assms(2))
qed

definition demo_descriptors :: descriptors where
  "demo_descriptors =
     \<lparr>messages = [''Resp'' \<mapsto> [(''fan'', TMessage ''Fan'')], ''Fan'' \<mapsto> [(''rpm'', TUint32)], ''Req'' \<mapsto> []],
      enums = Map.empty, methods = Some [(''GetFans'', ''Req'', ''Resp'')]\<rparr>"

theorem ubmcctl_usage_returns_witness: "\<exists>x. usage 2 demo_descriptors = Inr x"
  using ubmcctl_usage_returns [of "\<lambda>m. if m = ''Resp'' then 1 else 0" demo_descriptors "[(''GetFans'', ''Req'', ''Resp'')]" 2]
  by (simp add: demo_descriptors_def ranked_def)

text \<open>Requests from the standard input are lost: however many lines arrive, no more are sent than the input was read in pieces, since every
  request makes a new buffered reader and drops what the old one had read ahead.
\<close>

theorem ubmcctl_stdin_requests:
  "length (fst (supplied n ''-'' (False, chunks))) \<le> length chunks \<and>
   fst (supplied 3 ''-'' (False, [''a'' @ newline @ ''b'' @ newline])) = [''a'' @ newline]"
proof -
  have "fst (supplied 3 ''-'' (False, [''a'' @ newline @ ''b'' @ newline])) = [''a'' @ newline]"
    by (simp add: numeral_3_eq_3 rd_def)
  then show ?thesis using supplied_bound by blast
qed

end
