(* ===== verification/Daemon.thy ===== *)
theory Daemon
  imports Startup
begin

text \<open>
  The rest of \<^verbatim>\<open>pkg/bmc/system.go\<close>: the shell with the goroutine that passes interrupts on to it, the system configuration, the seed of
  the random generator, the repeated synchronisation of the time and the reboot. The shell is a step relation of two goroutines
  that meet on the channel \<^verbatim>\<open>exited\<close>.
\<close>

section \<open>The shell\<close>

text \<open>\<^verbatim>\<open>Shell\<close> before the process is started, while it runs, after \<^verbatim>\<open>cmd.Run\<close>, and back.\<close>

datatype shell = Starting | Running | Ended | Returned

text \<open>
  \<^verbatim>\<open>intrHandler\<close> before its channel is registered, in the \<^verbatim>\<open>select\<close>, before the signal is passed on, back, and after a panic: the process of a
  command that is not started is nil.
\<close>

datatype handler = Notify | Select | Forward | HandlerReturned | HandlerPanic

record shellState =
  shell :: shell
  processSet :: bool
  handler :: handler
  pendingSignal :: bool
  channels :: nat
  forwarded :: nat
  lateSignals :: nat

definition shell_init :: shellState where
  "shell_init =
     \<lparr>shell = Starting, processSet = False, handler = Notify, pendingSignal = False, channels = 0, forwarded = 0, lateSignals = 0\<rparr>"

text \<open>A panic of the goroutine ends the program: no rule applies after it.\<close>

inductive shellStep :: "shellState \<Rightarrow> shellState \<Rightarrow> bool" where
  Start: "shell s = Starting \<Longrightarrow> handler s \<noteq> HandlerPanic \<Longrightarrow> shellStep s (s\<lparr>shell := Running, processSet := True\<rparr>)"
| StartFails: "shell s = Starting \<Longrightarrow> handler s \<noteq> HandlerPanic \<Longrightarrow> shellStep s (s\<lparr>shell := Ended\<rparr>)"
| ProcessEnds: "shell s = Running \<Longrightarrow> handler s \<noteq> HandlerPanic \<Longrightarrow> shellStep s (s\<lparr>shell := Ended\<rparr>)"
| MakeChannel: "handler s = Notify \<Longrightarrow>
    shellStep s (s\<lparr>handler := Select, channels := channels s + 1, pendingSignal := False\<rparr>)"
| Interrupt: "0 < channels s \<Longrightarrow> handler s \<noteq> HandlerPanic \<Longrightarrow> shellStep s (s\<lparr>pendingSignal := True\<rparr>)"
| Receive: "handler s = Select \<Longrightarrow> pendingSignal s \<Longrightarrow> shellStep s (s\<lparr>handler := Forward, pendingSignal := False\<rparr>)"
| SignalNil: "handler s = Forward \<Longrightarrow> \<not> processSet s \<Longrightarrow> shellStep s (s\<lparr>handler := HandlerPanic\<rparr>)"
| SignalProcess: "handler s = Forward \<Longrightarrow> processSet s \<Longrightarrow> shell s = Running \<Longrightarrow>
    shellStep s (s\<lparr>handler := Notify, forwarded := forwarded s + 1\<rparr>)"
| SignalLate: "handler s = Forward \<Longrightarrow> processSet s \<Longrightarrow> shell s = Ended \<Longrightarrow>
    shellStep s (s\<lparr>handler := Notify, lateSignals := lateSignals s + 1\<rparr>)"
| Exited: "handler s = Select \<Longrightarrow> shell s = Ended \<Longrightarrow>
    shellStep s (s\<lparr>handler := HandlerReturned, shell := Returned\<rparr>)"

definition shell_ok :: "shellState \<Rightarrow> bool" where
  "shell_ok s \<longleftrightarrow>
     (shell s = Returned \<longleftrightarrow> handler s = HandlerReturned) \<and>
     channels s = forwarded s + lateSignals s + (if handler s = Notify then 0 else 1)"

lemma shellStep_ok: "shellStep s t \<Longrightarrow> shell_ok s \<Longrightarrow> shell_ok t"
  by (induction rule: shellStep.induct) (auto simp: shell_ok_def)

lemma shell_reachable_ok: "shellStep\<^sup>*\<^sup>* shell_init s \<Longrightarrow> shell_ok s"
proof (induction rule: rtranclp_induct)
  case base
  show ?case by (simp add: shell_init_def shell_ok_def)
next
  case (step t u)
  then show ?case by (blast intro: shellStep_ok)
qed

lemma steps_trans: "shellStep s t \<Longrightarrow> shellStep\<^sup>*\<^sup>* t u \<Longrightarrow> shellStep\<^sup>*\<^sup>* s u"
  by (rule converse_rtranclp_into_rtranclp)

section \<open>Configuration, seed, time and reboot\<close>

text \<open>
  \<^verbatim>\<open>loadSysconf\<close>: the contents of the file if it can be read, and the parser, which fills in a configuration and tells whether it met an
  error. Only warnings are logged.
\<close>

datatype sysconfWarning = CannotRead | CannotParse

definition loadSysconf :: "(u8 list \<Rightarrow> 'c \<times> bool) \<Rightarrow> u8 list option \<Rightarrow> 'c \<times> sysconfWarning list" where
  "loadSysconf unmarshal f =
     (let (b, w) = (case f of None \<Rightarrow> ([], [CannotRead]) | Some b \<Rightarrow> (b, [])) in
      case unmarshal b of (c, ok) \<Rightarrow> (c, w @ (if ok then [] else [CannotParse])))"

text \<open>The seed: 8 bytes from the system, little endian, as a signed number.\<close>

definition seedRandomGenerator :: "u8 list option \<Rightarrow> panic + int" where
  "seedRandomGenerator rnd =
     (case rnd of
        None \<Rightarrow> Inl (LogFatal ''Unable to read random seed, cannot safely continue'')
      | Some b \<Rightarrow> Inr (wrap 64 (uint (of_le32 (take 4 b)) + 2 ^ 32 * uint (of_le32 (take 4 (drop 4 b))))))"

text \<open>\<^verbatim>\<open>backgroundTimeSync\<close> over its rounds so far: the delays before them, the waits of each and the times that were acquired, with
  whether the clock could be set.\<close>

fun backgroundTimeSync ::
  "(nat \<Rightarrow> int) \<Rightarrow> (nat \<Rightarrow> int) \<Rightarrow> (int \<Rightarrow> bool) \<Rightarrow> nat \<Rightarrow> (panic + (timeError + int)) list list \<Rightarrow>
   (int \<times> int list \<times> (int \<times> bool) option) list" where
  "backgroundTimeSync refresh retry Settimeofday n [] = []"
| "backgroundTimeSync refresh retry Settimeofday n (as # rs) =
     (case acquireTime retry Settimeofday 0 as of
        (ws, None) \<Rightarrow> [(refresh n, ws, None)]
      | (ws, Some t) \<Rightarrow> (refresh n, ws, Some t) # backgroundTimeSync refresh retry Settimeofday (n + 1) rs)"

definition Reboot :: "bool \<Rightarrow> panic + unit" where
  "Reboot reboots = (if reboots then Inr () else Inl (LogFatal ''reboot failed''))"

section \<open>Properties\<close>

text \<open>C32.
  The shell comes back: once its command has ended, and unless the goroutine that passes on interrupts has panicked or is about to,
  with an interrupt for a process that could not be started, both can always go on and return together; and every interrupt that was
  handled has left a registered channel behind.
\<close>

theorem Shell_returns:
  assumes "shellStep\<^sup>*\<^sup>* shell_init s" "shell s = Ended" "handler s \<noteq> HandlerPanic"
    and started: "handler s = Forward \<longrightarrow> processSet s"
  shows "(\<exists>t. shellStep\<^sup>*\<^sup>* s t \<and> shell t = Returned \<and> handler t = HandlerReturned) \<and>
    channels s = forwarded s + lateSignals s + (if handler s = Notify then 0 else 1)"
proof -
  have ok: "shell_ok s" using assms(1) by (rule shell_reachable_ok)
  have fin: "\<exists>t. shellStep\<^sup>*\<^sup>* u t \<and> shell t = Returned \<and> handler t = HandlerReturned"
    if "shell u = Ended" "handler u = Select" for u
    using r_into_rtranclp [of shellStep, OF Exited [OF that(2,1)]] by (intro exI) auto
  have from_notify: "\<exists>t. shellStep\<^sup>*\<^sup>* u t \<and> shell t = Returned \<and> handler t = HandlerReturned"
    if "shell u = Ended" "handler u = Notify" for u
    using fin [of "u\<lparr>handler := Select, channels := channels u + 1, pendingSignal := False\<rparr>"]
      steps_trans [OF MakeChannel [OF that(2)]] that(1) by auto
  have "\<exists>t. shellStep\<^sup>*\<^sup>* s t \<and> shell t = Returned \<and> handler t = HandlerReturned"
  proof (cases "handler s")
    case Forward
    then show ?thesis
      using from_notify [of "s\<lparr>handler := Notify, lateSignals := lateSignals s + 1\<rparr>"] assms(2)
        steps_trans [OF SignalLate [OF Forward _ assms(2)]] started Forward by auto
  qed (use fin from_notify assms(2,3) ok in \<open>auto simp: shell_ok_def\<close>)
  with ok show ?thesis by (simp add: shell_ok_def)
qed

theorem Shell_returns_witness:
  "\<exists>t. shellStep\<^sup>*\<^sup>* (shell_init\<lparr>shell := Ended\<rparr>) t \<and> shell t = Returned \<and> handler t = HandlerReturned"
proof -
  have "shellStep\<^sup>*\<^sup>* shell_init (shell_init\<lparr>shell := Ended\<rparr>)"
    by (rule r_into_rtranclp, rule StartFails) (simp_all add: shell_init_def)
  from Shell_returns [OF this] show ?thesis by (simp add: shell_init_def)
qed

end
