(* ===== verification/Default_Config.thy ===== *)
theory Default_Config
  imports Ttime Cert
begin

text \<open>
  The configuration (\<^verbatim>\<open>config/config.go\<close>) and what the daemon gets from the default one: its roughtime servers with
  their keys, and the settings of the certificate manager. The values that the build generates (version, authorized
  keys, the CA of the simulated server, the agreement to the terms) are arguments.
\<close>

section \<open>The configuration\<close>

type_synonym NtpServer = string

definition NtpServer_Server :: "NtpServer \<Rightarrow> string" where
  "NtpServer_Server n = n"

record Version =
  ver_Version :: string
  ver_GitHash :: string

record ACME =
  acme_Directory :: string
  acme_Contact :: string
  acme_TermsAgreed :: bool
  acme_APICA :: string

record Config =
  RoughtimeServers :: "RoughtimeServer list"
  NtpServers :: "NtpServer list"
  StartDebugSshServer :: bool
  DebugSshServerKeys :: "string list"
  cfg_Version :: Version
  cfg_ACME :: ACME

definition KEY_TYPE_ED25519 :: string where
  "KEY_TYPE_ED25519 = ''ed25519''"

definition defaultServer :: "string \<Rightarrow> string \<Rightarrow> RoughtimeServer" where
  "defaultServer addr key = \<lparr>Protocol = ''udp'', Address = addr, PublicKey = key, PublicKeyType = KEY_TYPE_ED25519\<rparr>"

definition DefaultConfig :: "string list \<Rightarrow> string \<Rightarrow> string \<Rightarrow> bool \<Rightarrow> string \<Rightarrow> Config" where
  "DefaultConfig authorizedKeys gitVersion gitHash termsAgreed simPebbleAPICA =
     \<lparr>RoughtimeServers =
        [defaultServer ''roughtime.cloudflare.com:2002'' ''gD63hSj3ScS+wuOeGrubXlq35N1c5Lby/S+T7MNTjxo='',
         defaultServer ''roughtime.sandbox.google.com:2002'' ''etPaaIxcBMY1oUeGpwvPMCJMwlRVNxv51KK/tktoJTQ='',
         defaultServer ''time.0xt.ca:2002'' ''iBVjxg/1j7y1+kQUTBYdTabxCppesU/07D4PMDJk2WA='',
         defaultServer ''roughtime.int80h.com:2002'' ''AW5uAoTSTDfG5NfY1bTh08GUnOqlRb+HVhbJ3ODJvsE=''],
      NtpServers = [],
      StartDebugSshServer = True,
      DebugSshServerKeys = authorizedKeys,
      cfg_Version = \<lparr>ver_Version = gitVersion, ver_GitHash = gitHash\<rparr>,
      cfg_ACME = \<lparr>acme_Directory = ''https://10.0.2.2:14000/dir'', acme_Contact = ''mailto:nobody@localhost'',
                  acme_TermsAgreed = termsAgreed, acme_APICA = simPebbleAPICA\<rparr>\<rparr>"

text \<open>What \<^verbatim>\<open>renew\<close> reads of the settings: \<open>parses\<close> tells whether a text has certificates.\<close>

definition managerConfig :: "(string \<Rightarrow> bool) \<Rightarrow> ACME \<Rightarrow> acmeConfig" where
  "managerConfig parses a =
     \<lparr>cfg_APICA_ok = parses (acme_APICA a), cfg_Contact = acme_Contact a, cfg_TermsAgreed = acme_TermsAgreed a\<rparr>"

section \<open>Keys in base64\<close>

text \<open>The standard alphabet.\<close>

definition base64_digit :: "char \<Rightarrow> nat option" where
  "base64_digit c =
     (let n = of_char c :: nat in
      if 65 \<le> n \<and> n \<le> 90 then Some (n - 65)
      else if 97 \<le> n \<and> n \<le> 122 then Some (n - 71)
      else if 48 \<le> n \<and> n \<le> 57 then Some (n + 4)
      else if n = 43 then Some 62
      else if n = 47 then Some 63
      else None)"

text \<open>The number that some digits make.\<close>

fun base64_digits :: "nat \<Rightarrow> char list \<Rightarrow> nat option" where
  "base64_digits acc [] = Some acc"
| "base64_digits acc (c # cs) = (case base64_digit c of None \<Rightarrow> None | Some d \<Rightarrow> base64_digits (64 * acc + d) cs)"

text \<open>
  \<^verbatim>\<open>base64.StdEncoding.DecodeString\<close>: groups of four digits, where the last one may end with one or two \<^verbatim>\<open>=\<close>; line ends are
  skipped, and bits that are left over are not looked at.
\<close>

fun decodeGroups :: "string \<Rightarrow> u8 list option" where
  "decodeGroups [] = Some []"
| "decodeGroups (a # b # c # d # rest) =
     (if d = CHR ''='' then
        (if rest \<noteq> [] then None
         else if c = CHR ''='' then map_option (\<lambda>v. [of_nat (v div 16)]) (base64_digits 0 [a, b])
         else map_option (\<lambda>v. [of_nat (v div 1024), of_nat (v div 4)]) (base64_digits 0 [a, b, c]))
      else
        (case base64_digits 0 [a, b, c, d] of
           None \<Rightarrow> None
         | Some v \<Rightarrow> map_option (append [of_nat (v div 65536), of_nat (v div 256), of_nat v]) (decodeGroups rest)))"
| "decodeGroups _ = None"

definition DecodeString :: "string \<Rightarrow> u8 list option" where
  "DecodeString s = decodeGroups (filter (\<lambda>c. c \<noteq> CHR 0x0A \<and> c \<noteq> CHR 0x0D) s)"

text \<open>\<^verbatim>\<open>base64.StdEncoding.EncodeToString\<close>.\<close>

definition base64_char :: "nat \<Rightarrow> char" where
  "base64_char n =
     (if n < 26 then char_of (n + 65) else if n < 52 then char_of (n + 71) else if n < 62 then char_of (n - 4)
      else if n = 62 then CHR ''+'' else CHR ''/'')"

fun EncodeToString :: "u8 list \<Rightarrow> string" where
  "EncodeToString [] = []"
| "EncodeToString [a] = (let v = unat a * 16 in [base64_char (v div 64), base64_char (v mod 64), CHR ''='', CHR ''=''])"
| "EncodeToString [a, b] =
     (let v = unat a * 1024 + unat b * 4 in
      [base64_char (v div 4096), base64_char (v div 64 mod 64), base64_char (v mod 64), CHR ''=''])"
| "EncodeToString (a # b # c # rest) =
     (let v = unat a * 65536 + unat b * 256 + unat c in
      [base64_char (v div 262144), base64_char (v div 4096 mod 64), base64_char (v div 64 mod 64), base64_char (v mod 64)] @
      EncodeToString rest)"

lemma base64_char_digit [simp]:
  assumes "n < 64"
  shows "base64_digit (base64_char n) = Some n" "base64_char n \<noteq> CHR ''=''" "base64_char n \<noteq> CHR 0x0A" "base64_char n \<noteq> CHR 0x0D"
proof -
  have "base64_digit (char_of m) = (if 65 \<le> m \<and> m \<le> 90 then Some (m - 65) else if 97 \<le> m \<and> m \<le> 122 then Some (m - 71)
      else if 48 \<le> m \<and> m \<le> 57 then Some (m + 4) else if m = 43 then Some 62 else if m = 47 then Some 63 else None)"
    if "m < 256" for m
    using that by (simp add: base64_digit_def Let_def)
  moreover have "base64_digit CHR ''+'' = Some 62" "base64_digit CHR ''/'' = Some 63"
    by (simp_all add: base64_digit_def)
  ultimately show d: "base64_digit (base64_char n) = Some n"
    using assms by (auto simp: base64_char_def)
  show "base64_char n \<noteq> CHR ''=''" "base64_char n \<noteq> CHR 0x0A" "base64_char n \<noteq> CHR 0x0D"
    using d by (auto simp: base64_digit_def)
qed

lemma of_nat_byte: "(of_nat (256 * k + unat a) :: u8) = a"
proof -
  have "(of_nat 256 :: u8) = 0" by simp
  then show ?thesis by (simp only: of_nat_add of_nat_mult mult_zero_left add_0_left of_nat_unat ucast_id)
qed

lemma byte_less: "unat (a :: u8) < 256"
  using unsigned_less [of a] by simp

text \<open>A number in groups of six bits.\<close>

lemma split64:
  "64 * (v div 262144) + v div 4096 mod 64 = (v :: nat) div 4096" "64 * (v div 4096) + v div 64 mod 64 = v div 64"
  using mult_div_mod_eq [of 64 "v div 4096"] mult_div_mod_eq [of 64 "v div 64"] by (simp_all flip: div_mult2_eq)

lemma decodeGroups_Encode: "decodeGroups (EncodeToString b) = Some b"
proof (induction b rule: EncodeToString.induct)
  case (2 a)
  define v where "v = unat a * 16"
  have v: "v div 64 < 64" "v div 16 = unat a"
    using byte_less [of a] by (simp_all add: v_def)
  then show ?case by (simp add: Let_def flip: v_def)
next
  case (3 a b)
  define v where "v = unat a * 1024 + unat b * 4"
  have v: "v < 262144" "v div 1024 = unat a" "v div 4 = 256 * unat a + unat b"
    using byte_less [of a] byte_less [of b] by (simp_all add: v_def)
  have d: "v div 4096 < 64" "64 * (64 * (v div 4096) + v div 64 mod 64) + v mod 64 = v"
    using v(1) by (simp_all add: split64)
  have "of_nat (v div 1024) = a" "of_nat (v div 4) = b"
    unfolding v(2,3) by (simp_all only: of_nat_byte of_nat_unat ucast_id)
  with d show ?case by (simp add: Let_def flip: v_def)
next
  case (4 a b c rest)
  define v where "v = unat a * 65536 + unat b * 256 + unat c"
  have v: "v < 16777216" "v div 65536 = unat a" "v div 256 = 256 * unat a + unat b" "v = 256 * (256 * unat a + unat b) + unat c"
    using byte_less [of a] byte_less [of b] byte_less [of c] by (simp_all add: v_def)
  have d: "v div 262144 < 64" "64 * (64 * (64 * (v div 262144) + v div 4096 mod 64) + v div 64 mod 64) + v mod 64 = v"
    using v(1) by (simp_all add: split64)
  moreover have "of_nat (v div 65536) = a" "of_nat (v div 256) = b" "(of_nat v :: u8) = c"
    unfolding v(2,3) by (simp_all only: of_nat_byte of_nat_unat ucast_id) (subst v(4), rule of_nat_byte)
  ultimately show ?case using d(1) 4 by (simp add: Let_def flip: v_def)
qed simp

lemma EncodeToString_line: "filter (\<lambda>c. c \<noteq> CHR 0x0A \<and> c \<noteq> CHR 0x0D) (EncodeToString b) = EncodeToString b"
proof (induction b rule: EncodeToString.induct)
  case (2 a)
  have "unat a * 16 div 64 < 64" using byte_less [of a] by simp
  then show ?case by (simp add: Let_def)
next
  case (3 a b)
  have "(unat a * 1024 + unat b * 4) div 4096 < 64" using byte_less [of a] byte_less [of b] by simp
  then show ?case by (simp add: Let_def)
next
  case (4 a b c rest)
  have "(unat a * 65536 + unat b * 256 + unat c) div 262144 < 64"
    using byte_less [of a] byte_less [of b] byte_less [of c] by simp
  with 4 show ?case by (simp add: Let_def)
qed simp

text \<open>Every key can be written and read back.\<close>

lemma DecodeString_EncodeToString: "DecodeString (EncodeToString b) = Some b"
  unfolding DecodeString_def EncodeToString_line by (rule decodeGroups_Encode)

text \<open>The keys of the default servers are keys for Ed25519: they have 32 bytes.\<close>

lemma default_keys:
  "\<forall>s \<in> set (RoughtimeServers (DefaultConfig ak gv gh ta ca)). \<exists>k. DecodeString (PublicKey s) = Some k \<and> length k = 32"
  by (simp add: DefaultConfig_def defaultServer_def DecodeString_def base64_digit_def)

section \<open>The time with a configuration\<close>

text \<open>
  \<^verbatim>\<open>AcquireTime\<close> with the servers of a configuration: what each server answers, and the order in which the
  answers of the roughtime servers come in, are arguments.
\<close>

definition AcquireTimeFrom ::
  "(RoughtimeServer list \<Rightarrow> RoughtimeServer list) \<Rightarrow> (RoughtimeServer \<Rightarrow> Roughtime option) \<Rightarrow> (string \<Rightarrow> (int \<times> int) option) \<Rightarrow>
   RoughtimeServer list \<Rightarrow> NtpServer list \<Rightarrow> panic + (timeError + int)" where
  "AcquireTimeFrom order rough ntp rs ntps =
     AcquireTime (map rough (order (askedServers DecodeString rs))) (map (\<lambda>n. ntp (NtpServer_Server n)) ntps)"

lemma default_asked: "askedServers DecodeString (RoughtimeServers (DefaultConfig ak gv gh ta ca)) = RoughtimeServers (DefaultConfig ak gv gh ta ca)"
  using default_keys [of ak gv gh ta ca] unfolding askedServers_def by (fastforce intro: filter_True)

lemma filter_answers: "filter (\<lambda>r. r \<noteq> None) (map f xs) = map Some (List.map_filter f xs)"
  by (induction xs) (auto simp: map_filter_simps split: option.split)



end
