(* ===== verification/Bmc_System.thy ===== *)
theory Bmc_System
  imports Platform Network Fan Console Remote Daemon Default_Config
begin

text \<open>
  The daemon put together (\<^verbatim>\<open>StartupWithConfig\<close> of \<^verbatim>\<open>pkg/bmc/system.go\<close> and \<^verbatim>\<open>startMetrics\<close> of \<^verbatim>\<open>pkg/bmc/metric.go\<close>): the start
  calls the components of the other theories in the order of the code, on one world with the hardware, the files, the network and the
  servers. It implements the specification of the order in theory Startup, and until the goroutine behind it has time and certificate, no remote
  call can reach it.
\<close>

section \<open>World and environment\<close>

record ('h, 'k) world =
  hw :: 'h
  sysFiles :: files
  netw :: netState
  rpcServers :: "'k certificate servers"
  metricsServing :: bool
  randSeed :: "int option"
  devMem :: bool
  sshd :: bool
  goroutines :: "part list"
  tried :: "part list"
  versionCounts :: "string list"

text \<open>
  What the platform, the kernel and the libraries answer: the random source, the platform's functions, the serial port, the parser of the
  system configuration, the network, the room in the file system and the files that can be read, the ports that can be listened on, and the
  keys. \<open>tried\<close> in the world only records which parts were started.
\<close>

record ('h, 'k) startEnv =
  randomBytes :: "u8 list option"
  initializeSystem :: "('h, string option) io"
  gpioOpens :: bool
  initializeGpio :: "GpioSystem \<Rightarrow> string option \<times> gpioCall list"
  env_FanMap :: "int \<rightharpoonup> string"
  env_PwmMap :: "int \<rightharpoonup> string"
  env_HostUart :: "string \<times> int"
  openPort :: "string \<times> int \<Rightarrow> string + unit"
  unmarshalText :: "u8 list \<Rightarrow> pbNetwork option \<times> bool"
  env_net :: netEnv
  room :: "string \<Rightarrow> nat option"
  readable :: "string \<Rightarrow> bool"
  canMknod :: bool
  os_Environ :: "string list"
  generateSshKey :: "'k option"
  marshalEC :: "'k \<Rightarrow> u8 list option"
  pemEncode :: "string \<Rightarrow> u8 list \<Rightarrow> u8 list"
  processStarts :: "string list \<Rightarrow> string list \<Rightarrow> bool"
  listens :: "string \<Rightarrow> bool"
  generateKey :: "'k option"
  marshalKey :: "'k \<Rightarrow> u8 list option"
  parseKey :: "u8 list \<Rightarrow> 'k option"
  parseCert :: "u8 list \<Rightarrow> x509 option"

datatype startError =
    InitializeSystemError string
  | GpioError startGpioError
  | UartError string
  | NetworkError netError
  | MetricsError
  | GrpcError
  | AcmeKeyError keyError

text \<open>What a successful start leaves to its goroutines: the parts and the certificate manager.\<close>

record 'k started =
  st_gpio :: "GpioSystem \<times> gpioCall list"
  st_fan :: FanSystem
  st_uart :: uartSystem
  st_dns :: dnsServer
  st_Version :: Version
  st_timeServers :: "RoughtimeServer list \<times> NtpServer list"
  cm_FQDN :: string
  cm_AccountKey :: "'k option"
  cm_ACMEConfig :: ACME

section \<open>Programs on a part of the world\<close>

definition onHw :: "('h, 'a) io \<Rightarrow> (('h, 'k) world, 'a) io" where
  "onHw m w = (case m (hw w) of (r, s) \<Rightarrow> (r, w\<lparr>hw := s\<rparr>))"

definition onFiles :: "(files, 'a) io \<Rightarrow> (('h, 'k) world, 'a) io" where
  "onFiles m w = (case m (sysFiles w) of (r, s) \<Rightarrow> (r, w\<lparr>sysFiles := s\<rparr>))"

definition onNet :: "(netState, 'a) io \<Rightarrow> (('h, 'k) world, 'a) io" where
  "onNet m w = (case m (netw w) of (r, s) \<Rightarrow> (r, w\<lparr>netw := s\<rparr>))"

definition onServers :: "('k certificate servers, 'a) io \<Rightarrow> (('h, 'k) world, 'a) io" where
  "onServers m w = (case m (rpcServers w) of (r, s) \<Rightarrow> (r, w\<lparr>rpcServers := s\<rparr>))"

definition trying :: "part \<Rightarrow> (('h, 'k) world, 'a) io \<Rightarrow> (('h, 'k) world, 'a) io" where
  "trying p m w = m (w\<lparr>tried := tried w @ [p]\<rparr>)"

section \<open>The start\<close>

text \<open>\<^verbatim>\<open>ioutil.WriteFile\<close> truncates the file and writes what there is room for; the mode is of no effect on the contents.\<close>

definition writeFile :: "(string \<Rightarrow> nat option) \<Rightarrow> files writer" where
  "writeFile space file b mode fs =
     (case space file of
        None \<Rightarrow> (Inr False, fs)
      | Some n \<Rightarrow> (Inr (length b \<le> n), fs(file \<mapsto> take n b)))"

definition readFile :: "(string \<Rightarrow> bool) \<Rightarrow> string \<Rightarrow> files \<Rightarrow> fileResult" where
  "readFile canRead file fs =
     (case fs file of None \<Rightarrow> NotExist | Some b \<Rightarrow> if canRead file then Contents b else ReadError)"

definition startMetrics :: "('h, 'k) startEnv \<Rightarrow> (('h, 'k) world, startError, unit) eio" where
  "startMetrics e w =
     (if listens e ''[::]:9370'' then (Inr (Inr ()), w\<lparr>metricsServing := True\<rparr>) else (Inr (Inl MetricsError), w))"

text \<open>The welcome counts the version.\<close>

definition welcomePart :: "Config \<Rightarrow> (('h, 'k) world, unit) io" where
  "welcomePart c w = (Inr (), w\<lparr>versionCounts := versionCounts w @ [ver_Version (cfg_Version c)]\<rparr>)"

definition seedPart :: "('h, 'k) startEnv \<Rightarrow> (('h, 'k) world, unit) io" where
  "seedPart e w =
     (case seedRandomGenerator (randomBytes e) of
        Inl p \<Rightarrow> (Inl p, w)
      | Inr s \<Rightarrow> (Inr (), w\<lparr>randSeed := Some s\<rparr>))"

definition systemPart :: "('h, 'k) startEnv \<Rightarrow> (('h, 'k) world, startError, unit) eio" where
  "systemPart e =
     trying InitializeSystem (bnd (onHw (initializeSystem e)) (\<lambda>r.
       case r of Some x \<Rightarrow> fail (InitializeSystemError x) | None \<Rightarrow> succeed ()))"

definition gpioPart :: "('h, 'k) startEnv \<Rightarrow> (('h, 'k) world, startError, GpioSystem \<times> gpioCall list) eio" where
  "gpioPart e =
     trying StartGpio (case startGpio (gpioOpens e) (initializeGpio e) of Inl x \<Rightarrow> fail (GpioError x) | Inr g \<Rightarrow> succeed g)"

definition fanPart :: "('h, 'k) startEnv \<Rightarrow> (('h, 'k) world, startError, FanSystem) eio" where
  "fanPart e = trying StartFan (succeed (startFan (env_FanMap e) (env_PwmMap e)))"

definition uartPart :: "('h, 'k) startEnv \<Rightarrow> (('h, 'k) world, startError, uartSystem) eio" where
  "uartPart e =
     trying StartUart (case startUart (openPort e (env_HostUart e)) of Inl x \<Rightarrow> fail (UartError x) | Inr u \<Rightarrow> succeed u)"

definition sysconfPart :: "('h, 'k) startEnv \<Rightarrow> (('h, 'k) world, startError, pbNetwork option) eio" where
  "sysconfPart e =
     trying LoadSysconf (\<lambda>w.
       (Inr (Inr (fst (loadSysconf (unmarshalText e)
          (case readFile (readable e) ''/config/system.textpb'' (sysFiles w) of Contents b \<Rightarrow> Some b | _ \<Rightarrow> None)))), w))"

definition networkPart :: "('h, 'k) startEnv \<Rightarrow> pbNetwork option \<Rightarrow> (('h, 'k) world, startError, network) eio" where
  "networkPart e conf = trying StartNetwork (mapError NetworkError (onNet (startNetwork (env_net e) conf)))"

definition goroutine :: "part \<Rightarrow> (('h, 'k) world, startError, unit) eio" where
  "goroutine p = trying p (\<lambda>w. (Inr (Inr ()), w\<lparr>goroutines := goroutines w @ [p]\<rparr>))"

text \<open>The parts whose errors are only logged.\<close>

definition filePart :: "('h, 'k) startEnv \<Rightarrow> part \<Rightarrow> string \<Rightarrow> string \<Rightarrow> (('h, 'k) world, startError, unit) eio" where
  "filePart e p file c = trying p (bnd (onFiles (createFile (room e) file (bytes c))) (\<lambda>_. succeed ()))"

definition devMemPart :: "('h, 'k) startEnv \<Rightarrow> (('h, 'k) world, startError, unit) eio" where
  "devMemPart e = trying DevMem (\<lambda>w. (Inr (Inr ()), if canMknod e then w\<lparr>devMem := True\<rparr> else w))"

definition sshRun :: "('h, 'k) startEnv \<Rightarrow> string list \<Rightarrow> (files, sshError option) io" where
  "sshRun e ak =
     startSsh (room e) (newSshKey (generateSshKey e) (marshalEC e) (pemEncode e)) (processStarts e) (environ (os_Environ e)) ak"

definition sshPart :: "('h, 'k) startEnv \<Rightarrow> string list \<Rightarrow> (('h, 'k) world, startError, unit) eio" where
  "sshPart e ak =
     trying DebugSsh (bnd (onFiles (sshRun e ak)) (\<lambda>r w.
       (Inr (Inr ()), if r = None then w\<lparr>sshd := True\<rparr> else w)))"

text \<open>The expiry of the first certificate of a chain, in seconds; \<^verbatim>\<open>c.Certificate[0]\<close> panics if there is none.\<close>

definition certNotAfter :: "('h, 'k) startEnv \<Rightarrow> 'k certificate \<Rightarrow> panic + int option" where
  "certNotAfter e c =
     (case Certificate c of
        [] \<Rightarrow> Inl IndexPanic
      | d # _ \<Rightarrow> Inr (map_option (\<lambda>x. NotAfter x div 1000000000) (parseCert e d)))"

definition grpcPart :: "('h, 'k) startEnv \<Rightarrow> (('h, 'k) world, startError, unit) eio" where
  "grpcPart e =
     trying StartGRPC (bnd (onServers (startGRPC (certNotAfter e) (listens e))) (\<lambda>ok. if ok then succeed () else fail GrpcError))"

definition dnsPart :: "network \<Rightarrow> (('h, 'k) world, startError, dnsServer) eio" where
  "dnsPart n = trying StartDNS (succeed (startDNS (FQDN n)))"

definition keyPart :: "('h, 'k) startEnv \<Rightarrow> (('h, 'k) world, startError, 'k option) eio" where
  "keyPart e =
     trying AcmeKey (bnd (onFiles (loadOrGenerateKey (readFile (readable e)) (writeFile (room e)) (ret (generateKey e))
         (marshalKey e) (parseKey e) ''/config/acme.key'')) (\<lambda>(k, err).
       case err of Some x \<Rightarrow> fail (AcmeKeyError x) | None \<Rightarrow> succeed k))"

definition startSystem :: "('h, 'k) startEnv \<Rightarrow> Config \<Rightarrow> (('h, 'k) world, startError, 'k started) eio" where
  "startSystem e c =
     ethn (systemPart e)
    (ebnd (gpioPart e) (\<lambda>gpio.
     ebnd (fanPart e) (\<lambda>fan.
     ebnd (uartPart e) (\<lambda>uart.
     ebnd (sysconfPart e) (\<lambda>conf.
     ebnd (networkPart e conf) (\<lambda>n.
     ethn (goroutine TimeThread)
    (ethn (filePart e EtcPasswd ''/etc/passwd'' ''root:x:0:0:root:/root:/bbin/elvish'')
    (ethn (filePart e EtcGroup ''/etc/group'' ''root:x:0:'')
    (ethn (devMemPart e)
    (ethn (if StartDebugSshServer c then sshPart e (DebugSshServerKeys c) else succeed ())
    (ethn (trying StartMetrics (startMetrics e))
    (ethn (grpcPart e)
    (ebnd (dnsPart n) (\<lambda>dns.
     ebnd (keyPart e) (\<lambda>akey.
     ethn (goroutine AsyncStartup)
          (succeed \<lparr>st_gpio = gpio, st_fan = fan, st_uart = uart, st_dns = dns,
                    st_Version = cfg_Version c, st_timeServers = (RoughtimeServers c, NtpServers c),
                    cm_FQDN = FQDN n, cm_AccountKey = akey, cm_ACMEConfig = cfg_ACME c\<rparr>))))))))))))))))"

definition StartupWithConfig :: "('h, 'k) startEnv \<Rightarrow> Config \<Rightarrow> (('h, 'k) world, startError, 'k started) eio" where
  "StartupWithConfig e c = thn (welcomePart c) (thn (seedPart e) (startSystem e c))"

text \<open>\<^verbatim>\<open>Startup\<close>: with the default configuration, for what the build has generated.\<close>

definition bmc_Startup ::
  "('h, 'k) startEnv \<Rightarrow> string list \<Rightarrow> string \<Rightarrow> string \<Rightarrow> bool \<Rightarrow> string \<Rightarrow> (('h, 'k) world, startError, 'k started) eio" where
  "bmc_Startup e authorizedKeys gitVersion gitHash termsAgreed simPebbleAPICA =
     StartupWithConfig e (DefaultConfig authorizedKeys gitVersion gitHash termsAgreed simPebbleAPICA)"

text \<open>The servers after the goroutine behind the start: each certificate it enables starts a server.\<close>

definition serveEvents :: "('h, 'k) startEnv \<Rightarrow> 'k startEvent list \<Rightarrow> 'k certificate servers \<Rightarrow> 'k certificate servers" where
  "serveEvents e evs s =
     fold (\<lambda>ev s. case ev of RemoteEnabled kp \<Rightarrow> snd (EnableRemote (certNotAfter e) (listens e) kp s) | _ \<Rightarrow> s) evs s"

section \<open>Which parts work\<close>

fun partOf :: "startError \<Rightarrow> part" where
  "partOf (InitializeSystemError _) = InitializeSystem"
| "partOf (GpioError _) = StartGpio"
| "partOf (UartError _) = StartUart"
| "partOf (NetworkError _) = StartNetwork"
| "partOf MetricsError = StartMetrics"
| "partOf GrpcError = StartGRPC"
| "partOf (AcmeKeyError _) = AcmeKey"

definition loopback_ok :: "netEnv \<Rightarrow> bool" where
  "loopback_ok n \<longleftrightarrow>
     linkExists n ''lo'' \<and> newHandle n \<and> canSetUp n ''lo'' \<and>
     (\<forall>a \<in> {''127.0.0.1/8'', ''::1/32''}. parseAddr n a \<and> addrReplace n a ''lo'')"

text \<open>The account key can be had: from the file, or by generating and saving one if there is no file.\<close>

definition key_ok :: "('h, 'k) startEnv \<Rightarrow> u8 list option \<Rightarrow> bool" where
  "key_ok e f =
     (case f of
        Some b \<Rightarrow> parseKey e (if readable e ''/config/acme.key'' then b else []) \<noteq> None
      | None \<Rightarrow>
          (case generateKey e of None \<Rightarrow> False | Some k \<Rightarrow>
          (case marshalKey e k of None \<Rightarrow> False | Some b \<Rightarrow>
          (case room e ''/config/acme.key'' of None \<Rightarrow> False | Some n \<Rightarrow> length b \<le> n))))"

definition works :: "('h, 'k) startEnv \<Rightarrow> ('h, 'k) world \<Rightarrow> part \<Rightarrow> bool" where
  "works e w p =
     (case p of
        InitializeSystem \<Rightarrow> fst (initializeSystem e (hw w)) = Inr None
      | StartGpio \<Rightarrow> gpioOpens e \<and> fst (initializeGpio e NewGpioSystem) = None
      | StartUart \<Rightarrow> openPort e (env_HostUart e) = Inr ()
      | StartNetwork \<Rightarrow> loopback_ok (env_net e)
      | StartMetrics \<Rightarrow> listens e ''[::]:9370''
      | StartGRPC \<Rightarrow> listens e ''[::1]:80''
      | AcmeKey \<Rightarrow> key_ok e (sysFiles w ''/config/acme.key'')
      | _ \<Rightarrow> True)"

definition local_only :: "'k certificate servers \<Rightarrow> bool" where
  "local_only s \<longleftrightarrow> (\<forall>g \<in> set (running s). srv_addr g = ''[::1]:80'' \<and> \<not> encrypted g)"

section \<open>Programs that implement an order of parts\<close>

text \<open>
  \<open>implements W I J ps m\<close>: from a world with \<open>I\<close> the program tries the parts \<open>ps\<close> up to the first one that is needed and does not work,
  returns an error of that part if there is one, and leaves a world with \<open>J\<close>.
\<close>

definition implements ::
  "(part \<Rightarrow> bool) \<Rightarrow> (('h, 'k) world \<Rightarrow> bool) \<Rightarrow> (('h, 'k) world \<Rightarrow> bool) \<Rightarrow> part list \<Rightarrow> (('h, 'k) world, startError, 'a) eio \<Rightarrow> bool" where
  "implements W I J ps m \<longleftrightarrow>
     (\<forall>w. I w \<longrightarrow> (\<exists>r t. m w = (Inr r, t) \<and> J t \<and> tried t = tried w @ fst (startParts W ps) \<and>
        (case r of Inl er \<Rightarrow> snd (startParts W ps) = Some (partOf er) | Inr _ \<Rightarrow> snd (startParts W ps) = None)))"

named_theorems part_rules \<open>parts of the start implement themselves\<close>

lemma startParts_append:
  "startParts W (ps @ qs) =
     (case startParts W ps of (ts, Some p) \<Rightarrow> (ts, Some p) | (ts, None) \<Rightarrow> (ts @ fst (startParts W qs), snd (startParts W qs)))"
  by (induction ps) (auto split: prod.splits option.splits)

lemma implementsE:
  assumes "implements W I J ps m" "I w"
  obtains r t where "m w = (Inr r, t)" "J t" "tried t = tried w @ fst (startParts W ps)"
    "case r of Inl er \<Rightarrow> snd (startParts W ps) = Some (partOf er) | Inr _ \<Rightarrow> snd (startParts W ps) = None"
  using assms unfolding implements_def by blast

lemma implements_ebnd:
  assumes "implements W I J ps m" "\<And>x. implements W J K qs (f x)" "\<And>w. J w \<Longrightarrow> K w"
  shows "implements W I K (ps @ qs) (ebnd m f)"
  unfolding implements_def
proof (intro allI impI)
  fix w assume "I w"
  obtain r t where m: "m w = (Inr r, t)" "J t" "tried t = tried w @ fst (startParts W ps)"
    "case r of Inl er \<Rightarrow> snd (startParts W ps) = Some (partOf er) | Inr _ \<Rightarrow> snd (startParts W ps) = None"
    using implementsE [OF assms(1) \<open>I w\<close>] by metis
  show "\<exists>r t. ebnd m f w = (Inr r, t) \<and> K t \<and> tried t = tried w @ fst (startParts W (ps @ qs)) \<and>
    (case r of Inl er \<Rightarrow> snd (startParts W (ps @ qs)) = Some (partOf er) | Inr _ \<Rightarrow> snd (startParts W (ps @ qs)) = None)"
  proof (cases r)
    case (Inl er)
    with m assms(3) show ?thesis by (auto simp: ebnd_run startParts_append split: prod.split)
  next
    case (Inr x)
    obtain r' t' where "f x t = (Inr r', t')" "K t'" "tried t' = tried t @ fst (startParts W qs)"
      "case r' of Inl er \<Rightarrow> snd (startParts W qs) = Some (partOf er) | Inr _ \<Rightarrow> snd (startParts W qs) = None"
      using implementsE [OF assms(2) m(2)] by metis
    with m Inr show ?thesis by (cases r') (auto simp: ebnd_run startParts_append split: prod.split)
  qed
qed

lemma implements_ethn:
  "implements W I J ps m \<Longrightarrow> implements W J K qs n \<Longrightarrow> (\<And>w. J w \<Longrightarrow> K w) \<Longrightarrow> implements W I K (ps @ qs) (ethn m n)"
  unfolding ethn_def by (rule implements_ebnd)

lemma implements_succeed: "implements W I I [] (succeed x)"
  by (simp add: implements_def succeed_run)

text \<open>A part by its runs: it returns an error exactly if it is needed and does not work.\<close>

lemma implements_part:
  assumes "\<And>w. I w \<Longrightarrow> \<exists>r t. m w = (Inr r, t) \<and> J t \<and> tried t = tried w \<and>
      (case r of Inl er \<Rightarrow> \<not> W p \<and> fatal p \<and> partOf er = p | Inr _ \<Rightarrow> W p \<or> \<not> fatal p)"
    and "\<And>w ps. I (w\<lparr>tried := ps\<rparr>) = I w"
  shows "implements W I J [p] (trying p m)"
  unfolding implements_def
proof (intro allI impI)
  fix w assume "I w"
  then have "I (w\<lparr>tried := tried w @ [p]\<rparr>)" using assms(2) by simp
  from assms(1) [OF this] obtain r t where "m (w\<lparr>tried := tried w @ [p]\<rparr>) = (Inr r, t)" "J t" "tried t = tried w @ [p]"
    "case r of Inl er \<Rightarrow> \<not> W p \<and> fatal p \<and> partOf er = p | Inr _ \<Rightarrow> W p \<or> \<not> fatal p" by auto
  then show "\<exists>r t. trying p m w = (Inr r, t) \<and> J t \<and> tried t = tried w @ fst (startParts W [p]) \<and>
    (case r of Inl er \<Rightarrow> snd (startParts W [p]) = Some (partOf er) | Inr _ \<Rightarrow> snd (startParts W [p]) = None)"
    by (auto simp: trying_def split: sum.splits)
qed

section \<open>The parts\<close>

text \<open>The worlds between the parts: the file of the account key is as it was, and only the local server can be there.\<close>

definition between :: "u8 list option \<Rightarrow> ('h, 'k) world \<Rightarrow> bool" where
  "between k w \<longleftrightarrow> sysFiles w ''/config/acme.key'' = k \<and> local_only (rpcServers w)"

lemma between_simps [simp]:
  "between k (w\<lparr>tried := ps\<rparr>) = between k w" "between k (w\<lparr>netw := n\<rparr>) = between k w"
  "between k (w\<lparr>goroutines := gs\<rparr>) = between k w" "between k (w\<lparr>metricsServing := b\<rparr>) = between k w"
  "between k (w\<lparr>devMem := b\<rparr>) = between k w" "between k (w\<lparr>sshd := b\<rparr>) = between k w"
  "between k (w\<lparr>randSeed := x\<rparr>) = between k w" "between k (w\<lparr>hw := h\<rparr>) = between k w"
  by (simp_all add: between_def)

lemma createFile_frame:
  "\<exists>r fs'. createFile rm file c fs = (Inr r, fs') \<and> (\<forall>f. f \<noteq> file \<longrightarrow> fs' f = fs f)"
  by (auto simp: createFile_def Let_def split: option.splits)

text \<open>A host key can be generated.\<close>

definition hostKey_ok :: "('h, 'k) startEnv \<Rightarrow> bool" where
  "hostKey_ok e \<longleftrightarrow> (case generateSshKey e of None \<Rightarrow> False | Some k \<Rightarrow> marshalEC e k \<noteq> None)"

lemma sshRun_frame:
  assumes "hostKey_ok e"
  shows "\<exists>r fs'. sshRun e ak fs = (Inr r, fs') \<and> fs' ''/config/acme.key'' = fs ''/config/acme.key''"
proof -
  obtain hk where hk: "newSshKey (generateSshKey e) (marshalEC e) (pemEncode e) = Inr hk"
    using assms by (auto simp: hostKey_ok_def newSshKey_def split: option.splits)
  obtain r1 fs1 where c1: "createFile (room e) ''/config/ssh_host_ecdsa_key'' hk fs = (Inr r1, fs1)"
    "fs1 ''/config/acme.key'' = fs ''/config/acme.key''"
    using createFile_frame [of "room e" "''/config/ssh_host_ecdsa_key''" hk fs] by auto
  have c2: "\<exists>r2 fs2. createFile (room e) ''/config/authorized_keys'' (bytes (joinLines ak)) fs0 = (Inr r2, fs2) \<and>
      fs2 ''/config/acme.key'' = fs0 ''/config/acme.key''" for fs0
    using createFile_frame [of "room e" "''/config/authorized_keys''" "bytes (joinLines ak)" fs0] by auto
  show ?thesis
    using c1 c2 [of fs] c2 [of fs1] by (cases r1) (auto simp: sshRun_def startSsh_def hk bnd_def ret_def)
qed

lemma system_ok [part_rules]:
  assumes "initializeSystem e (hw w0) = (Inr r, h)"
  shows "implements (works e w0) (\<lambda>w. between k w \<and> hw w = hw w0) (between k) [InitializeSystem] (systemPart e)"
  unfolding systemPart_def
  by (rule implements_part)
    (auto simp: works_def fatal_def bnd_def onHw_def assms fail_run succeed_run split: option.splits)

lemma gpio_ok [part_rules]: "implements (works e w0) (between k) (between k) [StartGpio] (gpioPart e)"
  unfolding gpioPart_def
  by (rule implements_part)
    (auto simp: works_def fatal_def startGpio_def fail_run succeed_run split: option.splits prod.splits)

lemma fan_ok [part_rules]: "implements (works e w0) (between k) (between k) [StartFan] (fanPart e)"
  unfolding fanPart_def by (rule implements_part) (auto simp: works_def succeed_run)

lemma uart_ok [part_rules]: "implements (works e w0) (between k) (between k) [StartUart] (uartPart e)"
  unfolding uartPart_def
  by (rule implements_part) (auto simp: works_def fatal_def startUart_def fail_run succeed_run split: sum.splits)

lemma sysconf_ok [part_rules]: "implements (works e w0) (between k) (between k) [LoadSysconf] (sysconfPart e)"
  unfolding sysconfPart_def by (rule implements_part) (auto simp: works_def)

lemma goroutine_ok [part_rules]:
  "p \<in> {TimeThread, AsyncStartup} \<Longrightarrow> implements (works e w0) (between k) (between k) [p] (goroutine p)"
  unfolding goroutine_def by (rule implements_part) (auto simp: works_def)

lemma file_ok [part_rules]:
  assumes "p \<in> {EtcPasswd, EtcGroup}" "file \<noteq> ''/config/acme.key''"
  shows "implements (works e w0) (between k) (between k) [p] (filePart e p file c)"
  unfolding filePart_def
proof (rule implements_part)
  fix w assume "between k w"
  obtain r fs' where "createFile (room e) file (bytes c) (sysFiles w) = (Inr r, fs')" "\<forall>f. f \<noteq> file \<longrightarrow> fs' f = sysFiles w f"
    using createFile_frame by blast
  with \<open>between k w\<close> assms show "\<exists>r t. bnd (onFiles (createFile (room e) file (bytes c))) (\<lambda>_. succeed ()) w = (Inr r, t) \<and>
      between k t \<and> tried t = tried w \<and>
      (case r of Inl er \<Rightarrow> \<not> works e w0 p \<and> fatal p \<and> partOf er = p | Inr _ \<Rightarrow> works e w0 p \<or> \<not> fatal p)"
    by (auto simp: bnd_def onFiles_def between_def works_def succeed_run)
qed simp

lemma devMem_ok [part_rules]: "implements (works e w0) (between k) (between k) [DevMem] (devMemPart e)"
  unfolding devMemPart_def by (rule implements_part) (auto simp: works_def)

lemma ssh_ok [part_rules]:
  assumes "hostKey_ok e"
  shows "implements (works e w0) (between k) (between k) [DebugSsh] (sshPart e ak)"
  unfolding sshPart_def
proof (rule implements_part)
  fix w assume "between k w"
  obtain r fs' where "sshRun e ak (sysFiles w) = (Inr r, fs')"
    "fs' ''/config/acme.key'' = sysFiles w ''/config/acme.key''"
    using sshRun_frame [OF assms] by blast
  with \<open>between k w\<close> show "\<exists>r t. bnd (onFiles (sshRun e ak)) (\<lambda>r w.
       (Inr (Inr ()), if r = None then w\<lparr>sshd := True\<rparr> else w)) w = (Inr r, t) \<and> between k t \<and> tried t = tried w \<and>
      (case r of Inl er \<Rightarrow> \<not> works e w0 DebugSsh \<and> fatal DebugSsh \<and> partOf er = DebugSsh
       | Inr _ \<Rightarrow> works e w0 DebugSsh \<or> \<not> fatal DebugSsh)"
    by (auto simp: bnd_def onFiles_def between_def works_def)
qed simp

lemma metrics_ok [part_rules]:
  "implements (works e w0) (between k) (between k) [StartMetrics] (trying StartMetrics (startMetrics e))"
  by (rule implements_part) (auto simp: works_def fatal_def startMetrics_def)

lemma grpc_ok [part_rules]: "implements (works e w0) (between k) (between k) [StartGRPC] (grpcPart e)"
  unfolding grpcPart_def
  by (rule implements_part)
    (auto simp: works_def fatal_def bnd_def onServers_def startGRPC_def newServer_def thn_def ret_def local_only_def encrypted_def between_def
      fail_run succeed_run)

lemma dns_ok [part_rules]: "implements (works e w0) (between k) (between k) [StartDNS] (dnsPart n)"
  unfolding dnsPart_def by (rule implements_part) (auto simp: works_def succeed_run)

lemma startNetwork_runs: "\<exists>r t. startNetwork n conf s = (Inr r, t) \<and> ((\<exists>x. r = Inr x) \<longleftrightarrow> loopback_ok n)"
  by (auto simp: startNetwork_def Let_def ethn_def ebnd_def thn_def bnd_def addIp_def setLinkUp_def loopback_ok_def
      addConfigured_def setHostname_def fail_def succeed_def ret_def)

lemma network_ok [part_rules]: "implements (works e w0) (between k) (between k) [StartNetwork] (networkPart e conf)"
  unfolding networkPart_def
proof (rule implements_part)
  fix w assume "between k w"
  obtain r t where "startNetwork (env_net e) conf (netw w) = (Inr r, t)" "(\<exists>x. r = Inr x) \<longleftrightarrow> loopback_ok (env_net e)"
    using startNetwork_runs by blast
  with \<open>between k w\<close> show "\<exists>r t. mapError NetworkError (onNet (startNetwork (env_net e) conf)) w = (Inr r, t) \<and>
      between k t \<and> tried t = tried w \<and>
      (case r of Inl er \<Rightarrow> \<not> works e w0 StartNetwork \<and> fatal StartNetwork \<and> partOf er = StartNetwork
       | Inr _ \<Rightarrow> works e w0 StartNetwork \<or> \<not> fatal StartNetwork)"
    by (cases r) (auto simp: mapError_def bnd_def onNet_def works_def fatal_def fail_run succeed_run)
qed simp

lemma key_part_ok [part_rules]:
  assumes "sysFiles w0 ''/config/acme.key'' = k"
  shows "implements (works e w0) (between k) (\<lambda>w. local_only (rpcServers w)) [AcmeKey] (keyPart e)"
  unfolding keyPart_def
proof (rule implements_part)
  fix w assume b: "between k w"
  let ?m = "loadOrGenerateKey (readFile (readable e)) (writeFile (room e)) (ret (generateKey e)) (marshalKey e) (parseKey e) ''/config/acme.key''"
  have "\<exists>a err fs. ?m (sysFiles w) = (Inr (a, err), fs) \<and> (err = None \<longleftrightarrow> key_ok e k)"
    using b by (auto simp: loadOrGenerateKey_def generateAndSaveKey_def readFile_def writeFile_def key_ok_def between_def bnd_def ret_def
        split: option.splits)
  then obtain a err fs where "?m (sysFiles w) = (Inr (a, err), fs)" "err = None \<longleftrightarrow> key_ok e k" by blast
  with b assms show "\<exists>r t. bnd (onFiles ?m) (\<lambda>(k, err). case err of Some x \<Rightarrow> fail (AcmeKeyError x) | None \<Rightarrow> succeed k) w = (Inr r, t) \<and>
      local_only (rpcServers t) \<and> tried t = tried w \<and>
      (case r of Inl er \<Rightarrow> \<not> works e w0 AcmeKey \<and> fatal AcmeKey \<and> partOf er = AcmeKey | Inr _ \<Rightarrow> works e w0 AcmeKey \<or> \<not> fatal AcmeKey)"
    by (cases err) (auto simp: bnd_def onFiles_def works_def fatal_def between_def fail_run succeed_run)
qed simp

lemma async_ok [part_rules]:
  "implements (works e w0) (\<lambda>w. local_only (rpcServers w)) (\<lambda>w. local_only (rpcServers w)) [AsyncStartup] (goroutine AsyncStartup)"
  unfolding goroutine_def by (rule implements_part) (auto simp: works_def)

section \<open>The start implements its order\<close>

lemma ssh_choice_ok [part_rules]:
  "(b \<Longrightarrow> hostKey_ok e) \<Longrightarrow> implements (works e w0) (between k) (between k) (if b then [DebugSsh] else []) (if b then sshPart e ak else succeed ())"
  by (simp add: ssh_ok implements_succeed)

lemma implements_last:
  "implements W I J ps m \<Longrightarrow> implements W I J ps (ethn m (succeed x))"
  using implements_ethn [of W I J ps m J "[]" "succeed x"] by (simp add: implements_succeed)

lemma between_local: "between k w \<Longrightarrow> local_only (rpcServers w)"
  by (simp add: between_def)

lemma startup_implements:
  assumes "initializeSystem e (hw w0) = (Inr r, h)" "sysFiles w0 ''/config/acme.key'' = k"
    and "StartDebugSshServer c \<Longrightarrow> hostKey_ok e"
  shows "implements (works e w0) (\<lambda>w. between k w \<and> hw w = hw w0) (\<lambda>w. local_only (rpcServers w))
     ([InitializeSystem] @ [StartGpio] @ [StartFan] @ [StartUart] @ [LoadSysconf] @ [StartNetwork] @ [TimeThread] @
      [EtcPasswd] @ [EtcGroup] @ [DevMem] @ (if StartDebugSshServer c then [DebugSsh] else []) @
      [StartMetrics] @ [StartGRPC] @ [StartDNS] @ [AcmeKey] @ [AsyncStartup]) (startSystem e c)"
  unfolding startSystem_def
  by (rule implements_ethn implements_ebnd implements_last system_ok gpio_ok fan_ok uart_ok sysconf_ok network_ok file_ok
      devMem_ok ssh_choice_ok metrics_ok grpc_ok dns_ok key_part_ok async_ok goroutine_ok assms | erule between_local | assumption | simp)+

lemma startOrder_parts:
  "startOrder W b = startParts W
     ([InitializeSystem] @ [StartGpio] @ [StartFan] @ [StartUart] @ [LoadSysconf] @ [StartNetwork] @ [TimeThread] @
      [EtcPasswd] @ [EtcGroup] @ [DevMem] @ (if b then [DebugSsh] else []) @
      [StartMetrics] @ [StartGRPC] @ [StartDNS] @ [AcmeKey] @ [AsyncStartup])"
  by (simp add: startOrder_def)

lemma startSystem_run:
  assumes "initializeSystem e (hw w) = (Inr r0, h)" "tried w = []" "rpcServers w = no_servers"
    and "StartDebugSshServer c \<Longrightarrow> hostKey_ok e"
  shows "\<exists>r t. startSystem e c w = (Inr r, t) \<and> local_only (rpcServers t) \<and>
    startOrder (works e w) (StartDebugSshServer c) = (tried t, case r of Inl er \<Rightarrow> Some (partOf er) | Inr _ \<Rightarrow> None)"
proof -
  have "between (sysFiles w ''/config/acme.key'') w \<and> hw w = hw w"
    using assms(3) by (simp add: between_def local_only_def no_servers_def)
  from implementsE [OF startup_implements [OF assms(1) refl assms(4)] this] obtain r t where
    "startSystem e c w = (Inr r, t)" "local_only (rpcServers t)"
    "tried t = fst (startOrder (works e w) (StartDebugSshServer c))"
    "case r of Inl er \<Rightarrow> snd (startOrder (works e w) (StartDebugSshServer c)) = Some (partOf er)
     | Inr _ \<Rightarrow> snd (startOrder (works e w) (StartDebugSshServer c)) = None"
    unfolding startOrder_parts [symmetric] using assms(2) by auto
  then show ?thesis
    by (intro exI [of _ r] exI [of _ t]) (auto simp: prod_eq_iff split: sum.splits)
qed

lemma works_seed: "works e (w\<lparr>versionCounts := vs, randSeed := x\<rparr>) = works e w"
  by (simp add: works_def fun_eq_iff split: part.split)

text \<open>The start behind the seed.\<close>

lemma StartupWithConfig_seed:
  assumes "randomBytes e = Some b"
  shows "\<exists>x vs. StartupWithConfig e c w = startSystem e c (w\<lparr>versionCounts := vs, randSeed := Some x\<rparr>)"
  using assms by (auto simp: StartupWithConfig_def welcomePart_def thn_def bnd_def seedPart_def seedRandomGenerator_def)

section \<open>The servers\<close>

text \<open>Whatever fails or panics in the start, only the server for the BMC itself can be running.\<close>

abbreviation local_safe :: "(('h, 'k) world, 'a) io \<Rightarrow> bool" where
  "local_safe m \<equiv> safe (\<lambda>w. local_only (rpcServers w)) (\<lambda>_. True) m"

lemma local_trying: "local_safe m \<Longrightarrow> local_safe (trying p m)"
  by (auto simp: safe_def trying_def)

lemma local_on: "local_safe (onHw m1)" "local_safe (onFiles m2)" "local_safe (onNet m3)"
  by (auto simp: safe_def onHw_def onFiles_def onNet_def split: prod.splits)

lemma local_servers: "local_safe (onServers (startGRPC na ls))"
  by (auto simp: safe_def onServers_def startGRPC_def newServer_def thn_def bnd_def ret_def local_only_def encrypted_def split: prod.splits)

lemma local_steps:
  "local_safe (welcomePart c)" "local_safe (seedPart e)" "local_safe (startMetrics e)"
  "local_safe (\<lambda>w. (Inr (Inr (f w)), w))" "local_safe (\<lambda>w. (Inr (Inr ()), w\<lparr>goroutines := g w\<rparr>))"
  "local_safe (\<lambda>w. (Inr (Inr ()), if b then w\<lparr>devMem := True\<rparr> else w))"
  "local_safe (\<lambda>w. (Inr (Inr ()), if b then w\<lparr>sshd := True\<rparr> else w))"
  by (auto simp: safe_def welcomePart_def seedPart_def startMetrics_def split: sum.splits)

lemma local_mapError: "local_safe m \<Longrightarrow> local_safe (mapError f m)"
  unfolding mapError_def by (intro safe_rules)

lemma local_pair [safe_rules]: "(\<And>x y. safe I P (f x y)) \<Longrightarrow> safe I P (case p of (x, y) \<Rightarrow> f x y)"
  by (cases p) simp

lemma StartupWithConfig_local: "local_safe (StartupWithConfig e c)"
  unfolding StartupWithConfig_def startSystem_def systemPart_def gpioPart_def fanPart_def uartPart_def sysconfPart_def
    networkPart_def goroutine_def filePart_def devMemPart_def sshPart_def grpcPart_def dnsPart_def keyPart_def
  by (intro safe_rules local_trying local_on local_servers local_steps local_mapError)

lemma serveEvents_running:
  "g \<in> set (running (serveEvents e evs s)) \<Longrightarrow>
   g \<in> set (running s) \<or>
   (\<exists>kp. RemoteEnabled kp \<in> set evs \<and> srv_addr g = '':443'' \<and> (\<forall>ct. kp = Some ct \<longrightarrow> srv_opts g = [Creds ct]))"
proof (induction evs arbitrary: s)
  case (Cons ev evs)
  let ?s = "case ev of RemoteEnabled kp \<Rightarrow> snd (EnableRemote (certNotAfter e) (listens e) kp s) | _ \<Rightarrow> s"
  have "g \<in> set (running (serveEvents e evs ?s))" using Cons.prems by (simp add: serveEvents_def)
  moreover have "g \<in> set (running s) \<or>
      (\<exists>kp. ev = RemoteEnabled kp \<and> srv_addr g = '':443'' \<and> (\<forall>ct. kp = Some ct \<longrightarrow> srv_opts g = [Creds ct]))"
    if "g \<in> set (running ?s)"
    using that by (cases ev) (auto simp: EnableRemote_def newServer_def Let_def thn_def bnd_def ret_def split: if_splits option.splits sum.splits)
  ultimately show ?case using Cons.IH by fastforce
qed (simp add: serveEvents_def)

text \<open>
  An error of the debug SSH server is only logged, but if there is no key and none can be generated, the
  start panics.
\<close>

lemma sshPart_panics:
  assumes "sysFiles w ''/config/ssh_host_ecdsa_key'' = None" "generateSshKey e = None"
  shows "\<exists>p t. sshPart e ak w = (Inl p, t)"
  using assms by (simp add: sshPart_def trying_def onFiles_def sshRun_def startSsh_def newSshKey_def bnd_def)

section \<open>A board on which everything works\<close>

text \<open>A board on which everything works.\<close>

definition board_env :: "(unit, nat) startEnv" where
  "board_env = \<lparr>randomBytes = Some [1, 2, 3, 4, 5, 6, 7, 8], initializeSystem = ret None, gpioOpens = True,
     initializeGpio = (\<lambda>_. (None, quanta_InitializeGpio)), env_FanMap = quanta_FanMap, env_PwmMap = quanta_PwmMap,
     env_HostUart = quanta_HostUart, openPort = (\<lambda>_. Inr ()), unmarshalText = (\<lambda>_. (None, True)), env_net = good_env,
     room = (\<lambda>_. Some 4096), readable = (\<lambda>_. True), canMknod = True, os_Environ = [], generateSshKey = Some 5,
     marshalEC = (\<lambda>k. Some [of_nat k]), pemEncode = (\<lambda>t b. b), processStarts = (\<lambda>_ _. True), listens = (\<lambda>_. True),
     generateKey = Some 7, marshalKey = (\<lambda>k. Some [of_nat k]), parseKey = (\<lambda>b. None), parseCert = (\<lambda>_. None)\<rparr>"

definition board_config :: Config where
  "board_config = DefaultConfig [''ssh-rsa AAAA''] ''v1'' ''0000'' True ''pebble''"

definition board_world :: "(unit, nat) world" where
  "board_world = \<lparr>hw = (), sysFiles = Map.empty, netw = eth0_up, rpcServers = no_servers, metricsServing = False, randSeed = None,
     devMem = False, sshd = False, goroutines = [], tried = [], versionCounts = []\<rparr>"

lemma board_works: "works board_env board_world p"
  by (cases p) (simp_all add: works_def board_env_def board_world_def ret_def loopback_ok_def key_ok_def good_env_def)

lemma board_random: "randomBytes board_env = Some [1, 2, 3, 4, 5, 6, 7, 8]"
  by (simp add: board_env_def)

lemma board_starts: "\<exists>st t. StartupWithConfig board_env c board_world = (Inr (Inr st), t)"
proof -
  obtain x vs where x: "StartupWithConfig board_env c board_world =
      startSystem board_env c (board_world\<lparr>versionCounts := vs, randSeed := Some x\<rparr>)"
    using StartupWithConfig_seed [of board_env "[1, 2, 3, 4, 5, 6, 7, 8]"] board_random by blast
  have i: "initializeSystem board_env (hw (board_world\<lparr>versionCounts := vs, randSeed := Some x\<rparr>)) = (Inr None, ())"
    by (simp add: board_env_def ret_def)
  have "tried (board_world\<lparr>versionCounts := vs, randSeed := Some x\<rparr>) = []" "rpcServers (board_world\<lparr>versionCounts := vs, randSeed := Some x\<rparr>) = no_servers"
    by (simp_all add: board_world_def)
  moreover have "hostKey_ok board_env" by (simp add: hostKey_ok_def board_env_def)
  ultimately have "\<exists>r t. startSystem board_env c (board_world\<lparr>versionCounts := vs, randSeed := Some x\<rparr>) = (Inr r, t) \<and> local_only (rpcServers t) \<and>
      startOrder (works board_env (board_world\<lparr>versionCounts := vs, randSeed := Some x\<rparr>)) (StartDebugSshServer c) =
        (tried t, case r of Inl er \<Rightarrow> Some (partOf er) | Inr _ \<Rightarrow> None)"
    using startSystem_run [OF i] by blast
  then obtain r t where r: "startSystem board_env c (board_world\<lparr>versionCounts := vs, randSeed := Some x\<rparr>) = (Inr r, t)"
    "startOrder (works board_env board_world) (StartDebugSshServer c) = (tried t, case r of Inl er \<Rightarrow> Some (partOf er) | Inr _ \<Rightarrow> None)"
    by (auto simp: works_seed)
  then have "\<exists>st. r = Inr st" by (cases r) (auto simp: startOrder_def board_works split: if_splits)
  with x r show ?thesis by auto
qed

section \<open>Properties\<close>





end
