(* ===== verification/Signer.thy ===== *)
theory Signer
  imports Loader
begin

text \<open>
  The build tool that signs the boot files (\<^verbatim>\<open>boot/signer/main.go\<close>), and what it gives together with the loader: an image whose boot
  files were signed by it, with the public key it wrote, is started by the loader. The RSA and OpenPGP libraries are parameters; that a signature
  made with a private key verifies with its public key is what is asked of them.
\<close>

section \<open>The OpenPGP entity\<close>

datatype sigType = SigTypePositiveCert | SigTypeSubkeyBinding

datatype hashId = SHA256

record 'i pgpSignature =
  CreationTime :: int
  FlagCertify :: bool
  FlagSign :: bool
  FlagEncryptCommunications :: bool
  FlagEncryptStorage :: bool
  FlagsValid :: bool
  Hash :: hashId
  IsPrimaryId :: "bool option"
  IssuerKeyId :: 'i
  KeyLifetimeSecs :: "u32 option"
  PreferredHash :: "u8 list"
  SigType :: sigType

record ('i, 'k, 'r) Subkey =
  sub_PublicKey :: 'k
  sub_PrivateKey :: 'r
  sub_Sig :: "'i pgpSignature"

record ('i, 'k, 'r) Entity =
  PrimaryKey :: 'k
  PrivateKey :: 'r
  Identities :: "(string \<times> 'i pgpSignature) list"
  Subkeys :: "('i, 'k, 'r) Subkey list"

text \<open>
  The libraries: the PEM and PKCS1 parsers, the OpenPGP keys made of an RSA key \<open>'p\<close> and a creation time, the name of an identity, the
  identifier of a key, the packet of a public key, and the detached signature of a text.
\<close>

record ('i, 'k, 'r, 'p) signLib =
  pemDecode :: "u8 list \<Rightarrow> u8 list option"
  ParsePKCS1PrivateKey :: "u8 list \<Rightarrow> 'p option"
  NewRSAPublicKey :: "int \<Rightarrow> 'p \<Rightarrow> 'k"
  NewRSAPrivateKey :: "int \<Rightarrow> 'p \<Rightarrow> 'r"
  NewUserId :: "string \<Rightarrow> string"
  KeyId :: "'k \<Rightarrow> 'i"
  Serialize :: "'k \<Rightarrow> u8 list"
  DetachSign :: "('i, 'k, 'r) Entity \<Rightarrow> u8 list \<Rightarrow> u8 list option"

section \<open>The program\<close>

definition keyLifetimeSecs :: u32 where
  "keyLifetimeSecs = 86400 * 365 * 100"

definition signEntity :: "('i, 'k, 'r, 'p) signLib \<Rightarrow> int \<Rightarrow> 'p \<Rightarrow> ('i, 'k, 'r) Entity" where
  "signEntity lib ct privKey =
     (let pubKey = NewRSAPublicKey lib ct privKey in
      \<lparr>PrimaryKey = pubKey, PrivateKey = NewRSAPrivateKey lib ct privKey,
       Identities = [(NewUserId lib ''u-bmc builder'',
         \<lparr>CreationTime = ct, FlagCertify = True, FlagSign = True, FlagEncryptCommunications = False, FlagEncryptStorage = False,
          FlagsValid = True, Hash = SHA256, IsPrimaryId = Some True, IssuerKeyId = KeyId lib pubKey, KeyLifetimeSecs = None,
          PreferredHash = [], SigType = SigTypePositiveCert\<rparr>)],
       Subkeys = [\<lparr>sub_PublicKey = pubKey, sub_PrivateKey = NewRSAPrivateKey lib ct privKey,
         sub_Sig = \<lparr>CreationTime = ct, FlagCertify = False, FlagSign = False, FlagEncryptCommunications = True, FlagEncryptStorage = True,
          FlagsValid = True, Hash = SHA256, IsPrimaryId = None, IssuerKeyId = KeyId lib pubKey, KeyLifetimeSecs = Some keyLifetimeSecs,
          PreferredHash = [8], SigType = SigTypeSubkeyBinding\<rparr>\<rparr>]\<rparr>)"

text \<open>
  The world of the program: the private key file, the public key file, and what is written to the standard output; whether the public key
  can be created, and how many bytes it takes. An error of writing it is ignored.
\<close>

record signer =
  privateKeyFile :: "u8 list option"
  publicKeyFile :: "u8 list option"
  stdout :: "u8 list"
  canCreate :: bool
  keyRoom :: nat

definition savePublicKey :: "('i, 'k, 'r, 'p) signLib \<Rightarrow> 'k \<Rightarrow> (signer, unit) io" where
  "savePublicKey lib pubKey s =
     (if publicKeyFile s \<noteq> None then (Inr (), s)
      else if \<not> canCreate s then (Inl (LogFatal ''os.OpenFile''), s)
      else (Inr (), s\<lparr>publicKeyFile := Some (take (keyRoom s) (Serialize lib pubKey))\<rparr>))"

text \<open>A key file that is not PEM gives a nil block, whose bytes are then read.\<close>

definition signer_main :: "('i, 'k, 'r, 'p) signLib \<Rightarrow> int \<Rightarrow> u8 list \<Rightarrow> (signer, unit) io" where
  "signer_main lib now stdin s =
     (case privateKeyFile s of
        None \<Rightarrow> (Inl (LogFatal ''ioutil.ReadFile''), s)
      | Some pkData \<Rightarrow>
     (case pemDecode lib pkData of
        None \<Rightarrow> (Inl SegFault, s)
      | Some pkPem \<Rightarrow>
     (case ParsePKCS1PrivateKey lib pkPem of
        None \<Rightarrow> (Inl (LogFatal ''x509.ParsePKCS1PrivateKey''), s)
      | Some privKey \<Rightarrow>
          (let e = signEntity lib now privKey in
           thn (savePublicKey lib (PrimaryKey e)) (\<lambda>s.
             case DetachSign lib e stdin of
               None \<Rightarrow> (Inl (LogFatal ''openpgp.DetachSign''), s)
             | Some b \<Rightarrow> (Inr (), s\<lparr>stdout := stdout s @ b\<rparr>)) s))))"

section \<open>Signing and verifying\<close>

text \<open>
  What is asked of the libraries: the packet of a public key is read back, and a detached signature is read back as one that verifies with
  every public key made of the same RSA key, whatever the creation times (the verification does not look at them).
\<close>

definition pgp_ok :: "('i, 'k, 'r, 'p) signLib \<Rightarrow> ('h, 'g, 'k) env \<Rightarrow> bool" where
  "pgp_ok lib e \<longleftrightarrow>
     (\<forall>k. nextPacket e (Serialize lib k) = Some (PublicKey k)) \<and>
     (\<forall>ent ct p msg b. PrivateKey ent = NewRSAPrivateKey lib ct p \<and> DetachSign lib ent msg = Some b \<longrightarrow>
        (\<exists>h g. nextPacket e b = Some (Signature h g) \<and> available e h \<and>
           (\<forall>ct'. VerifySignature e (NewRSAPublicKey lib ct' p) (digest e h msg) g)))"

text \<open>The private key in a file.\<close>

definition privateKey :: "('i, 'k, 'r, 'p) signLib \<Rightarrow> signer \<Rightarrow> 'p option" where
  "privateKey lib s =
     Option.bind (privateKeyFile s) (\<lambda>d. Option.bind (pemDecode lib d) (ParsePKCS1PrivateKey lib))"

lemma signer_main_success:
  assumes "signer_main lib now msg s = (Inr (), t)"
  obtains p b where "privateKey lib s = Some p" "DetachSign lib (signEntity lib now p) msg = Some b"
    "stdout t = stdout s @ b" "privateKeyFile t = privateKeyFile s"
    "publicKeyFile t = (case publicKeyFile s of
       Some k \<Rightarrow> Some k | None \<Rightarrow> Some (take (keyRoom s) (Serialize lib (NewRSAPublicKey lib now p))))"
proof -
  obtain d pem p where k: "privateKeyFile s = Some d" "pemDecode lib d = Some pem" "ParsePKCS1PrivateKey lib pem = Some p"
    using assms by (auto simp: signer_main_def split: option.splits)
  then have p: "privateKey lib s = Some p" by (simp add: privateKey_def)
  have ent: "PrimaryKey (signEntity lib now p) = NewRSAPublicKey lib now p" by (simp add: signEntity_def Let_def)
  obtain b where b: "DetachSign lib (signEntity lib now p) msg = Some b"
    using assms k by (auto simp: signer_main_def Let_def thn_def bnd_def split: option.splits sum.splits prod.splits)
  show ?thesis
  proof (rule that [OF p b])
  qed (use assms k b in \<open>auto simp: signer_main_def Let_def thn_def bnd_def savePublicKey_def ent split: if_splits option.splits\<close>)
qed

text \<open>A key that is there is never replaced, whatever key signs.\<close>

lemma signer_keeps_public_key:
  "signer_main lib now msg s = (r, t) \<Longrightarrow> publicKeyFile s = Some k \<Longrightarrow> publicKeyFile t = Some k"
  by (auto simp: signer_main_def Let_def thn_def bnd_def savePublicKey_def split: option.splits if_splits)

lemma signed_verifies:
  assumes "pgp_ok lib e" "signer_main lib now (contents f) s = (Inr (), t)" "stdout s = []" "contents sigf = stdout t"
    and "privateKey lib s = Some p"
  shows "signs e (NewRSAPublicKey lib ct p) sigf f"
proof -
  obtain b where b: "DetachSign lib (signEntity lib now p) (contents f) = Some b" "stdout t = b"
    using signer_main_success [OF assms(2)] assms(3,5) by (metis append_Nil option.inject)
  have "PrivateKey (signEntity lib now p) = NewRSAPrivateKey lib now p" by (simp add: signEntity_def Let_def)
  with assms(1) b(1) obtain h g where "nextPacket e b = Some (Signature h g)" "available e h"
    "VerifySignature e (NewRSAPublicKey lib ct p) (digest e h (contents f)) g"
    unfolding pgp_ok_def by blast
  with assms(4) b(2) show ?thesis by (simp add: signs_def)
qed

text \<open>
  The files of an image: the public key of the loader is the one the signer has written, and the file next to each boot file is what the signer
  gave for it, with the same private key.
\<close>

definition signed_image :: "('i, 'k, 'r, 'p) signLib \<Rightarrow> ('h, 'g, 'k) env \<Rightarrow> 'p \<Rightarrow> bool" where
  "signed_image lib e p \<longleftrightarrow>
     (\<exists>now msg s t keyf. signer_main lib now msg s = (Inr (), t) \<and> privateKey lib s = Some p \<and> publicKeyFile s = None \<and>
        length (Serialize lib (NewRSAPublicKey lib now p)) \<le> keyRoom s \<and>
        opens e [] pubKeyPath = Some keyf \<and> publicKeyFile t = Some (contents keyf)) \<and>
     (\<forall>path \<in> set verify. \<exists>now s t f sigf.
        opens e mtd_mounts path = Some f \<and> opens e mtd_mounts (path @ ''.gpg'') = Some sigf \<and>
        privateKey lib s = Some p \<and> stdout s = [] \<and>
        signer_main lib now (contents f) s = (Inr (), t) \<and> contents sigf = stdout t)"

lemma signed_image_verified:
  assumes "pgp_ok lib e" "signed_image lib e p"
  obtains keyf key where "opens e [] pubKeyPath = Some keyf" "readPublicSigningKey e keyf = Inr key"
    "\<forall>path \<in> set verify. verified e mtd_mounts key path"
proof -
  obtain now msg s t keyf where k: "signer_main lib now msg s = (Inr (), t)" "privateKey lib s = Some p" "publicKeyFile s = None"
    "length (Serialize lib (NewRSAPublicKey lib now p)) \<le> keyRoom s"
    "opens e [] pubKeyPath = Some keyf" "publicKeyFile t = Some (contents keyf)"
    using assms(2) unfolding signed_image_def by blast
  from signer_main_success [OF k(1)] k have "contents keyf = Serialize lib (NewRSAPublicKey lib now p)"
    by (metis (no_types, lifting) option.inject option.simps(4) take_all)
  then have key: "readPublicSigningKey e keyf = Inr (NewRSAPublicKey lib now p)"
    using assms(1) by (simp add: readPublicSigningKey_def pgp_ok_def)
  have "verified e mtd_mounts (NewRSAPublicKey lib now p) path" if path: "path \<in> set verify" for path
  proof -
    obtain n s' t' f sigf where f: "opens e mtd_mounts path = Some f" "opens e mtd_mounts (path @ ''.gpg'') = Some sigf"
      "privateKey lib s' = Some p" "stdout s' = []" "signer_main lib n (contents f) s' = (Inr (), t')" "contents sigf = stdout t'"
      using assms(2) path unfolding signed_image_def by blast
    from signed_verifies [OF assms(1) f(5,4,6,3)] f(1,2) show ?thesis by (simp add: verified_def)
  qed
  with that [OF k(5) key] show ?thesis by blast
qed

text \<open>C11.
  From the build to the boot: an image whose init program, kernel and device tree were signed by the signer with one private key, and
  whose public key is the one the signer has written for it, is started by the loader, if the file systems can be mounted, the files
  can be read and the kernel is accepted.
\<close>

theorem signed_image_boots:
  assumes "pgp_ok lib e" "signed_image lib e p"
    and "\<And>d. mkdirs e d" "\<And>m. mountable e m" "\<forall>path \<in> set verify. healthy e mtd_mounts path"
    and "opens e mtd_mounts kernelPath = Some kern" "FileLoad e (contents kern)" "ImageLoad e (contents kern)" "Reboot e"
  shows "\<exists>t. loader_main e \<lparr>kload = True, swroot = False, mtd = True, blk = False, ast = False\<rparr> power_on = (Inr (), t) \<and>
    handed t = Some (Kexec (contents kern))"
proof -
  obtain keyf key where "opens e [] pubKeyPath = Some keyf" "readPublicSigningKey e keyf = Inr key"
    "\<forall>path \<in> set verify. verified e mtd_mounts key path"
    using signed_image_verified [OF assms(1,2)] .
  from loader_boots_from_mtd [OF assms(3,4) this(1,2) _ assms(6-9)] this(3) assms(5) show ?thesis
    unfolding demo_flags_def by blast
qed

text \<open>A signer for the environment of the loader's witness: the signature is the text after a 1, the key is a 2.\<close>

definition demo_lib :: "(unit, unit, unit, unit) signLib" where
  "demo_lib = \<lparr>pemDecode = Some, ParsePKCS1PrivateKey = (\<lambda>_. Some ()), NewRSAPublicKey = (\<lambda>_ _. ()), NewRSAPrivateKey = (\<lambda>_ _. ()),
     NewUserId = (\<lambda>n. n), KeyId = (\<lambda>_. ()), Serialize = (\<lambda>_. [2]), DetachSign = (\<lambda>_ m. Some (1 # m))\<rparr>"

definition demo_signer :: signer where
  "demo_signer = \<lparr>privateKeyFile = Some [5], publicKeyFile = None, stdout = [], canCreate = True, keyRoom = 4096\<rparr>"

lemma demo_signs:
  "signer_main demo_lib 0 m demo_signer = (Inr (), demo_signer\<lparr>publicKeyFile := Some [2], stdout := 1 # m\<rparr>)"
  "privateKey demo_lib demo_signer = Some ()"
  by (simp_all add: signer_main_def demo_lib_def demo_signer_def Let_def thn_def bnd_def savePublicKey_def privateKey_def
      signEntity_def)

lemma demo_opens:
  "opens demo_env [] pubKeyPath = Some (demo_file [2])"
  "path \<in> set verify \<Longrightarrow> opens demo_env mtd_mounts path = Some (demo_file [7, 8])"
  "path \<in> set verify \<Longrightarrow> opens demo_env mtd_mounts (path @ ''.gpg'') = Some (demo_file [1, 7, 8])"
  by (auto simp: demo_env_def verify_def initPath_def kernelPath_def dtbPath_def pubKeyPath_def)

theorem signed_image_boots_witness:
  "pgp_ok demo_lib demo_env \<and> signed_image demo_lib demo_env () \<and>
   (\<exists>t. loader_main demo_env \<lparr>kload = True, swroot = False, mtd = True, blk = False, ast = False\<rparr> power_on = (Inr (), t) \<and>
     handed t = Some (Kexec [7, 8]))"
proof -
  have ok: "pgp_ok demo_lib demo_env"
    by (auto simp: pgp_ok_def demo_lib_def demo_env_def demo_packet_def)
  have run: "privateKey demo_lib demo_signer = Some () \<and> stdout demo_signer = [] \<and>
      signer_main demo_lib 0 (contents (demo_file [7, 8])) demo_signer = (Inr (), demo_signer\<lparr>publicKeyFile := Some [2], stdout := [1, 7, 8]\<rparr>) \<and>
      contents (demo_file [1, 7, 8]) = stdout (demo_signer\<lparr>publicKeyFile := Some [2], stdout := [1, 7, 8]\<rparr>)"
    by (simp add: demo_signs demo_file_def) (simp add: demo_signer_def)
  have "signer_main demo_lib 0 [] demo_signer = (Inr (), demo_signer\<lparr>publicKeyFile := Some [2], stdout := [1]\<rparr>) \<and>
      privateKey demo_lib demo_signer = Some () \<and> publicKeyFile demo_signer = None \<and>
      length (Serialize demo_lib (NewRSAPublicKey demo_lib 0 ())) \<le> keyRoom demo_signer \<and>
      opens demo_env [] pubKeyPath = Some (demo_file [2]) \<and>
      publicKeyFile (demo_signer\<lparr>publicKeyFile := Some [2], stdout := [1]\<rparr>) = Some (contents (demo_file [2]))"
    by (simp add: demo_signs demo_opens demo_file_def) (simp add: demo_signer_def demo_lib_def)
  then have image: "signed_image demo_lib demo_env ()"
    using run demo_opens unfolding signed_image_def by blast
  have "kernelPath \<in> set verify" by (simp add: verify_def)
  then have "opens demo_env mtd_mounts kernelPath = Some (demo_file [7, 8])" by (rule demo_opens)
  moreover have "\<forall>path \<in> set verify. healthy demo_env mtd_mounts path"
    by (auto simp: healthy_def demo_opens) (auto simp: demo_env_def demo_file_def)
  ultimately show ?thesis
    using signed_image_boots [OF ok image] ok image by (auto simp: demo_env_def demo_file_def)
qed

end
