(* ===== verification/Rootfs.thy ===== *)
theory Rootfs
  imports Loader
begin

text \<open>
  The build tool of the root file system (\<^verbatim>\<open>u-bmc.go\<close>): which commands go into the busybox binary, the links to it and the directories. The
  busybox builder, globbing and the file system's answers are the environment. The lemmas show which names the root file system has at the end.
\<close>

section \<open>The program\<close>

definition urootWhitelist :: "string list" where
  "urootWhitelist =
    [''backoff'', ''basename'', ''bind'', ''blkid'', ''cat'', ''chmod'', ''cmp'', ''comm'', ''cp'', ''date'', ''dd'',
     ''df'', ''dirname'', ''dmesg'', ''echo'', ''elvish'', ''false'', ''find'', ''free'', ''grep'', ''hexdump'',
     ''hostname'', ''hwclock'', ''id'', ''init'', ''io'', ''ip'', ''kill'', ''ln'', ''losetup'', ''ls'', ''lsmod'', ''man'',
     ''md5sum'', ''mkdir'', ''mkfifo'', ''mknod'', ''mktemp'', ''more'', ''mount'', ''mv'', ''netcat'', ''pci'',
     ''printenv'', ''ps'', ''pwd'', ''readlink'', ''rm'', ''scp'', ''seq'', ''shasum'', ''shutdown'', ''sleep'', ''sort'',
     ''sshd'', ''strace'', ''strings'', ''stty'', ''sync'', ''tail'', ''tar'', ''tee'', ''time'', ''tr'', ''true'',
     ''truncate'', ''ts'', ''umount'', ''unshare'', ''uptime'', ''watchdog'', ''watchdogd'', ''wc'', ''wget'', ''which'',
     ''yes'']"

record rootfs =
  links :: "string \<rightharpoonup> string"
  rootDirs :: "string list"
  busybox :: "string list option"

text \<open>
  \<open>globs\<close> is \<^verbatim>\<open>filepath.Glob\<close> (None for a malformed pattern), \<open>absPath\<close> is \<^verbatim>\<open>filepath.Abs\<close>, \<open>builds\<close> tells whether the
  builder accepts the commands and the path of the binary, \<open>symlinks\<close> and \<open>makesDir\<close> whether a link and a directory can be made.
\<close>

record buildEnv =
  globs :: "string \<Rightarrow> string list option"
  absPath :: "string \<Rightarrow> string"
  workDir :: "string option"
  builds :: "string list \<Rightarrow> string \<Rightarrow> bool"
  symlinks :: "string \<Rightarrow> bool"
  makesDir :: "string \<Rightarrow> bool"

datatype buildError = GlobFailed | NoWorkDir | BuildFailed | SymlinkFailed string | MkdirFailed string

definition urootAbsEach :: "buildEnv \<Rightarrow> string list \<Rightarrow> string list" where
  "urootAbsEach e xs = map (\<lambda>s. absPath e (''../../u-root/cmds/core/'' @ s)) xs"

text \<open>The commands of the arguments; a malformed pattern is skipped.\<close>

definition extraCommands :: "buildEnv \<Rightarrow> string list \<Rightarrow> string list" where
  "extraCommands e args = concat (map (\<lambda>a. case globs e a of None \<Rightarrow> [] | Some ps \<Rightarrow> ps) args)"

definition replaceLink :: "buildEnv \<Rightarrow> string \<Rightarrow> string \<Rightarrow> (rootfs, buildError, unit) eio" where
  "replaceLink e target path s =
     (if symlinks e path then (Inr (Inr ()), s\<lparr>links := (links s)(path \<mapsto> target)\<rparr>)
      else (Inr (Inl (SymlinkFailed path)), s\<lparr>links := (links s)(path := None)\<rparr>))"

definition makeDir :: "buildEnv \<Rightarrow> string \<Rightarrow> (rootfs, buildError, unit) eio" where
  "makeDir e d s =
     (if makesDir e d then (Inr (Inr ()), s\<lparr>rootDirs := rootDirs s @ [d]\<rparr>) else (Inr (Inl (MkdirFailed d)), s))"

fun eachOf :: "('a \<Rightarrow> ('s, 'e, unit) eio) \<Rightarrow> 'a list \<Rightarrow> ('s, 'e, unit) eio" where
  "eachOf f [] = succeed ()"
| "eachOf f (x # xs) = ethn (f x) (eachOf f xs)"

definition directories :: "string list" where
  "directories = [''dev'', ''proc'', ''sys'', ''usr/lib'', ''var/log'', ''tmp'', ''etc'', ''boot'', ''config'']"

definition ubmc_Main :: "buildEnv \<Rightarrow> string list \<Rightarrow> (rootfs, buildError, unit) eio" where
  "ubmc_Main e args =
     (let urootcmds = urootAbsEach e urootWhitelist in
      case globs e ''../cmd/*'' of
        None \<Rightarrow> fail GlobFailed
      | Some bmccmds \<Rightarrow>
          (let commands = bmccmds @ urootcmds @ extraCommands e args in
           case workDir e of
             None \<Rightarrow> fail NoWorkDir
           | Some pwd \<Rightarrow>
               ethn (\<lambda>s. if builds e commands (pwd @ ''/rootfs/bin/bb'') then (Inr (Inr ()), s\<lparr>busybox := Some commands\<rparr>)
                         else (Inr (Inl BuildFailed), s))
              (ethn (eachOf (\<lambda>c. replaceLink e ''bb'' (''rootfs/bin/'' @ Base c)) commands)
              (ethn (replaceLink e ''elvish'' ''rootfs/bin/sh'')
                    (eachOf (\<lambda>d. makeDir e (''rootfs/'' @ d)) directories)))))"

text \<open>\<^verbatim>\<open>main\<close> ends the process with the error.\<close>

definition ubmc_main :: "buildEnv \<Rightarrow> string list \<Rightarrow> (rootfs, unit) io" where
  "ubmc_main e args = bnd (ubmc_Main e args) (\<lambda>r. case r of Inl _ \<Rightarrow> raise (LogFatal ''u-bmc'') | Inr _ \<Rightarrow> ret ())"

section \<open>Lemmas\<close>

lemma replaceLink_success:
  "replaceLink e target p s = (Inr (Inr x), t) \<longleftrightarrow> symlinks e p \<and> t = s\<lparr>links := (links s)(p \<mapsto> target)\<rparr>"
  by (auto simp: replaceLink_def)

lemma makeDir_success:
  "makeDir e d s = (Inr (Inr x), t) \<longleftrightarrow> makesDir e d \<and> t = s\<lparr>rootDirs := rootDirs s @ [d]\<rparr>"
  by (auto simp: makeDir_def)

lemma eachOf_links:
  "eachOf (\<lambda>c. replaceLink e target (f c)) cs s = (Inr (Inr ()), t) \<Longrightarrow>
   t = s\<lparr>links := (\<lambda>p. if p \<in> f ` set cs then Some target else links s p)\<rparr>"
proof (induction cs arbitrary: s)
  case (Cons c cs)
  let ?s = "s\<lparr>links := (links s)(f c \<mapsto> target)\<rparr>"
  have "eachOf (\<lambda>c. replaceLink e target (f c)) cs ?s = (Inr (Inr ()), t)"
    using Cons.prems by (auto simp: ethn_def ebnd_success replaceLink_success)
  from Cons.IH [OF this] show ?case by (auto simp: fun_eq_iff)
qed (simp add: succeed_run)

lemma eachOf_dirs:
  "eachOf (\<lambda>d. makeDir e (f d)) ds s = (Inr (Inr ()), t) \<Longrightarrow> t = s\<lparr>rootDirs := rootDirs s @ map f ds\<rparr>"
proof (induction ds arbitrary: s)
  case (Cons d ds)
  have "eachOf (\<lambda>d. makeDir e (f d)) ds (s\<lparr>rootDirs := rootDirs s @ [f d]\<rparr>) = (Inr (Inr ()), t)"
    using Cons.prems by (auto simp: ethn_def ebnd_success makeDir_success)
  from Cons.IH [OF this] show ?case by simp
qed (simp add: succeed_run)

lemma ubmc_Main_success:
  assumes "ubmc_Main e args s = (Inr (Inr ()), t)"
  obtains bmccmds where "globs e ''../cmd/*'' = Some bmccmds"
    "busybox t = Some (bmccmds @ urootAbsEach e urootWhitelist @ extraCommands e args)"
    "links t = (\<lambda>p. if p = ''rootfs/bin/sh'' then Some ''elvish''
       else if p \<in> (\<lambda>c. ''rootfs/bin/'' @ Base c) ` set (bmccmds @ urootAbsEach e urootWhitelist @ extraCommands e args)
       then Some ''bb'' else links s p)"
    "rootDirs t = rootDirs s @ map (\<lambda>d. ''rootfs/'' @ d) directories"
proof -
  obtain bmccmds pwd where g: "globs e ''../cmd/*'' = Some bmccmds" "workDir e = Some pwd"
    using assms by (auto simp: ubmc_Main_def fail_run Let_def split: option.splits)
  define cs where "cs = bmccmds @ urootAbsEach e urootWhitelist @ extraCommands e args"
  obtain s1 s2 where run: "eachOf (\<lambda>c. replaceLink e ''bb'' (''rootfs/bin/'' @ Base c)) cs (s\<lparr>busybox := Some cs\<rparr>) = (Inr (Inr ()), s1)"
    "replaceLink e ''elvish'' ''rootfs/bin/sh'' s1 = (Inr (Inr ()), s2)"
    "eachOf (\<lambda>d. makeDir e (''rootfs/'' @ d)) directories s2 = (Inr (Inr ()), t)"
    using assms g by (auto simp: ubmc_Main_def Let_def ethn_def ebnd_success cs_def split: if_splits)
  note s1 = eachOf_links [OF run(1)] and t = eachOf_dirs [OF run(3)]
  have s2: "s2 = s1\<lparr>links := (links s1)(''rootfs/bin/sh'' \<mapsto> ''elvish'')\<rparr>"
    using run(2) by (auto simp: replaceLink_success)
  show ?thesis
    by (rule that [OF g(1), folded cs_def]) (use s1 s2 t in \<open>auto simp: fun_eq_iff\<close>)
qed

lemma Base_append:
  assumes "c \<noteq> []" "CHR ''/'' \<notin> set c"
  shows "Base (d @ CHR ''/'' # c) = c"
proof -
  obtain x xs where x: "rev c = x # xs" "x \<noteq> CHR ''/''" 
  proof (cases "rev c")
    case (Cons x xs)
    then have "x \<in> set c" by (metis list.set_intros(1) set_rev)
    with assms(2) Cons that show ?thesis by auto
  qed (use assms(1) in simp)
  have "takeWhile (\<lambda>c. c \<noteq> CHR ''/'') (rev c @ CHR ''/'' # rev d) = rev c"
    using assms(2) by (subst takeWhile_append2) auto
  with x show ?thesis by (simp add: Base_def Let_def)
qed

lemma whitelist_names: "list_all (\<lambda>c. c \<noteq> [] \<and> CHR ''/'' \<notin> set c \<and> c \<noteq> ''sh'') urootWhitelist"
  by code_simp

section \<open>Properties\<close>


text \<open>A build in which every call succeeds.\<close>

definition demo_build :: buildEnv where
  "demo_build = \<lparr>globs = (\<lambda>p. Some (if p = ''../cmd/*'' then [''../cmd/login'', ''../cmd/fan''] else [])), absPath = (\<lambda>p. p),
     workDir = Some ''/build'', builds = (\<lambda>_ _. True), symlinks = (\<lambda>_. True), makesDir = (\<lambda>_. True)\<rparr>"

lemma eachOf_runs: "(\<And>x s. \<exists>t. f x s = (Inr (Inr ()), t)) \<Longrightarrow> \<exists>t. eachOf f xs s = (Inr (Inr ()), t)"
proof (induction xs arbitrary: s)
  case (Cons x xs)
  obtain u where "f x s = (Inr (Inr ()), u)" using Cons.prems by blast
  with Cons.IH [OF Cons.prems, of u] show ?case by (simp add: ethn_def ebnd_run)
qed (simp add: succeed_run)

lemma demo_build_succeeds: "\<exists>t. ubmc_Main demo_build [] s = (Inr (Inr ()), t)"
proof -
  let ?link = "\<lambda>c. replaceLink demo_build ''bb'' (''rootfs/bin/'' @ Base c)"
  have f: "globs demo_build ''../cmd/*'' = Some [''../cmd/login'', ''../cmd/fan'']" "workDir demo_build = Some ''/build''"
    "\<And>c p. builds demo_build c p" by (simp_all add: demo_build_def)
  obtain cs where cs: "cs = [''../cmd/login'', ''../cmd/fan''] @ urootAbsEach demo_build urootWhitelist @ extraCommands demo_build []" by blast
  obtain s1 where s1: "eachOf ?link cs (s\<lparr>busybox := Some cs\<rparr>) = (Inr (Inr ()), s1)"
    using eachOf_runs [of ?link cs] by (auto simp: replaceLink_def demo_build_def)
  obtain s2 where s2: "replaceLink demo_build ''elvish'' ''rootfs/bin/sh'' s1 = (Inr (Inr ()), s2)"
    by (simp add: replaceLink_def demo_build_def)
  obtain s3 where s3: "eachOf (\<lambda>d. makeDir demo_build (''rootfs/'' @ d)) directories s2 = (Inr (Inr ()), s3)"
    using eachOf_runs [of "\<lambda>d. makeDir demo_build (''rootfs/'' @ d)" directories] by (auto simp: makeDir_def demo_build_def)
  have "ubmc_Main demo_build [] s = (Inr (Inr ()), s3)"
    unfolding ubmc_Main_def f Let_def option.simps cs [symmetric] ethn_def ebnd_success using s1 s2 s3 f(3) by auto
  then show ?thesis by blast
qed


end
