(* ===== verification/Initramfs.thy ===== *)
theory Initramfs
  imports Signer
begin

text \<open>
  The tool that packs the initial file system of the loader (\<^verbatim>\<open>boot/cpio/main.go\<close>) and the program that stands before the shell
  (\<^verbatim>\<open>cmd/login/main.go\<close>). The archiver of u-root, globbing and the kernel's calls are the environment. The lemmas connect the archive with
  the loader: its directories are those the loader mounts on, and the public key is where the loader looks for it.
\<close>

section \<open>Packing\<close>

datatype cpioRecord = Directory string nat | CharDev string nat nat nat

definition records :: "cpioRecord list" where
  "records =
    [Directory ''ro'' 493, Directory ''mnt'' 493, Directory ''tmp'' 493, Directory ''proc'' 365, Directory ''sys'' 365,
     Directory ''dev'' 511, CharDev ''dev/console'' 384 5 1, CharDev ''dev/tty'' 438 5 0, CharDev ''dev/null'' 438 1 3,
     CharDev ''dev/port'' 416 1 4, CharDev ''dev/urandom'' 438 1 9]"

record archive =
  arc_base :: "cpioRecord list"
  arc_files :: "(string \<times> string) list"

text \<open>
  \<open>cp_globs\<close> gives the matches of a pattern, none also for a malformed one; \<open>addable\<close> is whether \<^verbatim>\<open>AddFile\<close> takes a file under a name beside
  those it has.
\<close>

record cpioEnv =
  archiver :: bool
  opensWriter :: bool
  cp_globs :: "string \<Rightarrow> string list"
  addable :: "(string \<times> string) list \<Rightarrow> string \<Rightarrow> string \<Rightarrow> bool"
  writes :: "archive \<Rightarrow> bool"

fun addFiles :: "cpioEnv \<Rightarrow> string list \<Rightarrow> (string \<times> string) list \<Rightarrow> panic + (string \<times> string) list" where
  "addFiles e [] fs = Inr fs"
| "addFiles e (f # rest) fs =
     (if addable e fs f (Base f) then addFiles e rest (fs @ [(Base f, f)]) else Inl (LogFatal ''AddFile''))"

fun addArgs :: "cpioEnv \<Rightarrow> string list \<Rightarrow> (string \<times> string) list \<Rightarrow> panic + (string \<times> string) list" where
  "addArgs e [] fs = Inr fs"
| "addArgs e (arg # rest) fs =
     (if cp_globs e arg = [] then Inl (LogFatal ''Glob'')
      else case addFiles e (cp_globs e arg) fs of Inl p \<Rightarrow> Inl p | Inr fs \<Rightarrow> addArgs e rest fs)"

definition cpio_main :: "cpioEnv \<Rightarrow> string list \<Rightarrow> panic + archive" where
  "cpio_main e args =
     (if \<not> archiver e then Inl (LogFatal ''GetArchiver'')
      else if \<not> opensWriter e then Inl (LogFatal ''Openwriter'')
      else case addArgs e args [] of
             Inl p \<Rightarrow> Inl p
           | Inr fs \<Rightarrow>
               (let a = \<lparr>arc_base = records, arc_files = fs\<rparr> in
                if writes e a then Inr a else Inl (LogFatal ''Write'')))"

section \<open>Login\<close>

text \<open>After a line of input the program becomes the shell with a fixed environment; \<open>execs\<close> tells whether the kernel starts it.\<close>

datatype loginEnd = LoginFatal string | Becomes string "string list" "string list"

definition login_main :: "string \<Rightarrow> bool \<Rightarrow> bool \<Rightarrow> loginEnd" where
  "login_main sh readsLine execs =
     (if \<not> readsLine then LoginFatal ''unable to read from terminal''
      else if execs then Becomes sh [sh] [''TZ=UTC'', ''HOME=/root'', ''USER=root'', ''PATH=/bin'']
      else LoginFatal ''failed to exec'')"

section \<open>The archive and the loader\<close>

lemma addFiles_result: "addFiles e xs fs = Inr r \<Longrightarrow> r = fs @ map (\<lambda>f. (Base f, f)) xs"
  by (induction e xs fs rule: addFiles.induct) (auto split: if_splits)

lemma addArgs_result: "addArgs e args fs = Inr r \<Longrightarrow> r = fs @ map (\<lambda>f. (Base f, f)) (concat (map (cp_globs e) args))"
proof (induction e args fs rule: addArgs.induct)
  case (2 e arg rest fs)
  then obtain fs' where fs': "cp_globs e arg \<noteq> []" "addFiles e (cp_globs e arg) fs = Inr fs'" "addArgs e rest fs' = Inr r"
    by (auto split: if_splits sum.splits)
  from "2.IH" [OF fs'(1,2,3)] addFiles_result [OF fs'(2)] show ?case by simp
qed simp

text \<open>Every matched file is in the archive under its last part, and nothing else is.\<close>

lemma cpio_files:
  assumes "cpio_main e args = Inr a"
  shows "arc_files a = map (\<lambda>f. (Base f, f)) (concat (map (cp_globs e) args))" "arc_base a = records"
  using assms by (auto simp: cpio_main_def Let_def dest!: addArgs_result split: if_splits sum.splits)

text \<open>The directories the loader mounts file systems on are in the archive.\<close>

lemma cpio_directories:
  assumes "cpio_main e args = Inr a" "d \<in> {''mnt'', ''ro'', ''tmp'', ''proc'', ''sys'', ''dev''}"
  shows "\<exists>m. Directory d m \<in> set (arc_base a)"
  using assms(2) by (auto simp: cpio_files [OF assms(1)] records_def)

text \<open>A key file packed from the signer's directory is the loader's public key.\<close>

lemma cpio_public_key:
  assumes "cpio_main e args = Inr a" "dir @ ''/u-bmc.pub'' \<in> set (concat (map (cp_globs e) args))"
  shows "(''u-bmc.pub'', dir @ ''/u-bmc.pub'') \<in> set (arc_files a) \<and> pubKeyPath = ''/'' @ ''u-bmc.pub''"
proof -
  have "Base (dir @ ''/u-bmc.pub'') = ''u-bmc.pub''" by (simp add: Base_def Let_def)
  with assms(2) show ?thesis by (force simp: cpio_files [OF assms(1)] pubKeyPath_def)
qed

end
