(* ===== verification/Acme_Ends.thy ===== *)
theory Acme_Ends
  imports Renewal
begin

text \<open>
  When the ACME client ends: its loops run for as long as the server asks for another round, with a nonce
  that it does not take, a server error, or an order or authorization that is not decided yet. A
  measure of the network bounds how many such answers it still gives; with it every operation that a
  renewal calls returns, and the fuel of the model is never used up. A server that gives no such bound
  keeps the client for ever.
\<close>

section \<open>Programs that end\<close>

text \<open>
  \<open>ends_by v B Q m\<close>: from a world of measure at most \<open>B\<close>, the program \<open>m\<close> returns or panics, the measure does not
  grow, and it falls if the result satisfies \<open>Q\<close>.
\<close>

definition ends_by :: "('s \<Rightarrow> nat) \<Rightarrow> nat \<Rightarrow> ('a \<Rightarrow> bool) \<Rightarrow> ('s, 'a) io \<Rightarrow> bool" where
  "ends_by v B Q m \<longleftrightarrow>
     (\<forall>s r t. v s \<le> B \<longrightarrow> m s = (r, t) \<longrightarrow>
        r \<noteq> Inl NoReturn \<and> v t \<le> v s \<and> (\<forall>x. r = Inr x \<longrightarrow> Q x \<longrightarrow> v t < v s))"

abbreviation ends :: "('s \<Rightarrow> nat) \<Rightarrow> nat \<Rightarrow> ('s, 'a) io \<Rightarrow> bool" where
  "ends v B m \<equiv> ends_by v B (\<lambda>_. False) m"

named_theorems ends_rules \<open>introduction rules for programs that end\<close>

lemma ends_byD:
  assumes "ends_by v B Q m" "v s \<le> B" "m s = (r, t)"
  shows "r \<noteq> Inl NoReturn" "v t \<le> v s" "\<And>x. r = Inr x \<Longrightarrow> Q x \<Longrightarrow> v t < v s"
  using assms unfolding ends_by_def by blast+

lemma ends_by_weaken: "ends_by v B Q m \<Longrightarrow> (\<And>x. R x \<Longrightarrow> Q x) \<Longrightarrow> ends_by v B R m"
  unfolding ends_by_def by blast

lemma ends_by_ends: "ends_by v B Q m \<Longrightarrow> ends v B m"
  by (rule ends_by_weaken) simp_all

lemma ends_by_ret: "\<not> Q x \<Longrightarrow> ends_by v B Q (ret x)"
  by (simp add: ends_by_def ret_def)

text \<open>A result of the first program that satisfies \<open>P\<close> leaves less for the second.\<close>

lemma ends_by_bnd:
  assumes "ends_by v B P m" "\<And>x. P x \<Longrightarrow> 0 < B \<Longrightarrow> ends v (B - Suc 0) (f x)" "\<And>x. \<not> P x \<Longrightarrow> ends_by v B Q (f x)"
  shows "ends_by v B Q (bnd m f)"
  unfolding ends_by_def
proof (intro allI impI)
  fix s r t assume s: "v s \<le> B" "bnd m f s = (r, t)"
  obtain r1 u where m: "m s = (r1, u)" by fastforce
  note mu = ends_byD [OF assms(1) s(1) m]
  show "r \<noteq> Inl NoReturn \<and> v t \<le> v s \<and> (\<forall>x. r = Inr x \<longrightarrow> Q x \<longrightarrow> v t < v s)"
  proof (cases r1)
    case (Inl p)
    with s(2) m mu show ?thesis by (auto simp: bnd_def)
  next
    case (Inr x)
    with s(2) m have run: "f x u = (r, t)" by (simp add: bnd_def)
    show ?thesis
    proof (cases "P x")
      case True
      with mu(3) Inr have less: "v u < v s" by blast
      with s(1) have "v u \<le> B - Suc 0" "0 < B" by linarith+
      from ends_byD(1,2) [OF assms(2) [OF True this(2)] this(1) run] less show ?thesis by simp
    next
      case False
      from mu(2) s(1) have "v u \<le> B" by linarith
      from ends_byD [OF assms(3) [OF False] this run] mu(2) show ?thesis by fastforce
    qed
  qed
qed

text \<open>The same for programs that return an error or a result.\<close>

abbreviation ends_with :: "('s \<Rightarrow> nat) \<Rightarrow> nat \<Rightarrow> ('e \<Rightarrow> bool) \<Rightarrow> ('a \<Rightarrow> bool) \<Rightarrow> ('s, 'e, 'a) eio \<Rightarrow> bool" where
  "ends_with v B E Q m \<equiv> ends_by v B (case_sum E Q) m"

lemma ends_with_ebnd:
  assumes "ends_with v B E P m" "\<And>x. P x \<Longrightarrow> 0 < B \<Longrightarrow> ends v (B - Suc 0) (f x)" "\<And>x. \<not> P x \<Longrightarrow> ends_with v B E Q (f x)"
  shows "ends_with v B E Q (ebnd m f)"
  unfolding ebnd_def
  by (rule ends_by_bnd [OF assms(1)]) (auto simp: fail_def assms(2,3) intro: ends_by_ret split: sum.split sum.splits)

lemma ends_ebnd_split:
  assumes "ends_with v B E P m" "\<And>x. P x \<Longrightarrow> 0 < B \<Longrightarrow> ends v (B - Suc 0) (f x)" "\<And>x. \<not> P x \<Longrightarrow> ends v B (f x)"
  shows "ends v B (ebnd m f)"
proof -
  have "ends_with v B (\<lambda>_. False) P m"
    using assms(1) by (rule ends_by_weaken) (auto split: sum.splits)
  then have "ends_with v B (\<lambda>_. False) (\<lambda>_. False) (ebnd m f)"
    by (rule ends_with_ebnd) (use assms(2,3) in \<open>auto intro: ends_by_weaken split: sum.splits\<close>)
  then show ?thesis by (rule ends_by_ends)
qed

lemma ends_ret [ends_rules]: "ends v B (ret x)"
  by (rule ends_by_ret) simp

lemma ends_succeed [ends_rules]: "ends v B (succeed x)" "ends v B (fail e)" "ends v B (pure_result r)"
  unfolding succeed_def fail_def pure_result_def by (rule ends_ret)+

lemma ends_raise [ends_rules]: "p \<noteq> NoReturn \<Longrightarrow> ends_by v B Q (raise p)"
  by (simp add: ends_by_def raise_def)

lemma ends_bnd [ends_rules]: "ends v B m \<Longrightarrow> (\<And>x. ends v B (f x)) \<Longrightarrow> ends v B (bnd m f)"
  by (rule ends_by_bnd [where P = "\<lambda>_. False"]) simp_all

lemma ends_ebnd [ends_rules]: "ends v B m \<Longrightarrow> (\<And>x. ends v B (f x)) \<Longrightarrow> ends v B (ebnd m f)"
  unfolding ebnd_def fail_def by (auto intro!: ends_bnd ends_ret split: sum.split)

lemma ends_ethn [ends_rules]: "ends v B m \<Longrightarrow> ends v B n \<Longrightarrow> ends v B (ethn m n)"
  unfolding ethn_def by (rule ends_ebnd)

lemma ends_if [ends_rules]: "(b \<Longrightarrow> ends v B m) \<Longrightarrow> (\<not> b \<Longrightarrow> ends v B n) \<Longrightarrow> ends v B (if b then m else n)"
  by simp

lemma ends_Let [ends_rules]: "ends v B (f x) \<Longrightarrow> ends v B (let y = x in f y)"
  by simp

lemma ends_case_option [ends_rules]:
  "ends v B m \<Longrightarrow> (\<And>x. ends v B (f x)) \<Longrightarrow> ends v B (case y of None \<Rightarrow> m | Some x \<Rightarrow> f x)"
  by (cases y) simp_all

lemma ends_case_sum [ends_rules]:
  "(\<And>x. ends v B (f x)) \<Longrightarrow> (\<And>x. ends v B (g x)) \<Longrightarrow> ends v B (case y of Inl x \<Rightarrow> f x | Inr x \<Rightarrow> g x)"
  by (cases y) simp_all

text \<open>What does not use the network leaves the measure of it alone.\<close>

lemma ends_with_results:
  "\<not> Q x \<Longrightarrow> ends_with v B E Q (succeed x)" "\<not> E e \<Longrightarrow> ends_with v B E Q (fail e)"
  "(\<And>e. r = Inl e \<Longrightarrow> \<not> E e) \<Longrightarrow> (\<And>x. r = Inr x \<Longrightarrow> \<not> Q x) \<Longrightarrow> ends_with v B E Q (pure_result r)"
  unfolding succeed_def fail_def pure_result_def by (rule ends_by_ret; auto split: sum.split)+

abbreviation net :: "('w \<Rightarrow> nat) \<Rightarrow> 'w client \<Rightarrow> nat" where
  "net \<mu> s \<equiv> \<mu> (cl_net s)"

lemma ends_local [ends_rules]:
  "ends (net \<mu>) B (theDir f)" "ends v B (gets g)"
  by (auto simp: ends_by_def theDir_def gets_def split: option.splits)

lemma ends_change [ends_rules]: "(\<And>s. v (f s) \<le> v s) \<Longrightarrow> ends v B (change f)"
  by (auto simp: ends_by_def change_def)

lemma ends_addNonce [ends_rules]: "ends (net \<mu>) B (addNonce h)"
  unfolding addNonce_def by (intro ends_rules) simp

lemma ends_clearNonces [ends_rules]: "ends (net \<mu>) B clearNonces"
  unfolding clearNonces_def by (intro ends_rules) simp

section \<open>Answers that ask for another round\<close>

definition again :: "acmeError \<Rightarrow> bool" where
  "again e \<longleftrightarrow> retriable e \<noteq> None"

lemma again_simps [simp]:
  "\<not> again ContextDone" "\<not> again (TransportError x)" "\<not> again (BadRequest x)" "\<not> again NonceNotFound"
  "\<not> again (InvalidResponse x)" "\<not> again ErrUnsupportedKey"
  by (simp_all add: again_def retriable_def)

text \<open>Errors after which the client tries again, and answers to a poll that decide nothing.\<close>

definition openError :: "('w, 'b) env \<Rightarrow> 'b httpResponse \<Rightarrow> bool" where
  "openError env res \<longleftrightarrow> rs_StatusCode res \<noteq> 200 \<and>
     (err_Type (responseError env res) = badNonce \<or> again (ServerError (responseError env res)))"

definition openAnswer :: "('w, 'b) env \<Rightarrow> payload \<Rightarrow> 'b httpResponse \<Rightarrow> bool" where
  "openAnswer env body res \<longleftrightarrow> openError env res \<or>
     body = NoPayload \<and>
     (rs_StatusCode res \<noteq> 200 \<and> rs_StatusCode res \<noteq> 202 \<or>
      (case dec_order env (rs_Body res) of Some v \<Rightarrow> wo_Status v = StatusProcessing | None \<Rightarrow> False) \<or>
      (case dec_authz env (rs_Body res) of
         Some v \<Rightarrow> wa_Status v = StatusPending \<or> wa_Status v = StatusProcessing | None \<Rightarrow> False))"

definition requestBody :: "httpRequest \<Rightarrow> payload" where
  "requestBody rq = (case rq_Body rq of Some j \<Rightarrow> jws_payload j | None \<Rightarrow> RawRequest [])"

text \<open>
  A server that gives only so many open answers: \<open>\<mu>\<close> says how many there are still to come. Waiting does not
  make it give more.
\<close>

definition bounded_server :: "('w, 'b) env \<Rightarrow> ('w \<Rightarrow> nat) \<Rightarrow> bool" where
  "bounded_server env \<mu> \<longleftrightarrow>
     (\<forall>rq w r w'. env_do env rq w = (r, w') \<longrightarrow>
        \<mu> w' \<le> \<mu> w \<and> (\<forall>res. r = Inr res \<longrightarrow> openAnswer env (requestBody rq) res \<longrightarrow> \<mu> w' < \<mu> w)) \<and>
     (\<forall>w. \<mu> (snd (env_jitter env w)) \<le> \<mu> w) \<and> (\<forall>d w. \<mu> (snd (env_wait env d w)) \<le> \<mu> w)"

lemma ends_with_request:
  assumes "bounded_server env \<mu>"
  shows "ends_with (net \<mu>) B again (openAnswer env (requestBody rq)) (do_request env rq)"
proof -
  have "ends_with (net \<mu>) B again (\<lambda>r. \<exists>res. r = Inr res \<and> openAnswer env (requestBody rq) res) (onNet (env_do env rq))"
    using assms by (fastforce simp: ends_by_def onNet_def bounded_server_def split: prod.splits)
  then show ?thesis
    unfolding do_request_def
  proof (rule ends_with_ebnd)
    fix r :: "string + 'b httpResponse"
    assume "\<not> (\<exists>res. r = Inr res \<and> openAnswer env (requestBody rq) res)"
    then show "ends_with (net \<mu>) B again (openAnswer env (requestBody rq))
      (case r of Inl e \<Rightarrow> ebnd (gets (\<lambda>s. env_ctxDone env (cl_net s))) (\<lambda>done.
                           if done then fail ContextDone else fail (TransportError e))
                | Inr res \<Rightarrow> succeed res)"
      by (cases r) (auto simp: ends_by_def ebnd_cases gets_def fail_run succeed_run)
  qed (intro ends_rules)
qed

lemma ends_with_newRequest:
  assumes "bounded_server env \<mu>" "\<And>rq. newRequest env meth url ctype b = Inr rq \<Longrightarrow> requestBody rq = body"
  shows "ends_with (net \<mu>) B again (openAnswer env body) (ebnd (pure_result (newRequest env meth url ctype b)) (do_request env))"
proof (cases "newRequest env meth url ctype b")
  case (Inl e)
  then have "\<not> again e" by (auto simp: newRequest_def split: if_splits)
  with Inl show ?thesis by (simp add: pure_result_def ebnd_def fail_def ends_by_ret)
next
  case (Inr rq)
  with assms(2) ends_with_request [OF assms(1), of B rq] show ?thesis
    by (simp add: pure_result_def ebnd_def)
qed

lemma ends_with_acme_get: "bounded_server env \<mu> \<Longrightarrow> ends (net \<mu>) B (acme_get env url)"
  unfolding acme_get_def
  by (rule ends_by_ends, rule ends_with_newRequest) (auto simp: newRequest_def requestBody_def split: if_splits)

lemma ends_with_acme_head:
  "bounded_server env \<mu> \<Longrightarrow> ends_with (net \<mu>) B again (openAnswer env (RawRequest [])) (acme_head env url)"
  unfolding acme_head_def
  by (rule ends_with_newRequest) (auto simp: newRequest_def requestBody_def split: if_splits)

lemma ends_with_acme_post:
  "bounded_server env \<mu> \<Longrightarrow> ends_with (net \<mu>) B again (openAnswer env (jws_payload j)) (acme_post env url ctype j)"
  unfolding acme_post_def
  by (rule ends_with_newRequest) (auto simp: newRequest_def requestBody_def split: if_splits)

section \<open>The operations of the client\<close>

text \<open>
  The rules for a program with open answers: a request whose open answers are used up first, and then a
  program for the others.
\<close>

lemma ends_with_plain:
  assumes "ends v B m" "\<And>s e t. m s = (Inr (Inl e), t) \<Longrightarrow> \<not> E e" "\<And>x. ends_with v B E Q (f x)"
  shows "ends_with v B E Q (ebnd m f)"
proof (rule ends_with_ebnd [where P = "\<lambda>_. False"])
  show "ends_with v B E (\<lambda>_. False) m"
    using assms(1,2) unfolding ends_by_def by (auto split: sum.splits)
qed (use assms(3) in auto)

lemma theDir_no_error: "theDir f s \<noteq> (Inr (Inl e), t)" "gets g u \<noteq> (Inr (Inl e), u')"
  by (auto simp: theDir_def gets_def split: option.splits)

lemma badNonce_open:
  "rs_StatusCode res \<noteq> 200 \<Longrightarrow> \<not> openAnswer env body res \<Longrightarrow> err_Type (responseError env res) \<noteq> badNonce"
  by (auto simp: openAnswer_def openError_def)

lemma openError_again:
  "rs_StatusCode res \<noteq> 200 \<Longrightarrow> \<not> openAnswer env body res \<Longrightarrow> \<not> again (ServerError (responseError env res))"
  by (auto simp: openAnswer_def openError_def)

lemma ends_with_fetchNonce:
  assumes "bounded_server env \<mu>"
  shows "ends_with (net \<mu>) B again (\<lambda>_. False) (fetchNonce env)"
  unfolding fetchNonce_def Let_def
proof (rule ends_with_plain, rule ends_local)
  fix url
  show "ends_with (net \<mu>) B again (\<lambda>_. False)
    (ebnd (acme_head env url) (\<lambda>resp.
       if nonceFromHeader (rs_Header resp) = []
       then (if rs_StatusCode resp > 299 then fail (ServerError (responseError env resp)) else fail NonceNotFound)
       else succeed (nonceFromHeader (rs_Header resp))))"
    by (rule ends_with_ebnd [OF ends_with_acme_head [OF assms]])
      (auto intro!: ends_rules ends_with_results simp: openError_again)
qed (simp add: theDir_no_error)

lemma ends_with_popNonce:
  assumes "bounded_server env \<mu>"
  shows "ends_with (net \<mu>) B again (\<lambda>_. False) (popNonce env)"
  using ends_with_fetchNonce [OF assms, of B] unfolding ends_by_def popNonce_def
  by (auto simp: Let_def split: if_splits)

lemma ends_with_postJWS:
  assumes "bounded_server env \<mu>"
  shows "ends_with (net \<mu>) B again (openAnswer env body) (postJWS env key accountURL url body)"
  unfolding postJWS_def
proof (rule ends_with_ebnd [OF ends_with_popNonce [OF assms]], simp)
  fix nonce
  have add: "ends_with (net \<mu>) B again (openAnswer env body)
      (ebnd (acme_post env url ''application/jose+json'' j) (\<lambda>res. ethn (addNonce (rs_Header res)) (succeed res)))"
    if "jws_payload j = body" for j
  proof (rule ends_with_ebnd)
    show "ends_with (net \<mu>) B again (openAnswer env body) (acme_post env url ''application/jose+json'' j)"
      using ends_with_acme_post [OF assms, of B j] that by simp
  next
    fix res assume "\<not> openAnswer env body res"
    then show "ends_with (net \<mu>) B again (openAnswer env body) (ethn (addNonce (rs_Header res)) (succeed res))"
      unfolding ethn_def
      by (intro ends_with_plain ends_rules ends_with_results)
        (auto simp: addNonce_def Let_def change_def succeed_run split: if_splits)
  qed (intro ends_rules)
  show "ends_with (net \<mu>) B again (openAnswer env body)
    (ebnd (pure_result (jwsEncodeJSON body key accountURL url nonce)) (\<lambda>b.
     ebnd (acme_post env url ''application/jose+json'' b) (\<lambda>res. ethn (addNonce (rs_Header res)) (succeed res))))"
    by (cases "jwsHasher key")
      (auto simp: jwsEncodeJSON_def pure_result_def ebnd_def [of "ret _"] fail_def ends_by_ret intro!: add)
qed

lemma ends_sleep [ends_rules]:
  assumes "bounded_server env \<mu>"
  shows "ends (net \<mu>) B (timeSleep env count t)" "ends (net \<mu>) B (sleepRetry env count ra)"
proof -
  have "ends (net \<mu>) B (onNet (env_jitter env))" "ends (net \<mu>) B (onNet (env_wait env d))" for d
    using assms unfolding bounded_server_def by (auto simp: ends_by_def onNet_def split: prod.splits) (metis snd_conv)+
  then show t: "ends (net \<mu>) B (timeSleep env count t)" for t
    unfolding timeSleep_def by (intro ends_rules)
  show "ends (net \<mu>) B (sleepRetry env count ra)"
    unfolding sleepRetry_def by (intro ends_rules t)
qed

lemma ends_with_retryPostJWS:
  assumes "bounded_server env \<mu>"
  shows "B < fuel \<Longrightarrow> ends_with (net \<mu>) B again (openAnswer env body) (retryPostJWS env fuel count key accountURL url body)"
proof (induction fuel arbitrary: B count)
  case (Suc fuel)
  have next_round: "ends (net \<mu>) (B - Suc 0) (retryPostJWS env fuel (count + 1) key accountURL url body)" if "0 < B"
    by (rule ends_by_ends, rule Suc.IH) (use Suc.prems that in simp)
  show ?case
    unfolding retryPostJWS.simps Let_def
    by (rule ends_with_ebnd [OF ends_with_postJWS [OF assms]])
      (auto intro!: ends_rules next_round [simplified] assms ends_with_results simp: openError_again badNonce_open)
qed simp

lemma ends_with_cacheAccountURL:
  assumes "bounded_server env \<mu>" "B < fuel"
  shows "ends_with (net \<mu>) B again (\<lambda>_. False) (cacheAccountURL env fuel)"
proof -
  let ?body = "RawRequest (''{'' @ quoted ''onlyReturnExisting'' @ '':true}'')"
  have located: "ends_with (net \<mu>) B again (\<lambda>_. False)
      (ebnd (theDir NewAccountURL) (\<lambda>url. ebnd (pure_result (resolveLocation env url h)) (\<lambda>l.
         ethn (change (\<lambda>s. s\<lparr>cl_accountURL := l\<rparr>)) (succeed l))))" for h
    unfolding ethn_def
    by (intro ends_with_plain ends_rules ends_with_results)
      (auto simp: theDir_no_error pure_result_def ret_def change_def resolveLocation_def split: option.splits)
  have asked: "ends_with (net \<mu>) B again (\<lambda>_. False)
      (ebnd (postWithJWSKey env fuel key url ?body) (\<lambda>res.
         if rs_StatusCode res \<noteq> 200 then fail (ServerError (responseError env res))
         else ebnd (theDir NewAccountURL) (\<lambda>url. ebnd (pure_result (resolveLocation env url (rs_Header res))) (\<lambda>l.
           ethn (change (\<lambda>s. s\<lparr>cl_accountURL := l\<rparr>)) (succeed l)))))" for key url
    unfolding postWithJWSKey_def
    by (rule ends_with_ebnd [OF ends_with_retryPostJWS [OF assms]])
      (auto intro!: ends_rules located ends_with_results simp: openError_again)
  show ?thesis
    unfolding cacheAccountURL_def
  proof (rule ends_with_plain, rule ends_local(2), simp add: theDir_no_error)
    fix a :: string
    show "ends_with (net \<mu>) B again (\<lambda>_. False)
      (if a \<noteq> [] then succeed a
       else ebnd (theDir NewAccountURL) (\<lambda>url. ebnd (postWithJWSKey env fuel (env_key env) url ?body) (\<lambda>res.
         if rs_StatusCode res \<noteq> 200 then fail (ServerError (responseError env res))
         else ebnd (theDir NewAccountURL) (\<lambda>url. ebnd (pure_result (resolveLocation env url (rs_Header res))) (\<lambda>l.
           ethn (change (\<lambda>s. s\<lparr>cl_accountURL := l\<rparr>)) (succeed l))))))"
      by (cases "a = []"; simp only: simp_thms if_True if_False)
        (rule ends_with_plain [OF ends_local(1) _ asked] ends_with_results(1); simp add: theDir_no_error)+
  qed
qed

lemma ends_with_postWithJWSAccount:
  assumes "bounded_server env \<mu>" "B < fuel"
  shows "ends_with (net \<mu>) B again (openAnswer env body) (postWithJWSAccount env fuel url body)"
  unfolding postWithJWSAccount_def
  by (rule ends_with_ebnd [OF ends_with_cacheAccountURL [OF assms]]) (simp_all add: ends_with_retryPostJWS assms)

text \<open>An order that is still being processed took an open answer.\<close>

lemma ends_with_GetOrder:
  assumes "bounded_server env \<mu>" "B < fuel"
  shows "ends_with (net \<mu>) B again (\<lambda>ord. ord_Status ord = StatusProcessing) (GetOrder env fuel url)"
  unfolding GetOrder_def
proof (rule ends_with_ebnd [OF ends_with_postWithJWSAccount [OF assms]])
  fix res :: "'b httpResponse" assume res: "\<not> openAnswer env NoPayload res"
  then have "wo_Status v \<noteq> StatusProcessing" if "dec_order env (rs_Body res) = Some v" for v
    using that by (auto simp: openAnswer_def)
  with res show "ends_with (net \<mu>) B again (\<lambda>ord. ord_Status ord = StatusProcessing)
      (if rs_StatusCode res \<noteq> 200 then fail (ServerError (responseError env res))
       else case dec_order env (rs_Body res) of
              None \<Rightarrow> fail (InvalidResponse ''order'')
            | Some v \<Rightarrow> orderOf env v url (Retry_After (rs_Header res)))"
    by (auto simp: openError_again orderOf_def order_of_def gets_def ends_by_def fail_run split: option.split)
qed (auto simp: orderOf_def intro!: ends_rules)

lemma ends_WaitOrder:
  assumes "bounded_server env \<mu>"
  shows "B + 2 \<le> fuel \<Longrightarrow> ends (net \<mu>) B (WaitOrder env fuel count url)"
proof (induction fuel arbitrary: B count)
  case (Suc fuel)
  have next_round: "ends (net \<mu>) (B - Suc 0) (WaitOrder env fuel (Suc count) url)" if "0 < B"
    by (rule Suc.IH) (use Suc.prems that in simp)
  have "B < fuel" using Suc.prems by simp
  from ends_with_GetOrder [OF assms this] show ?case
    unfolding WaitOrder.simps
    by (rule ends_by_bnd)
      (auto simp: again_def intro!: ends_rules assms next_round split: sum.splits option.splits)
qed simp

lemma ends_WaitAuthorization:
  assumes "bounded_server env \<mu>"
  shows "B + 2 \<le> fuel \<Longrightarrow> ends (net \<mu>) B (WaitAuthorization env fuel count url)"
proof (induction fuel arbitrary: B count)
  case (Suc fuel)
  have next_round: "ends (net \<mu>) (B - Suc 0) (WaitAuthorization env fuel (Suc count) url)" if "0 < B"
    by (rule Suc.IH) (use Suc.prems that in simp)
  have "B < fuel" using Suc.prems by simp
  from ends_with_postWithJWSAccount [OF assms this, where body = NoPayload] show ?case
    unfolding WaitAuthorization.simps Let_def
    by (rule ends_ebnd_split)
      (auto simp: openAnswer_def intro!: ends_rules assms next_round split: option.splits)
qed simp

text \<open>The operations that a renewal calls.\<close>

lemma ends_post [ends_rules]:
  assumes "bounded_server env \<mu>" "B + 2 \<le> fuel"
  shows "ends (net \<mu>) B (postWithJWSAccount env fuel url body)"
    "ends (net \<mu>) B (retryPostJWS env fuel count key accountURL url body)"
  by (rule ends_by_ends, rule ends_with_postWithJWSAccount ends_with_retryPostJWS; use assms in simp)+

lemma ends_Discover [ends_rules]: "bounded_server env \<mu> \<Longrightarrow> ends (net \<mu>) B (Discover env)"
  unfolding Discover_def by (intro ends_rules ends_with_acme_get) simp_all

lemma ends_client_ops:
  assumes "bounded_server env \<mu>" "B + 2 \<le> fuel"
  shows "ends (net \<mu>) B (CreateAccount env fuel a)" "ends (net \<mu>) B (CreateOrder env fuel ord)"
    "ends (net \<mu>) B (GetAuthorization env fuel url)" "ends (net \<mu>) B (AcceptChallenge env fuel chal)"
    "ends (net \<mu>) B (FinalizeOrder env fuel url csr)" "ends (net \<mu>) B (GetCertificate env fuel url)"
proof -
  note ops = ends_rules assms ends_WaitOrder [OF assms]
  show cert: "ends (net \<mu>) B (GetCertificate env fuel url)" for url
    unfolding GetCertificate_def by (intro ops)
  show "ends (net \<mu>) B (CreateAccount env fuel a)"
    unfolding CreateAccount_def doAccount_def doAccountOnce_def doAccountResult_def by (intro ops) simp_all
  show "ends (net \<mu>) B (CreateOrder env fuel ord)"
    unfolding CreateOrder_def orderOf_def by (intro ops)
  show "ends (net \<mu>) B (GetAuthorization env fuel url)"
    unfolding GetAuthorization_def by (intro ops)
  show "ends (net \<mu>) B (AcceptChallenge env fuel chal)"
    unfolding AcceptChallenge_def by (intro ops)
  show "ends (net \<mu>) B (FinalizeOrder env fuel url csr)"
    unfolding FinalizeOrder_def orderOf_def by (intro ops cert)
qed

section \<open>More fuel changes nothing\<close>

text \<open>\<open>extends m n\<close>: whenever \<open>m\<close> does not run out of fuel, \<open>n\<close> runs in the same way.\<close>

definition extends :: "('s, 'a) io \<Rightarrow> ('s, 'a) io \<Rightarrow> bool" where
  "extends m n \<longleftrightarrow> (\<forall>s. fst (m s) \<noteq> Inl NoReturn \<longrightarrow> n s = m s)"

named_theorems extends_rules \<open>introduction rules for programs with more fuel\<close>

lemma extendsD: "extends m n \<Longrightarrow> m s = (r, t) \<Longrightarrow> r \<noteq> Inl NoReturn \<Longrightarrow> n s = (r, t)"
  unfolding extends_def by (metis fst_conv)

lemma extends_NoReturn [extends_rules]: "extends (raise NoReturn) n"
  by (simp add: extends_def raise_def)

lemma extends_bnd [extends_rules]:
  assumes "extends m n" "\<And>x. extends (f x) (g x)"
  shows "extends (bnd m f) (bnd n g)"
  unfolding extends_def
proof (intro allI impI)
  fix s assume run: "fst (bnd m f s) \<noteq> Inl NoReturn"
  then have "fst (m s) \<noteq> Inl NoReturn" by (auto simp: bnd_def split: prod.splits sum.splits)
  with assms(1) have "n s = m s" by (simp add: extends_def)
  with run assms(2) show "bnd n g s = bnd m f s"
    by (auto simp: bnd_def extends_def split: prod.splits sum.splits)
qed

lemma extends_refl: "extends m m"
  by (simp add: extends_def)

lemma extends_ebnd [extends_rules]:
  "extends m n \<Longrightarrow> (\<And>x. extends (f x) (g x)) \<Longrightarrow> extends (ebnd m f) (ebnd n g)"
  unfolding ebnd_def by (auto intro!: extends_bnd extends_refl split: sum.split)

lemma extends_ethn [extends_rules]: "extends m n \<Longrightarrow> extends m' n' \<Longrightarrow> extends (ethn m m') (ethn n n')"
  unfolding ethn_def by (rule extends_ebnd)

lemma extends_if [extends_rules]:
  "extends m n \<Longrightarrow> extends m' n' \<Longrightarrow> extends (if b then m else m') (if b then n else n')"
  by simp

lemma extends_case_option [extends_rules]:
  "extends m n \<Longrightarrow> (\<And>x. extends (f x) (g x)) \<Longrightarrow>
   extends (case v of None \<Rightarrow> m | Some x \<Rightarrow> f x) (case v of None \<Rightarrow> n | Some x \<Rightarrow> g x)"
  by (cases v) simp_all

lemma extends_case_sum [extends_rules]:
  "(\<And>x. extends (f x) (g x)) \<Longrightarrow> (\<And>x. extends (f' x) (g' x)) \<Longrightarrow>
   extends (case v of Inl x \<Rightarrow> f x | Inr x \<Rightarrow> f' x) (case v of Inl x \<Rightarrow> g x | Inr x \<Rightarrow> g' x)"
  by (cases v) simp_all

lemma extends_retryPostJWS:
  "fuel \<le> fuel' \<Longrightarrow>
   extends (retryPostJWS env fuel count key accountURL url body) (retryPostJWS env fuel' count key accountURL url body)"
proof (induction fuel arbitrary: fuel' count)
  case (Suc fuel)
  then obtain k where k: "fuel' = Suc k" "fuel \<le> k" by (cases fuel') auto
  show ?case unfolding k(1) retryPostJWS.simps Let_def by (intro extends_rules Suc.IH k(2) extends_refl)
qed (simp add: extends_NoReturn)

lemma extends_postWithJWSAccount:
  "fuel \<le> fuel' \<Longrightarrow> extends (postWithJWSAccount env fuel url body) (postWithJWSAccount env fuel' url body)"
  unfolding postWithJWSAccount_def cacheAccountURL_def postWithJWSKey_def
  by (intro extends_rules extends_retryPostJWS) (rule extends_refl | assumption)+

lemmas extends_posts = extends_retryPostJWS extends_postWithJWSAccount

lemma extends_WaitOrder: "fuel \<le> fuel' \<Longrightarrow> extends (WaitOrder env fuel count url) (WaitOrder env fuel' count url)"
proof (induction fuel arbitrary: fuel' count)
  case (Suc fuel)
  then obtain k where k: "fuel' = Suc k" "fuel \<le> k" by (cases fuel') auto
  show ?case unfolding k(1) WaitOrder.simps GetOrder_def
    by (intro extends_rules extends_posts Suc.IH k(2); rule extends_refl)
qed (simp add: extends_NoReturn)

lemma extends_WaitAuthorization:
  "fuel \<le> fuel' \<Longrightarrow> extends (WaitAuthorization env fuel count url) (WaitAuthorization env fuel' count url)"
proof (induction fuel arbitrary: fuel' count)
  case (Suc fuel)
  then obtain k where k: "fuel' = Suc k" "fuel \<le> k" by (cases fuel') auto
  show ?case unfolding k(1) WaitAuthorization.simps Let_def
    by (intro extends_rules extends_posts Suc.IH k(2); rule extends_refl)
qed (simp add: extends_NoReturn)

lemma extends_client_ops:
  assumes "fuel \<le> fuel'"
  shows "extends (CreateAccount env fuel a) (CreateAccount env fuel' a)"
    "extends (CreateOrder env fuel ord) (CreateOrder env fuel' ord)"
    "extends (GetAuthorization env fuel url) (GetAuthorization env fuel' url)"
    "extends (AcceptChallenge env fuel chal) (AcceptChallenge env fuel' chal)"
    "extends (FinalizeOrder env fuel url csr) (FinalizeOrder env fuel' url csr)"
  unfolding CreateAccount_def doAccount_def doAccountOnce_def Let_def CreateOrder_def GetAuthorization_def
    AcceptChallenge_def FinalizeOrder_def GetCertificate_def
  by (intro extends_rules extends_posts [OF assms] extends_WaitOrder [OF assms]; rule extends_refl)+

section \<open>A renewal ends\<close>

abbreviation dnet :: "('w \<Rightarrow> nat) \<Rightarrow> dnsServer \<times> 'w client \<Rightarrow> nat" where
  "dnet \<mu> w \<equiv> \<mu> (cl_net (snd w))"

lemma ends_withDNS: "ends (net \<mu>) B m \<Longrightarrow> ends (dnet \<mu>) B (withDNS m)"
  by (fastforce simp: ends_by_def withDNS_def split: prod.splits sum.splits)

lemma extends_withDNS:
  assumes "extends m n"
  shows "extends (withDNS m) (withDNS n)"
  unfolding extends_def
proof (intro allI impI)
  fix w assume "fst (withDNS m w) \<noteq> Inl NoReturn"
  then have "fst (m (snd w)) \<noteq> Inl NoReturn" by (auto simp: withDNS_def split: prod.splits)
  with assms show "withDNS n w = withDNS m w" by (simp add: extends_def withDNS_def)
qed

lemma ends_dnsHandler: "ends (dnet \<mu>) B (handleFirst [dnsHandler] fqdn t)"
  by (auto simp: ends_by_def dnsHandler_def bnd_def ret_def)

lemma ends_renew:
  assumes "bounded_server env \<mu>" "B + 2 \<le> fuel"
  shows "ends (dnet \<mu>) B (renew (realClient env fuel sha256 newKey request) cfg [dnsHandler] fqdn)"
  unfolding renew_def renewOrder_def realClient_def acmeClient.simps
  by (intro ends_rules ends_withDNS ends_client_ops [OF assms] ends_WaitAuthorization [OF assms] ends_dnsHandler) simp

lemma extends_renew:
  assumes "fuel \<le> fuel'"
  shows "extends (renew (realClient env fuel sha256 newKey request) cfg handlers fqdn)
    (renew (realClient env fuel' sha256 newKey request) cfg handlers fqdn)"
  unfolding renew_def renewOrder_def realClient_def acmeClient.simps
  by (intro extends_rules extends_withDNS extends_client_ops [OF assms] extends_WaitAuthorization [OF assms];
      rule extends_refl)

text \<open>C14.
  A renewal ends: with a server that gives at most \<open>\<mu> w\<close> more answers that ask the client to try again, the renewal
  ends with an error, with a certificate that can be used, or with the panic on an order without
  authorizations, and its outcome is the same for every bound on its loops from \<open>\<mu> w + 2\<close> on: that many
  rounds are always enough.
\<close>

theorem renew_returns:
  assumes "bounded_server env \<mu>" "cl_inv False (snd w)"
  shows "\<exists>r w'. (\<forall>fuel \<ge> \<mu> (cl_net (snd w)) + 2.
      renew (realClient env fuel sha256 newKey request) cfg [dnsHandler] fqdn w = (r, w')) \<and>
    ((\<exists>e. r = Inr (Inl e)) \<or> (\<exists>kp. r = Inr (Inr kp) \<and> usable kp) \<or> r = Inl IndexPanic)"
proof -
  define B where "B = \<mu> (cl_net (snd w))"
  let ?renew = "\<lambda>fuel. renew (realClient env fuel sha256 newKey request) cfg [dnsHandler] fqdn"
  obtain r w' where run: "?renew (B + 2) w = (r, w')" by (rule prod.exhaust)
  have ret: "r \<noteq> Inl NoReturn"
    by (rule ends_byD(1) [OF ends_renew [OF assms(1) order_refl] _ run]) (simp add: B_def)
  have "?renew fuel w = (r, w')" if "B + 2 \<le> fuel" for fuel
    by (rule extendsD [OF extends_renew [OF that] run ret])
  moreover have "usable kp" if "r = Inr (Inr kp)" for kp
    by (rule yieldsD [OF renew_usable run [unfolded that]])
  then have "(\<exists>e. r = Inr (Inl e)) \<or> (\<exists>kp. r = Inr (Inr kp) \<and> usable kp) \<or> r = Inl IndexPanic"
    using renew_panics [OF assms(2) run] ret by (cases r; cases "projr r") (auto simp: renewPanics_def)
  ultimately show ?thesis unfolding B_def by blast
qed

text \<open>A server that asks twice to come back for the authorization, and then gives a certificate.\<close>

definition slowAnswer :: "string \<Rightarrow> payload \<Rightarrow> nat \<Rightarrow> (string \<times> bool) httpResponse" where
  "slowAnswer url body w =
     \<lparr>rs_StatusCode = (if (url = ''/acct'' \<or> url = ''/order'') \<and> body \<noteq> NoPayload then 201 else 200), rs_Status = [],
      rs_Header = \<lparr>Replay_Nonce = ''n'', Location = [], Retry_After = []\<rparr>, rs_Body = (url, 0 < w)\<rparr>"

definition slowServer :: "(nat, string \<times> bool) env" where
  "slowServer =
     \<lparr>env_parseURL = (\<lambda>_. True),
      env_do = (\<lambda>rq w. (Inr (slowAnswer (rq_URL rq) (requestBody rq) w), if rq_URL rq = ''/authz'' then w - 1 else w)),
      env_ctxDone = (\<lambda>_. False), env_wait = (\<lambda>d w. (True, w)),
      env_now = (\<lambda>_. 0), env_jitter = (\<lambda>w. (Some 500, w)), env_pick = (\<lambda>_. 0), env_intWidth = 32,
      env_ParseTime = (\<lambda>_. None), env_resolve = (\<lambda>b l. Some b), env_key = RsaPublic 15 3,
      env_DirectoryURL = ''/dir'', env_UserAgent = [],
      dec_directory = (\<lambda>_. Some \<lparr>NewNonceURL = ''/nonce'', NewAccountURL = ''/acct'', NewOrderURL = ''/order'',
         NewAuthzURL = [], RevokeCertURL = [], KeyChangeURL = [], Terms = [], Website = [], CAA = [], ExternalAccountRequired = False\<rparr>),
      dec_order = (\<lambda>b. Some \<lparr>wo_Status = (if fst b = ''/fin'' then StatusValid else StatusReady), wo_Expires = None,
         wo_Identifiers = [], wo_NotBefore = None, wo_NotAfter = None, wo_Error = None, wo_Authorizations = [''/authz''],
         wo_Finalize = ''/fin'', wo_Certificate = ''/cert''\<rparr>),
      dec_authz = (\<lambda>b. if fst b \<noteq> ''/authz'' then None else Some \<lparr>wa_Status = (if snd b then StatusPending else StatusValid),
         wa_Challenges = [\<lparr>wc_URL = ''/chal'', wc_Type = ''dns-01'', wc_Token = ''tok'', wc_Status = [], wc_Validated = None, wc_Error = None\<rparr>],
         wa_Expires = None, wa_Identifier = \<lparr>id_Type = ''dns'', id_Value = ''bmc''\<rparr>, wa_Wildcard = False\<rparr>),
      dec_challenge = (\<lambda>u b. Some \<lparr>wc_URL = ''/chal'', wc_Type = ''dns-01'', wc_Token = ''tok'', wc_Status = [], wc_Validated = None, wc_Error = None\<rparr>),
      dec_account = (\<lambda>_. Some \<lparr>wac_Status = StatusValid, wac_Contact = [], wac_Orders = []\<rparr>),
      dec_error = (\<lambda>e _. (True, e)), env_text = (\<lambda>_. []),
      env_bytes = (\<lambda>_. Some [1, 2]), env_pem = (\<lambda>bs. if bs = [] then None else Some ((''CERTIFICATE'', bs), []))\<rparr>"

lemma slowServer_bounded: "bounded_server slowServer id"
  by (auto simp: bounded_server_def slowServer_def slowAnswer_def openAnswer_def openError_def again_def retriable_def responseError_def
      error_of_def badNonce_def status_defs)

definition slowRenew :: "nat \<Rightarrow> (panic + (certError + nat certificate)) \<times> dnsServer \<times> nat client" where
  "slowRenew fuel =
     renew (realClient slowServer fuel (\<lambda>_. [1, 2, 3]) (Inr 7) (\<lambda>_ _. Inr [1]))
       \<lparr>cfg_APICA_ok = True, cfg_Contact = ''mailto:a'', cfg_TermsAgreed = True\<rparr> [dnsHandler] ''bmc''
       (startDNS ''bmc'', \<lparr>cl_dir = None, cl_accountURL = [], cl_nonces = [], cl_net = 2\<rparr>)"

lemma slowServer_env [simp]:
  "env_parseURL slowServer u" "env_key slowServer = RsaPublic 15 3" "env_pick slowServer w = 0"
  "env_do slowServer rq w = (Inr (slowAnswer (rq_URL rq) (requestBody rq) w), if rq_URL rq = ''/authz'' then w - 1 else w)"
  by (simp_all add: slowServer_def)

abbreviation asked :: "string \<Rightarrow> nat client \<Rightarrow> nat client" where
  "asked url s \<equiv> s\<lparr>cl_net := if url = ''/authz'' then cl_net s - 1 else cl_net s\<rparr>"

lemma slowServer_request:
  "do_request slowServer rq s = (Inr (Inr (slowAnswer (rq_URL rq) (requestBody rq) (cl_net s))), asked (rq_URL rq) s)"
  by (simp add: do_request_def onNet_def ebnd_def bnd_def succeed_run)

lemma slowServer_send:
  "acme_get slowServer url s = (Inr (Inr (slowAnswer url (RawRequest []) (cl_net s))), asked url s)"
  "acme_head slowServer url s = (Inr (Inr (slowAnswer url (RawRequest []) (cl_net s))), asked url s)"
  "acme_post slowServer url ctype j s = (Inr (Inr (slowAnswer url (jws_payload j) (cl_net s))), asked url s)"
  by (simp_all add: acme_get_def acme_head_def acme_post_def newRequest_def pure_result_def ebnd_def bnd_def ret_def
      slowServer_request requestBody_def)

lemma slowServer_pop:
  assumes "cl_nonces s = [''n'']"
  shows "popNonce slowServer s = (Inr (Inr ''n''), s\<lparr>cl_nonces := []\<rparr>)"
  using assms by (simp add: popNonce_def)

lemma slowServer_retry:
  assumes "cl_nonces s = [''n'']" "0 < fuel"
  shows "retryPostJWS slowServer fuel count (RsaPublic 15 3) acct url body s =
    (Inr (Inr (slowAnswer url body (cl_net s))), asked url s)"
proof -
  have "postJWS slowServer (RsaPublic 15 3) acct url body s = (Inr (Inr (slowAnswer url body (cl_net s))), asked url s)"
    using assms
    by (simp add: postJWS_def ebnd_run slowServer_pop jwsEncodeJSON_def jwsHasher_def pure_result_def slowServer_send
        ethn_def addNonce_def nonceFromHeader_def slowAnswer_def change_def maxNonces_def ret_def Let_def succeed_run)
  with assms(2) show ?thesis by (cases fuel) (simp_all add: ebnd_run slowAnswer_def succeed_run)
qed

lemma slowServer_post:
  assumes "cl_nonces s = [''n'']" "cl_accountURL s \<noteq> []" "0 < fuel"
  shows "postWithJWSAccount slowServer fuel url body s = (Inr (Inr (slowAnswer url body (cl_net s))), asked url s)"
  using assms by (simp add: postWithJWSAccount_def cacheAccountURL_def gets_def ebnd_run slowServer_retry succeed_run)

lemma slowServer_sleep: "sleepRetry slowServer count ra s = (Inr (Inr ()), s)"
  by (simp add: sleepRetry_def timeSleep_def gets_def onNet_def slowServer_def ebnd_def bnd_def succeed_def ret_def Let_def)

definition slowDir :: Directory where
  "slowDir = the (dec_directory slowServer ([], False))"

abbreviation slowClient :: "nat \<Rightarrow> nat client" where
  "slowClient w \<equiv> \<lparr>cl_dir = Some slowDir, cl_accountURL = ''/acct'', cl_nonces = [''n''], cl_net = w\<rparr>"

lemma slow_CreateAccount:
  assumes "0 < fuel"
  shows "\<exists>a. CreateAccount slowServer fuel b \<lparr>cl_dir = None, cl_accountURL = [], cl_nonces = [], cl_net = w\<rparr> =
    (Inr (Inr a), slowClient w) \<and> AccountURL a = ''/acct''"
proof -
  have dir: "dec_directory slowServer x = Some slowDir" "NewAccountURL slowDir = ''/acct''"
    "env_DirectoryURL slowServer = ''/dir''" "env_resolve slowServer u l = Some u" for x u l
    by (simp_all add: slowServer_def slowDir_def)
  have acct: "\<exists>v. dec_account slowServer x = Some v" for x by (simp add: slowServer_def)
  have "Discover slowServer \<lparr>cl_dir = None, cl_accountURL = [], cl_nonces = [], cl_net = w\<rparr> =
    (Inr (Inr slowDir), (slowClient w)\<lparr>cl_accountURL := []\<rparr>)"
    by (simp add: Discover_def gets_def ebnd_run slowServer_send dir ethn_def addNonce_def nonceFromHeader_def change_def
        slowAnswer_def maxNonces_def Let_def succeed_run)
  moreover obtain v where "dec_account slowServer (''/acct'', 0 < w) = Some v" using acct by blast
  ultimately show ?thesis
    using assms
    by (simp add: CreateAccount_def ethn_def ebnd_run theDir_def dir doAccount_def doAccountOnce_def slowServer_retry
        slowAnswer_def succeed_run doAccountResult_def resolveLocation_def pure_result_def ret_def change_def Let_def)
qed

lemma slow_Discover: "Discover slowServer (slowClient w) = (Inr (Inr slowDir), slowClient w)"
  by (simp add: Discover_def gets_def ebnd_run succeed_run)

lemma slow_CreateOrder:
  assumes "0 < fuel"
  shows "\<exists>ord. CreateOrder slowServer fuel od (slowClient w) = (Inr (Inr ord), slowClient w) \<and>
    ord_Authorizations ord = [''/authz''] \<and> ord_FinalizeURL ord = ''/fin''"
proof -
  have dir: "NewOrderURL slowDir = ''/order''" "env_resolve slowServer u l = Some u" for u l
    by (simp_all add: slowServer_def slowDir_def)
  have "\<exists>v. dec_order slowServer (''/order'', b) = Some v \<and> wo_Status v = StatusReady \<and> wo_Authorizations v = [''/authz''] \<and>
    wo_Finalize v = ''/fin''" for b
    by (simp add: slowServer_def)
  then obtain v where v: "dec_order slowServer (''/order'', 0 < w) = Some v" "wo_Status v = StatusReady"
    "wo_Authorizations v = [''/authz'']" "wo_Finalize v = ''/fin''" by blast
  with assms show ?thesis
    by (simp add: CreateOrder_def ethn_def ebnd_run slow_Discover theDir_def dir slowServer_post slowAnswer_def
        resolveLocation_def pure_result_def ret_def orderOf_def gets_def order_of_def status_defs succeed_run)
qed

lemma slow_authz:
  "\<exists>z. dec_authz slowServer (''/authz'', b) = Some z \<and> wa_Status z = (if b then StatusPending else StatusValid) \<and>
    (\<exists>ch. wa_Challenges z = [ch] \<and> wc_Type ch = ''dns-01'' \<and> wc_URL ch = ''/chal'')"
  by (simp add: slowServer_def)

lemma slow_GetAuthorization:
  assumes "0 < fuel"
  shows "\<exists>z ch. GetAuthorization slowServer fuel ''/authz'' (slowClient w) = (Inr (Inr z), slowClient (w - 1)) \<and>
    findDns01 (auth_Challenges z) = Some ch \<and> ch_URL ch = ''/chal''"
proof -
  obtain z ch where "dec_authz slowServer (''/authz'', 0 < w) = Some z" "wa_Challenges z = [ch]" "wc_Type ch = ''dns-01''"
    "wc_URL ch = ''/chal''" using slow_authz by blast
  with assms show ?thesis
    by (simp add: GetAuthorization_def ebnd_run slowServer_post slowAnswer_def succeed_run findDns01_def authorization_of_def
        challenge_of_def)
qed

lemma slow_AcceptChallenge:
  assumes "0 < fuel" "ch_URL ch = ''/chal''"
  shows "\<exists>c. AcceptChallenge slowServer fuel ch (slowClient w) = (Inr (Inr c), slowClient w)"
proof -
  obtain v where "dec_challenge slowServer [] (ch_URL ch, 0 < w) = Some v" by (simp add: slowServer_def)
  with assms show ?thesis
    by (simp add: AcceptChallenge_def ethn_def ebnd_run slow_Discover slowServer_post slowAnswer_def succeed_run)
qed

lemma slow_WaitAuthorization:
  "w + 2 \<le> fuel \<Longrightarrow>
   \<exists>z. WaitAuthorization slowServer fuel count ''/authz'' (slowClient w) = (Inr (Inr z), slowClient 0)"
proof (induction w arbitrary: fuel count)
  case 0
  then obtain f where f: "fuel = Suc f" "0 < f" by (cases fuel) auto
  obtain z where "dec_authz slowServer (''/authz'', False) = Some z" "wa_Status z = StatusValid" using slow_authz [of False] by auto
  with f show ?case by (simp add: ebnd_run slowServer_post slowAnswer_def succeed_run)
next
  case (Suc w)
  then obtain f where f: "fuel = Suc f" "0 < f" "w + 2 \<le> f" by (cases fuel) auto
  obtain z where z: "dec_authz slowServer (''/authz'', True) = Some z" "wa_Status z = StatusPending" using slow_authz [of True] by auto
  from Suc.IH [OF f(3), of "Suc count"] f(1,2) z show ?case
    by (simp add: ebnd_run slowServer_post slowAnswer_def ethn_def slowServer_sleep) (simp add: status_defs)
qed

lemma slow_FinalizeOrder:
  assumes "0 < fuel"
  shows "FinalizeOrder slowServer fuel ''/fin'' csr (slowClient w) = (Inr (Inr [[1, 2]]), slowClient w)"
proof -
  have "\<exists>v. dec_order slowServer (''/fin'', b) = Some v \<and> wo_Status v = StatusValid \<and> wo_Certificate v = ''/cert''" for b
    by (simp add: slowServer_def)
  then obtain v where v: "dec_order slowServer (''/fin'', 0 < w) = Some v" "wo_Status v = StatusValid" "wo_Certificate v = ''/cert''"
    by blast
  have pem: "env_bytes slowServer b = Some [1, 2]" "env_pem slowServer = (\<lambda>bs. if bs = [] then None else Some ((''CERTIFICATE'', bs), []))"
    "env_resolve slowServer u l = Some u" for b u l
    by (simp_all add: slowServer_def)
  have "GetCertificate slowServer fuel ''/cert'' (slowClient w) = (Inr (Inr [[1, 2]]), slowClient w)"
    using assms
    by (simp add: GetCertificate_def ebnd_run slowServer_post slowAnswer_def pem maxChainSize_def maxChainLen_def
        pure_result_def ret_def chainLoop.simps)
  with v assms show ?thesis
    by (simp add: FinalizeOrder_def ethn_def ebnd_run slow_Discover slowServer_post slowAnswer_def resolveLocation_def pem
        pure_result_def ret_def orderOf_def gets_def order_of_def status_defs succeed_run)
qed

lemma slowRenew_run: "fst (slowRenew 4) = Inr (Inr \<lparr>Certificate = [[1, 2]], PrivateKey = Some 7\<rparr>)"
proof -
  let ?b = "\<lparr>AccountURL = [], ac_Status = [], Contact = [''mailto:a''], TermsAgreed = True, OrdersURL = []\<rparr>"
  obtain a where a: "CreateAccount slowServer 4 ?b \<lparr>cl_dir = None, cl_accountURL = [], cl_nonces = [], cl_net = 2\<rparr> =
      (Inr (Inr a), slowClient 2)" "AccountURL a = ''/acct''"
    using slow_CreateAccount [of 4 ?b 2] by auto
  obtain ord where o: "CreateOrder slowServer 4 (NewOrder [''bmc'']) (slowClient 2) = (Inr (Inr ord), slowClient 2)"
    "ord_Authorizations ord = [''/authz'']" "ord_FinalizeURL ord = ''/fin''"
    using slow_CreateOrder [of 4 "NewOrder [''bmc'']" 2] by auto
  obtain z ch where z: "GetAuthorization slowServer 4 ''/authz'' (slowClient 2) = (Inr (Inr z), slowClient 1)"
    "findDns01 (auth_Challenges z) = Some ch" "ch_URL ch = ''/chal''"
    using slow_GetAuthorization [of 4 2] by auto
  obtain c where c: "AcceptChallenge slowServer 4 ch (slowClient 1) = (Inr (Inr c), slowClient 1)"
    using slow_AcceptChallenge [of 4 ch 1] z(3) by auto
  obtain v where v: "WaitAuthorization slowServer 4 0 ''/authz'' (slowClient 1) = (Inr (Inr v), slowClient 0)"
    using slow_WaitAuthorization [of 1 4 0] by auto
  obtain t where t: "DNS01Record (\<lambda>_. [1, 2, 3]) (RsaPublic 15 3) (ch_Token ch) = Inr t"
    by (simp add: DNS01Record_def keyAuth_def JWKThumbprint_def jwkEncode_def)
  note f = slow_FinalizeOrder [of 4 "[1]" 0, simplified]
  show ?thesis
    by (simp add: slowRenew_def renew_def renewOrder_def realClient_def withDNS_def ebnd_run a o z c v f t dnsHandler_def
        pure_result_def ret_def bnd_def succeed_run del: One_nat_def)
qed

theorem renew_returns_witness:
  "\<forall>n. fst (slowRenew (n + 4)) = Inr (Inr \<lparr>Certificate = [[1, 2]], PrivateKey = Some 7\<rparr>)"
proof -
  let ?w = "(startDNS ''bmc'', \<lparr>cl_dir = None, cl_accountURL = [], cl_nonces = [], cl_net = 2 :: nat\<rparr>)"
  have "cl_inv False (snd ?w)" by (simp add: cl_inv_def)
  from renew_returns [OF slowServer_bounded this, of "\<lambda>_. [1, 2, 3]" "Inr (7 :: nat)" "\<lambda>_ _. Inr [1]"
      "\<lparr>cfg_APICA_ok = True, cfg_Contact = ''mailto:a'', cfg_TermsAgreed = True\<rparr>" "''bmc''"]
  obtain r w' where "\<forall>fuel \<ge> 4. slowRenew fuel = (r, w')" by (auto simp: slowRenew_def)
  then have "slowRenew (n + 4) = slowRenew 4" for n by simp
  with slowRenew_run show ?thesis by simp
qed

section \<open>A renewal that does not end\<close>

text \<open>
  The renewal has no deadline (its context is \<^verbatim>\<open>context.Background()\<close>): a server that says for ever that the
  authorization is pending is asked for ever.
\<close>

definition pendingServer :: "(unit, unit) env" where
  "pendingServer = noNetwork
     \<lparr>env_do := (\<lambda>rq w. (Inr \<lparr>rs_StatusCode = 200, rs_Status = [],
         rs_Header = \<lparr>Replay_Nonce = ''n'', Location = [], Retry_After = []\<rparr>, rs_Body = ()\<rparr>, w)),
      dec_authz := (\<lambda>b. Some \<lparr>wa_Status = StatusPending, wa_Challenges = [], wa_Expires = None,
         wa_Identifier = \<lparr>id_Type = ''dns'', id_Value = ''bmc''\<rparr>, wa_Wildcard = False\<rparr>)\<rparr>"

lemma pendingServer_post:
  assumes "cl_accountURL s \<noteq> []" "cl_nonces s = [''n'']"
  shows "\<exists>res. postWithJWSAccount pendingServer (Suc fuel) url NoPayload s = (Inr (Inr res), s) \<and> rs_StatusCode res = 200"
  using assms
  by (simp add: postWithJWSAccount_def cacheAccountURL_def gets_def postJWS_def popNonce_def pendingServer_def noNetwork_def
      jwsEncodeJSON_def jwsHasher_def pure_result_def acme_post_def newRequest_def do_request_def onNet_def addNonce_def
      nonceFromHeader_def change_def maxNonces_def ebnd_def bnd_def ret_def succeed_def ethn_def Let_def fail_def)

lemma pendingServer_sleep: "sleepRetry pendingServer count ra s = (Inr (Inr ()), s)"
  by (simp add: sleepRetry_def timeSleep_def gets_def onNet_def pendingServer_def noNetwork_def ebnd_def bnd_def succeed_def
      ret_def Let_def)

lemma pendingServer_decides: "\<exists>z. dec_authz pendingServer b = Some z \<and> wa_Status z = StatusPending"
  by (simp add: pendingServer_def)

lemma WaitAuthorization_pending:
  assumes "cl_accountURL s \<noteq> []" "cl_nonces s = [''n'']"
  shows "WaitAuthorization pendingServer fuel count url s = (Inl NoReturn, s)"
proof (induction fuel arbitrary: count)
  case (Suc fuel)
  show ?case
  proof (cases fuel)
    case 0
    with assms show ?thesis
      by (simp add: postWithJWSAccount_def cacheAccountURL_def gets_def raise_def ebnd_def bnd_def succeed_def ret_def)
  next
    case (Suc k)
    from pendingServer_post [OF assms] obtain res where
      "postWithJWSAccount pendingServer fuel url NoPayload s = (Inr (Inr res), s)" "rs_StatusCode res = 200"
      unfolding Suc by blast
    moreover from pendingServer_decides obtain z where
      "dec_authz pendingServer (rs_Body res) = Some z" "wa_Status z = StatusPending" by blast
    ultimately show ?thesis
      by (simp add: ebnd_run ethn_def pendingServer_sleep Suc.IH) (simp add: status_defs)
  qed
qed (simp add: raise_def)

end
