(* ===== verification/Ioctl.thy ===== *)
theory Ioctl
  imports Gpio_System Mtd
begin

text \<open>
  The system calls behind GPIO and flash: the numbers of the ioctls (\<^verbatim>\<open>pkg/bmc/gpio_linux.go\<close>,
  \<^verbatim>\<open>pkg/mtd/mtd.go\<close>), the structures in memory as the kernel sees them, and the functions of theory
  Gpio_System over a kernel that reads and writes that memory. The kernel copies as many bytes as
  the number of the request says, wherever the pointer leads.
\<close>

section \<open>Structures in memory\<close>

record gpiochip_info =
  chip_name :: "u8 list"
  chip_label :: "u8 list"
  chip_lines :: u32

record gpioline_info =
  line_offset :: u32
  line_flags :: u32
  line_name :: "u8 list"
  line_consumer :: "u8 list"

text \<open>The byte order of all targets of the build.\<close>

datatype byteOrder = LittleEndian | BigEndian

definition NativeEndian :: byteOrder where
  "NativeEndian = LittleEndian"

definition putUint32 :: "byteOrder \<Rightarrow> u32 \<Rightarrow> u8 list" where
  "putUint32 ord v = (case ord of LittleEndian \<Rightarrow> le32 v | BigEndian \<Rightarrow> be32 v)"

definition getUint32 :: "byteOrder \<Rightarrow> u8 list \<Rightarrow> u32" where
  "getUint32 ord b = of_le32 (case ord of LittleEndian \<Rightarrow> b | BigEndian \<Rightarrow> rev b)"

abbreviation mem32 :: "u32 \<Rightarrow> u8 list" where "mem32 \<equiv> putUint32 NativeEndian"

text \<open>The word at an offset, and the words of an array.\<close>

definition word_at :: "nat \<Rightarrow> u8 list \<Rightarrow> u32" where
  "word_at i b = getUint32 NativeEndian (take 4 (drop i b))"

definition words_at :: "nat \<Rightarrow> nat \<Rightarrow> u8 list \<Rightarrow> u32 list" where
  "words_at i n b = map (\<lambda>k. word_at (i + 4 * k) b) [0..<n]"

definition bytes_at :: "nat \<Rightarrow> nat \<Rightarrow> u8 list \<Rightarrow> u8 list" where
  "bytes_at i n b = take n (drop i b)"

definition enc_chip :: "gpiochip_info \<Rightarrow> u8 list" where
  "enc_chip c = chip_name c @ chip_label c @ mem32 (chip_lines c)"

definition dec_chip :: "u8 list \<Rightarrow> gpiochip_info" where
  "dec_chip b = \<lparr>chip_name = bytes_at 0 32 b, chip_label = bytes_at 32 32 b, chip_lines = word_at 64 b\<rparr>"

definition enc_line :: "gpioline_info \<Rightarrow> u8 list" where
  "enc_line l = mem32 (line_offset l) @ mem32 (line_flags l) @ line_name l @ line_consumer l"

definition dec_line :: "u8 list \<Rightarrow> gpioline_info" where
  "dec_line b =
     \<lparr>line_offset = word_at 0 b, line_flags = word_at 4 b, line_name = bytes_at 8 32 b, line_consumer = bytes_at 40 32 b\<rparr>"

definition enc_handle :: "gpiohandle_request \<Rightarrow> u8 list" where
  "enc_handle r =
     concat (map mem32 (lineoffsets r)) @ mem32 (req_flags r) @ default_values r @ consumer_label r @
     mem32 (req_lines r) @ mem32 (req_fd r)"

definition dec_handle :: "u8 list \<Rightarrow> gpiohandle_request" where
  "dec_handle b =
     \<lparr>lineoffsets = words_at 0 64 b, req_flags = word_at 256 b, default_values = bytes_at 260 64 b,
      consumer_label = bytes_at 324 32 b, req_lines = word_at 356 b, req_fd = word_at 360 b\<rparr>"

definition enc_event :: "gpioevent_request \<Rightarrow> u8 list" where
  "enc_event r =
     mem32 (lineoffset r) @ mem32 (handleflags r) @ mem32 (eventflags r) @ ev_label r @ mem32 (ev_fd r)"

definition dec_event :: "u8 list \<Rightarrow> gpioevent_request" where
  "dec_event b =
     \<lparr>lineoffset = word_at 0 b, handleflags = word_at 4 b, eventflags = word_at 8 b, ev_label = bytes_at 12 32 b,
      ev_fd = word_at 44 b\<rparr>"

text \<open>The arrays have the lengths of their types.\<close>

definition wf_chip :: "gpiochip_info \<Rightarrow> bool" where
  "wf_chip c \<longleftrightarrow> length (chip_name c) = 32 \<and> length (chip_label c) = 32"

definition wf_line :: "gpioline_info \<Rightarrow> bool" where
  "wf_line l \<longleftrightarrow> length (line_name l) = 32 \<and> length (line_consumer l) = 32"

definition wf_handle :: "gpiohandle_request \<Rightarrow> bool" where
  "wf_handle r \<longleftrightarrow> length (lineoffsets r) = 64 \<and> length (default_values r) = 64 \<and> length (consumer_label r) = 32"

definition wf_event :: "gpioevent_request \<Rightarrow> bool" where
  "wf_event r \<longleftrightarrow> length (ev_label r) = 32"

definition wf_data :: "gpiohandle_data \<Rightarrow> bool" where
  "wf_data d \<longleftrightarrow> length (gpio_values d) = 64"

lemma length_mem32 [simp]: "length (mem32 v) = 4"
  by (simp add: putUint32_def NativeEndian_def)

lemma mem32_word [simp]: "getUint32 NativeEndian (mem32 v) = v"
  by (simp add: putUint32_def getUint32_def NativeEndian_def)

lemma length_words [simp]: "length (concat (map mem32 ws)) = 4 * length ws"
  by (induction ws) simp_all

lemma words_of_concat: "k < length ws \<Longrightarrow> take 4 (drop (4 * k) (concat (map mem32 ws) @ rest)) = mem32 (ws ! k)"
proof (induction ws arbitrary: k)
  case (Cons w ws)
  then show ?case by (cases k) simp_all
qed simp

lemma words_at_concat: "length ws = n \<Longrightarrow> words_at 0 n (concat (map mem32 ws) @ rest) = ws"
  by (rule nth_equalityI) (simp_all add: words_at_def word_at_def words_of_concat del: take_append drop_append)

lemmas struct_defs = enc_chip_def dec_chip_def enc_line_def dec_line_def enc_handle_def dec_handle_def
  enc_event_def dec_event_def wf_chip_def wf_line_def wf_handle_def wf_event_def wf_data_def word_at_def bytes_at_def

section \<open>The requests\<close>

definition GPIO_GET_CHIPINFO_IOCTL :: u32 where "GPIO_GET_CHIPINFO_IOCTL = 0x8044b401"
definition GPIO_GET_LINEINFO_IOCTL :: u32 where "GPIO_GET_LINEINFO_IOCTL = 0xc048b402"
definition GPIO_GET_LINEHANDLE_IOCTL :: u32 where "GPIO_GET_LINEHANDLE_IOCTL = 0xc16cb403"
definition GPIO_GET_LINEEVENT_IOCTL :: u32 where "GPIO_GET_LINEEVENT_IOCTL = 0xc030b404"
definition GPIOHANDLE_SET_LINE_VALUES_IOCTL :: u32 where "GPIOHANDLE_SET_LINE_VALUES_IOCTL = 0xc040b409"
definition GPIOHANDLE_GET_LINE_VALUES_IOCTL :: u32 where "GPIOHANDLE_GET_LINE_VALUES_IOCTL = 0xc040b408"
definition GPIOHANDLE_REQUEST_ACTIVE_LOW :: u32 where "GPIOHANDLE_REQUEST_ACTIVE_LOW = 4"
definition GPIOHANDLE_REQUEST_OPEN_DRAIN :: u32 where "GPIOHANDLE_REQUEST_OPEN_DRAIN = 8"
definition GPIOHANDLE_REQUEST_OPEN_SOURCE :: u32 where "GPIOHANDLE_REQUEST_OPEN_SOURCE = 16"

lemmas ioctl_numbers = GPIO_GET_CHIPINFO_IOCTL_def GPIO_GET_LINEINFO_IOCTL_def GPIO_GET_LINEHANDLE_IOCTL_def
  GPIO_GET_LINEEVENT_IOCTL_def GPIOHANDLE_SET_LINE_VALUES_IOCTL_def GPIOHANDLE_GET_LINE_VALUES_IOCTL_def
  MEMGETINFO_def MEMERASE_def MEMUNLOCK_def

text \<open>How Linux reads a number: direction, size, type and number of the request.\<close>

definition IOC_DIR :: "u32 \<Rightarrow> nat" where "IOC_DIR req = unat (drop_bit 30 req)"
definition IOC_SIZE :: "u32 \<Rightarrow> nat" where "IOC_SIZE req = unat (drop_bit 16 req AND 0x3fff)"
definition IOC_TYPE :: "u32 \<Rightarrow> nat" where "IOC_TYPE req = unat (drop_bit 8 req AND 0xff)"
definition IOC_NR :: "u32 \<Rightarrow> nat" where "IOC_NR req = unat (req AND 0xff)"

lemmas ioc_defs = IOC_DIR_def IOC_SIZE_def IOC_TYPE_def IOC_NR_def

lemma ioctl_sizes [simp]:
  "IOC_SIZE GPIO_GET_CHIPINFO_IOCTL = 68" "IOC_SIZE GPIO_GET_LINEINFO_IOCTL = 72"
  "IOC_SIZE GPIO_GET_LINEHANDLE_IOCTL = 364" "IOC_SIZE GPIO_GET_LINEEVENT_IOCTL = 48"
  "IOC_SIZE GPIOHANDLE_SET_LINE_VALUES_IOCTL = 64" "IOC_SIZE GPIOHANDLE_GET_LINE_VALUES_IOCTL = 64"
  "IOC_SIZE MEMGETINFO = 32" "IOC_SIZE MEMERASE = 8" "IOC_SIZE MEMUNLOCK = 8"
  by (simp_all add: IOC_SIZE_def ioctl_numbers; code_simp)+

text \<open>
  The system call on the memory that the pointer leads to. The kernel gets the bytes that the number says
  and may change them; if there are fewer, it reads and writes past the structure.
\<close>

definition sysIoctl :: "(u32 \<Rightarrow> u8 list \<Rightarrow> int + u8 list) \<Rightarrow> u32 \<Rightarrow> u8 list \<Rightarrow> panic + (int + u8 list)" where
  "sysIoctl linux req mem =
     (let n = IOC_SIZE req in
      if length mem < n then Inl SegFault
      else case linux req (take n mem) of
             Inl errno \<Rightarrow> Inr (Inl errno)
           | Inr b \<Rightarrow> Inr (Inr (b @ drop n mem)))"

definition linux_requestLineHandle ::
  "(u32 \<Rightarrow> u8 list \<Rightarrow> int + u8 list) \<Rightarrow> u32 list \<Rightarrow> bool list \<Rightarrow> panic + (gpioErr + u32)" where
  "linux_requestLineHandle linux lines out =
     (case lineHandleRequest lines out of
        Inl e \<Rightarrow> Inl e
      | Inr rinfo \<Rightarrow>
     (case sysIoctl linux GPIO_GET_LINEHANDLE_IOCTL (enc_handle rinfo) of
        Inl e \<Rightarrow> Inl e
      | Inr (Inl errno) \<Rightarrow> Inr (Inl (Errno ''GPIO_GET_LINEHANDLE_IOCTL'' errno))
      | Inr (Inr b) \<Rightarrow> Inr (Inr (req_fd (dec_handle b)))))"

definition linux_getLineValues :: "(u32 \<Rightarrow> u8 list \<Rightarrow> int + u8 list) \<Rightarrow> panic + (gpioErr + bool list)" where
  "linux_getLineValues linux =
     (case sysIoctl linux GPIOHANDLE_GET_LINE_VALUES_IOCTL (replicate 64 0) of
        Inl e \<Rightarrow> Inl e
      | Inr (Inl errno) \<Rightarrow> Inr (Inl (Errno ''GPIOHANDLE_GET_LINE_VALUES_IOCTL'' errno))
      | Inr (Inr b) \<Rightarrow> Inr (Inr (map (\<lambda>v. v \<noteq> 0) b)))"

definition linux_setLineValues :: "(u32 \<Rightarrow> u8 list \<Rightarrow> int + u8 list) \<Rightarrow> bool list \<Rightarrow> panic + gpioErr option" where
  "linux_setLineValues linux out =
     (case fillTrue 0 (replicate 64 0) out of
        Inl e \<Rightarrow> Inl e
      | Inr vals \<Rightarrow>
     (case sysIoctl linux GPIOHANDLE_SET_LINE_VALUES_IOCTL vals of
        Inl e \<Rightarrow> Inl e
      | Inr (Inl errno) \<Rightarrow> Inr (Some (Errno ''GPIOHANDLE_SET_LINE_VALUES_IOCTL'' errno))
      | Inr (Inr _) \<Rightarrow> Inr None))"

definition gpioLnxLine_setValues :: "(u32 \<Rightarrow> u8 list \<Rightarrow> int + u8 list) \<Rightarrow> bool list \<Rightarrow> panic + gpioErr option" where
  "gpioLnxLine_setValues linux out = linux_setLineValues linux out"

definition linux_getLineEvent :: "(u32 \<Rightarrow> u8 list \<Rightarrow> int + u8 list) \<Rightarrow> u32 \<Rightarrow> panic + (gpioErr + u32)" where
  "linux_getLineEvent linux line =
     (case sysIoctl linux GPIO_GET_LINEEVENT_IOCTL (enc_event (lineEventRequest line)) of
        Inl e \<Rightarrow> Inl e
      | Inr (Inl errno) \<Rightarrow> Inr (Inl (Errno ''GPIO_GET_LINEEVENT_IOCTL'' errno))
      | Inr (Inr b) \<Rightarrow> Inr (Inr (ev_fd (dec_event b))))"

section \<open>The kernel sees the structures\<close>

text \<open>
  A structure and its request: the structure is as long as the number says and can be read back. Then a
  call never leaves the structure, and it is a call of a kernel that works on structures.
\<close>

locale ioctl_struct =
  fixes wf :: "'s \<Rightarrow> bool" and enc :: "'s \<Rightarrow> u8 list" and dec :: "u8 list \<Rightarrow> 's" and req :: u32
  assumes length_enc: "wf x \<Longrightarrow> length (enc x) = IOC_SIZE req"
    and dec_enc: "wf x \<Longrightarrow> dec (enc x) = x"
begin

lemma sysIoctl_inside: "wf x \<Longrightarrow> sysIoctl linux req (enc x) = Inr (linux req (enc x))"
  by (simp add: sysIoctl_def Let_def length_enc split: sum.split)

text \<open>A kernel that works on structures, as the memory shows it.\<close>

lemma sysIoctl_struct:
  assumes "wf x" "\<And>b. linux req b = map_sum id enc (K (dec b))" "\<And>y. K x = Inr y \<Longrightarrow> wf y"
  shows "map_sum id (map_sum id dec) (sysIoctl linux req (enc x)) = Inr (K x)"
  using assms by (cases "K x") (simp_all add: sysIoctl_inside dec_enc)

end

interpretation chip: ioctl_struct wf_chip enc_chip dec_chip GPIO_GET_CHIPINFO_IOCTL
  by unfold_locales (simp_all add: struct_defs)

interpretation line: ioctl_struct wf_line enc_line dec_line GPIO_GET_LINEINFO_IOCTL
  by unfold_locales (simp_all add: struct_defs)

interpretation handle: ioctl_struct wf_handle enc_handle dec_handle GPIO_GET_LINEHANDLE_IOCTL
  by unfold_locales (simp_all add: struct_defs words_at_concat)

interpretation event: ioctl_struct wf_event enc_event dec_event GPIO_GET_LINEEVENT_IOCTL
  by unfold_locales (simp_all add: struct_defs)

interpretation setv: ioctl_struct wf_data gpio_values "\<lambda>b. \<lparr>gpio_values = b\<rparr>" GPIOHANDLE_SET_LINE_VALUES_IOCTL
  by unfold_locales (simp_all add: wf_data_def)

interpretation getv: ioctl_struct wf_data gpio_values "\<lambda>b. \<lparr>gpio_values = b\<rparr>" GPIOHANDLE_GET_LINE_VALUES_IOCTL
  by unfold_locales (simp_all add: wf_data_def)

lemma fillTrue_length: "fillTrue i arr vs = Inr xs \<Longrightarrow> length xs = length arr"
  by (induction i arr vs arbitrary: xs rule: fillTrue.induct) (auto split: if_splits)

lemma lineHandleRequest_wf: "lineHandleRequest lines out = Inr r \<Longrightarrow> wf_handle r"
  by (auto simp: lineHandleRequest_def wf_handle_def fillArray_def ubmc_label_def split: sum.splits if_splits
      dest: fillTrue_length)

lemma lineEventRequest_wf: "wf_event (lineEventRequest line)"
  by (simp add: lineEventRequest_def wf_event_def)

text \<open>C15.
  GPIO over the kernel's memory: for every kernel, the functions that make the system calls do what the
  functions on structures do with the kernel seen through the structures. No call lets the kernel read
  or write past a structure, whatever lines and values are asked for, and the kernel gets every byte.
\<close>

theorem gpio_over_linux:
  "linux_requestLineHandle linux lines out =
     requestLineHandle (\<lambda>r. map_sum id (\<lambda>b. req_fd (dec_handle b)) (linux GPIO_GET_LINEHANDLE_IOCTL (enc_handle r))) lines out \<and>
   linux_getLineEvent linux l =
     Inr (getLineEvent (\<lambda>r. map_sum id (\<lambda>b. ev_fd (dec_event b)) (linux GPIO_GET_LINEEVENT_IOCTL (enc_event r))) l) \<and>
   linux_getLineValues linux =
     Inr (getLineValues (\<lambda>d. map_sum id (\<lambda>b. \<lparr>gpio_values = b\<rparr>) (linux GPIOHANDLE_GET_LINE_VALUES_IOCTL (gpio_values d)))) \<and>
   gpioLnxLine_setValues linux out =
     setLineValues (\<lambda>d. case linux GPIOHANDLE_SET_LINE_VALUES_IOCTL (gpio_values d) of Inl e \<Rightarrow> Some e | Inr _ \<Rightarrow> None) out"
proof (intro conjI)
  show "linux_requestLineHandle linux lines out =
     requestLineHandle (\<lambda>r. map_sum id (\<lambda>b. req_fd (dec_handle b)) (linux GPIO_GET_LINEHANDLE_IOCTL (enc_handle r))) lines out"
    by (simp add: linux_requestLineHandle_def requestLineHandle_def handle.sysIoctl_inside lineHandleRequest_wf split: sum.split)
  show "linux_getLineEvent linux l =
     Inr (getLineEvent (\<lambda>r. map_sum id (\<lambda>b. ev_fd (dec_event b)) (linux GPIO_GET_LINEEVENT_IOCTL (enc_event r))) l)"
    by (simp add: linux_getLineEvent_def getLineEvent_def event.sysIoctl_inside lineEventRequest_wf split: sum.split)
  show "linux_getLineValues linux =
     Inr (getLineValues (\<lambda>d. map_sum id (\<lambda>b. \<lparr>gpio_values = b\<rparr>) (linux GPIOHANDLE_GET_LINE_VALUES_IOCTL (gpio_values d))))"
    using getv.sysIoctl_inside [of "\<lparr>gpio_values = replicate 64 0\<rparr>"]
    by (simp add: linux_getLineValues_def getLineValues_def wf_data_def split: sum.split)
  show "gpioLnxLine_setValues linux out =
     setLineValues (\<lambda>d. case linux GPIOHANDLE_SET_LINE_VALUES_IOCTL (gpio_values d) of Inl e \<Rightarrow> Some e | Inr _ \<Rightarrow> None) out"
  proof (cases "fillTrue 0 (replicate 64 0) out")
    case (Inr vals)
    then have "wf_data \<lparr>gpio_values = vals\<rparr>" by (auto simp: wf_data_def dest: fillTrue_length)
    from setv.sysIoctl_inside [OF this, of linux] Inr show ?thesis
      by (simp add: gpioLnxLine_setValues_def linux_setLineValues_def setLineValues_def split: sum.split)
  qed (simp add: gpioLnxLine_setValues_def linux_setLineValues_def setLineValues_def)
qed



end
