(* ===== verification/Uinit.thy ===== *)
theory Uinit
  imports Bmc_System
begin

text \<open>
  The main programs of the platforms (\<^verbatim>\<open>platform/*/cmd/uinit/main.go\<close>), and the programs that the integration tests run in
  their place (\<^verbatim>\<open>integration/testcmd/*/uinit/test.go\<close>) with their helpers (\<^verbatim>\<open>integration/utils\<close>): the servers for time and
  certificates, the network functions and the end of a test. The protocol and CA libraries are arguments.
\<close>

section \<open>The platforms\<close>

text \<open>
  After the start, a main program runs one shell after the other, of which the model runs \<open>n\<close>. An error of the start is logged, and on
  some platforms that ends the program.
\<close>

fun shells :: "('w, unit) io \<Rightarrow> nat \<Rightarrow> ('w, unit) io" where
  "shells sh 0 = ret ()"
| "shells sh (Suc n) = thn sh (shells sh n)"

definition uinit_main :: "bool \<Rightarrow> ('w, startError, 'a) eio \<Rightarrow> ('w, unit) io \<Rightarrow> nat \<Rightarrow> ('w, startError list) io" where
  "uinit_main fatalError startup sh n =
     bnd startup (\<lambda>r.
     case r of
       Inl er \<Rightarrow> if fatalError then raise (LogFatal ''Startup'') else thn (shells sh n) (ret [er])
     | Inr _ \<Rightarrow> thn (shells sh n) (ret []))"

definition quanta_main :: "('w, startError, 'a) eio \<Rightarrow> ('w, unit) io \<Rightarrow> nat \<Rightarrow> ('w, startError list) io" where
  "quanta_main = uinit_main False"

definition ast2500_main :: "('w, startError, 'a) eio \<Rightarrow> ('w, unit) io \<Rightarrow> nat \<Rightarrow> ('w, startError list) io" where
  "ast2500_main = uinit_main True"

definition a15_main :: "('w, startError, 'a) eio \<Rightarrow> ('w, unit) io \<Rightarrow> nat \<Rightarrow> ('w, startError list) io" where
  "a15_main = uinit_main True"

definition a72_main :: "('w, startError, 'a) eio \<Rightarrow> ('w, unit) io \<Rightarrow> nat \<Rightarrow> ('w, startError list) io" where
  "a72_main = uinit_main False"

text \<open>With a failed start two of the platforms offer a shell, and the other two end the first process of the system.\<close>

lemma failed_start:
  assumes "startup w = (Inr (Inl er), t)"
  shows "quanta_main startup sh n w = bnd (shells sh n) (\<lambda>_. ret [er]) t" "a72_main startup sh n w = bnd (shells sh n) (\<lambda>_. ret [er]) t"
    "\<exists>p. ast2500_main startup sh n w = (Inl p, t)" "\<exists>p. a15_main startup sh n w = (Inl p, t)"
  using assms
  by (simp_all add: quanta_main_def a72_main_def ast2500_main_def a15_main_def uinit_main_def bnd_def thn_def raise_def)

section \<open>Helpers of the tests\<close>

text \<open>What a test prints, and switching off; if that does not end the system, the program ends.\<close>

datatype testEvent = Printed string | PowerOff

definition FailTest :: "(testEvent list, unit) io" where
  "FailTest ev = (Inl (LogFatal ''Test failed''), ev @ [Printed ''TEST_FAIL'', PowerOff])"

definition PassTest :: "(testEvent list, unit) io" where
  "PassTest ev = (Inl (LogFatal ''Test passed''), ev @ [Printed ''TEST_OK'', PowerOff])"

definition test_main :: "(testEvent list, 'e, unit) eio \<Rightarrow> (testEvent list, unit) io" where
  "test_main uinit = bnd uinit (\<lambda>r. case r of Inl _ \<Rightarrow> FailTest | Inr _ \<Rightarrow> PassTest)"

definition AddIP :: "netEnv \<Rightarrow> string \<Rightarrow> string \<Rightarrow> (netState, netError, unit) eio" where
  "AddIP e cidr iface =
     (if \<not> linkExists e iface then fail (NoInterface iface)
      else if \<not> parseAddr e cidr then fail (ParseAddrError cidr)
      else if \<not> newHandle e then fail NewHandleError
      else if \<not> addrReplace e cidr iface then fail (AddrReplaceError cidr)
      else (\<lambda>s. (Inr (Inr ()), s\<lparr>addrs := (addrs s)(iface := List.insert cidr (addrs s iface))\<rparr>)))"

definition SetLinkUp :: "netEnv \<Rightarrow> string \<Rightarrow> (netState, netError, unit) eio" where
  "SetLinkUp e iface =
     (if \<not> linkExists e iface then fail (NoInterface iface)
      else if \<not> newHandle e then fail NewHandleError
      else if \<not> canSetUp e iface then fail LinkSetUpError
      else (\<lambda>s. (Inr (Inr ()), s\<lparr>linkUp := (linkUp s)(iface := True)\<rparr>)))"

text \<open>The helpers are the functions of the daemon.\<close>

lemma helpers_are_daemons: "AddIP e cidr iface = addIp e cidr iface" "SetLinkUp e iface = setLinkUp e iface"
  by (simp_all add: AddIP_def addIp_def SetLinkUp_def setLinkUp_def)

section \<open>The time server\<close>

record ('c, 'p) testRoughtime =
  rt_Config :: RoughtimeServer
  rt_cert :: 'c
  rt_pk :: 'p

text \<open>The keys are a public and a private part; \<open>createCertificate\<close> is for the whole range of times.\<close>

definition NewTestRoughtimeServer ::
  "(u8 list \<times> 'p) option \<Rightarrow> (u8 list \<times> 'p) option \<Rightarrow> (u8 list \<Rightarrow> 'p \<Rightarrow> 'c option) \<Rightarrow> panic + ('c, 'p) testRoughtime" where
  "NewTestRoughtimeServer rootKey onlineKey createCertificate =
     (case rootKey of
        None \<Rightarrow> Inl (LogFatal ''Failed to generate root key'')
      | Some (rootPublicKey, rootPrivateKey) \<Rightarrow>
     (case onlineKey of
        None \<Rightarrow> Inl (LogFatal ''Failed to generate online key'')
      | Some (onlinePublicKey, onlinePrivateKey) \<Rightarrow>
     (case createCertificate onlinePublicKey rootPrivateKey of
        None \<Rightarrow> Inl (LogFatal ''Failed to generate certificate'')
      | Some cert \<Rightarrow>
          Inr \<lparr>rt_Config = \<lparr>Protocol = ''udp6'', Address = ''[::1]:2002'', PublicKey = EncodeToString rootPublicKey,
                            PublicKeyType = KEY_TYPE_ED25519\<rparr>,
               rt_cert = cert, rt_pk = onlinePrivateKey\<rparr>)))"

text \<open>What the server uses of the protocol library.\<close>

record ('c, 'p, 't) roughProtocol =
  MinRequestSize :: nat
  NonceSize :: nat
  TagNonce :: u32
  decodePacket :: "u8 list \<Rightarrow> (u32 \<rightharpoonup> u8 list) option"
  CreateReplies :: "u8 list list \<Rightarrow> 't \<Rightarrow> u32 \<Rightarrow> 'c \<Rightarrow> 'p \<Rightarrow> u8 list list option"

text \<open>
  One round of \<^verbatim>\<open>Run\<close>: the buffer takes the first bytes of a packet; \<open>None\<close> is a failed read, which leaves nothing in it. The
  result is the reply, if there is one.
\<close>

definition roughtime_round ::
  "('c, 'p, 't) roughProtocol \<Rightarrow> ('c, 'p) testRoughtime \<Rightarrow> 't \<Rightarrow> u8 list option \<Rightarrow> u8 list option" where
  "roughtime_round rp s midpoint rcv =
     (let b = (case rcv of None \<Rightarrow> [] | Some p \<Rightarrow> take (MinRequestSize rp) p) in
      if length b < MinRequestSize rp then None
      else case decodePacket rp b of
             None \<Rightarrow> None
           | Some packet \<Rightarrow>
               (case packet (TagNonce rp) of
                  None \<Rightarrow> None
                | Some nonce \<Rightarrow>
                    if length nonce \<noteq> NonceSize rp then None
                    else case CreateReplies rp [nonce] midpoint 1000000 (rt_cert s) (rt_pk s) of
                           None \<Rightarrow> None
                         | Some replies \<Rightarrow> if length replies \<noteq> 1 then None else Some (replies ! 0)))"

definition roughtime_Run ::
  "('c, 'p, 't) roughProtocol \<Rightarrow> bool \<Rightarrow> ('c, 'p) testRoughtime \<Rightarrow> ('t \<times> u8 list option) list \<Rightarrow> panic + u8 list list" where
  "roughtime_Run rp canListen s rounds =
     (if \<not> canListen then Inl (LogFatal ''Failed to listen'')
      else Inr (List.map_filter (\<lambda>(t, p). roughtime_round rp s t p) rounds))"

text \<open>A well-formed request is answered, also if it is longer than the shortest one.\<close>

lemma roughtime_answers:
  assumes "MinRequestSize rp \<le> length p" "decodePacket rp (take (MinRequestSize rp) p) = Some f" "f (TagNonce rp) = Some nonce"
    and "length nonce = NonceSize rp" "CreateReplies rp [nonce] t 1000000 (rt_cert s) (rt_pk s) = Some [r]"
  shows "roughtime_round rp s t (Some p) = Some r"
  using assms by (simp add: roughtime_round_def Let_def)

section \<open>The certificate server\<close>

record 'k testCA =
  ca_APICA :: string
  ca_Directory :: string
  ca_cert :: "'k certificate"

text \<open>
  The certificate of the server: from the time of the start, which is in 1970, to the last second of 32 bits.
  \<open>createCertificate\<close> gets the serial number, the two times and the key.
\<close>

definition genCert :: "'k option \<Rightarrow> nat option \<Rightarrow> (nat \<Rightarrow> int \<Rightarrow> int \<Rightarrow> 'k \<Rightarrow> u8 list option) \<Rightarrow> int \<Rightarrow> panic + 'k certificate" where
  "genCert generated serial createCertificate now =
     (case generated of
        None \<Rightarrow> Inl (LogFatal ''failed to generate private key'')
      | Some priv \<Rightarrow>
     (case serial of
        None \<Rightarrow> Inl (LogFatal ''failed to generate serial number'')
      | Some sn \<Rightarrow>
     (case createCertificate sn now ((2 ^ 31 - 1) * 1000000000) priv of
        None \<Rightarrow> Inl (LogFatal ''x509.CreateCertificate'')
      | Some der \<Rightarrow> Inr \<lparr>Certificate = [der], PrivateKey = Some priv\<rparr>)))"

definition NewTestCA :: "(panic + 'k certificate) \<Rightarrow> (string \<Rightarrow> u8 list \<Rightarrow> string) \<Rightarrow> panic + 'k testCA" where
  "NewTestCA cert encodePem =
     (case cert of
        Inl p \<Rightarrow> Inl p
      | Inr c \<Rightarrow>
          if Certificate c = [] then Inl IndexPanic
          else Inr \<lparr>ca_APICA = encodePem ''CERTIFICATE'' (Certificate c ! 0), ca_Directory = ''https://[::1]:14000/dir'', ca_cert = c\<rparr>)"

lemma NewTestCA_genCert:
  "genCert g sn cc now = Inr c \<Longrightarrow> \<exists>ca. NewTestCA (Inr c) enc = Inr ca \<and> ca_cert ca = c"
  by (auto simp: genCert_def NewTestCA_def split: option.splits)

section \<open>The tests\<close>

text \<open>The configuration of the test of certificates: the default one with the servers of the test.\<close>

definition acmeTestConfig :: "Config \<Rightarrow> ('c, 'p) testRoughtime \<Rightarrow> 'k testCA \<Rightarrow> Config" where
  "acmeTestConfig c rt ca =
     c\<lparr>RoughtimeServers := [rt_Config rt], NtpServers := [],
       cfg_ACME := (cfg_ACME c)\<lparr>acme_APICA := ca_APICA ca, acme_Directory := ca_Directory ca, acme_TermsAgreed := True\<rparr>\<rparr>"

text \<open>
  The program waits for the result of the start and, if there is no error, for ever: \<open>asyncResult\<close> is what the goroutine sends.
\<close>

definition acme_uinit :: "(('h, 'k) world, startError, 'k started) eio \<Rightarrow> startError option \<Rightarrow> (('h, 'k) world, startError, unit) eio" where
  "acme_uinit startup asyncResult =
     ebnd startup (\<lambda>_. case asyncResult of Some er \<Rightarrow> fail er | None \<Rightarrow> raise NoReturn)"

definition noop_uinit :: "(('h, 'k) world, startError, 'k started) eio \<Rightarrow> startError option \<Rightarrow> (('h, 'k) world, startError, unit) eio" where
  "noop_uinit startup asyncResult =
     ebnd startup (\<lambda>_. case asyncResult of Some er \<Rightarrow> fail er | None \<Rightarrow> raise NoReturn)"

text \<open>
  The time server of the test is asked, because its key reads back: acquiring the time with the configuration of the test
  returns.
\<close>

lemma acmeTest_time:
  assumes "NewTestRoughtimeServer rk ok cc = Inr rt" "order [rt_Config rt] = [rt_Config rt]"
  shows "AcquireTimeFrom order rough ntp (RoughtimeServers (acmeTestConfig c rt ca)) (NtpServers (acmeTestConfig c rt ca)) =
    (case rough (rt_Config rt) of None \<Rightarrow> Inr (Inl NoRoughtimeServers) | Some r \<Rightarrow> Inr (Inr (Midpoint r)))"
proof -
  have "DecodeString (PublicKey (rt_Config rt)) \<noteq> None"
    using assms(1) by (auto simp: NewTestRoughtimeServer_def DecodeString_EncodeToString split: option.splits prod.splits)
  then show ?thesis
    by (simp add: AcquireTimeFrom_def acmeTestConfig_def askedServers_def assms(2) AcquireTime_def getOneRoughtime_cases Let_def
        split: option.split)
qed

text \<open>The test of a sensor: its file holds thousandths of degrees, which \<open>atoi\<close> reads.\<close>

datatype tempError = TempRead | TempParse | TempRange int int

definition verifyTemperature :: "(string \<Rightarrow> string option) \<Rightarrow> (string \<Rightarrow> int option) \<Rightarrow> (int \<rightharpoonup> string) \<Rightarrow> int \<Rightarrow> int \<Rightarrow> tempError option" where
  "verifyTemperature readText atoi thermometers i celcius =
     (case readText (case thermometers i of Some f \<Rightarrow> f | None \<Rightarrow> []) of
        None \<Rightarrow> Some TempRead
      | Some b \<Rightarrow>
     (case atoi b of
        None \<Rightarrow> Some TempParse
      | Some millitemp \<Rightarrow> if \<bar>millitemp - celcius * 1000\<bar> > 3000 then Some (TempRange celcius millitemp) else None))"

lemma verifyTemperature_ok:
  "verifyTemperature readText atoi th i c = None \<longleftrightarrow>
   (\<exists>b t. readText (case th i of Some f \<Rightarrow> f | None \<Rightarrow> []) = Some b \<and> atoi b = Some t \<and> c * 1000 - 3000 \<le> t \<and> t \<le> c * 1000 + 3000)"
  by (auto simp: verifyTemperature_def split: option.splits)

text \<open>The three temperatures of the test, each after the host was told to set it.\<close>

definition tempsensor_uinit ::
  "('w, startError, 'a) eio \<Rightarrow> (int \<Rightarrow> ('w, tempError option) io) \<Rightarrow> ('w, startError + tempError, unit) eio" where
  "tempsensor_uinit startup verify =
     (let check = (\<lambda>celcius. bnd (verify celcius) (\<lambda>r. case r of Some e \<Rightarrow> fail (Inr e) | None \<Rightarrow> succeed ())) in
      ethn (mapError Inl startup) (ethn (check 23) (ethn (check 100) (check 0))))"

text \<open>The boot test: a power button that is an output is reported for ever, everything else once before the board is switched off.\<close>

definition boot_main ::
  "('w, startError, 'a) eio \<Rightarrow> ('w, State) io \<Rightarrow> (State \<Rightarrow> panic + bool) \<Rightarrow> ('w, testEvent list) io" where
  "boot_main startup snapshot direction =
     bnd startup (\<lambda>r.
     case r of
       Inl _ \<Rightarrow> ret [Printed ''TEST_FAILED'', PowerOff]
     | Inr _ \<Rightarrow>
         bnd snapshot (\<lambda>s.
         case direction s of
           Inl p \<Rightarrow> raise p
         | Inr output \<Rightarrow>
             if \<not> output then ret [Printed ''TEST_FAILED: BMC_PWR_BTN_OUT_N not output'', PowerOff]
             else raise NoReturn))"

text \<open>The test of the metrics, on what the server answers: an error, or a status and a body unless it cannot be read.\<close>

datatype metricsTestError = HttpError | HttpStatus int | BodyError | NoVersionMetric

fun containsText :: "string \<Rightarrow> string \<Rightarrow> bool" where
  "containsText pat [] = (pat = [])"
| "containsText pat (c # cs) = (take (length pat) (c # cs) = pat \<or> containsText pat cs)"

definition testMetrics :: "metricsTestError + (int \<times> string option) \<Rightarrow> metricsTestError option" where
  "testMetrics resp =
     (case resp of
        Inl e \<Rightarrow> Some e
      | Inr (code, body) \<Rightarrow>
          if code \<noteq> 200 then Some (HttpStatus code)
          else case body of None \<Rightarrow> Some BodyError | Some b \<Rightarrow> if containsText ''ubmc_system_version'' b then None else Some NoVersionMetric)"

text \<open>
  The attempts for the two addresses, after each of the delays; the last entry of the list of delays is the end of the
  attempts.
\<close>

definition metricsDelays :: "int list" where
  "metricsDelays = [100, 500, 5000, 15000, - 1]"

fun metricsLoop :: "(int \<Rightarrow> metricsTestError option \<times> metricsTestError option) \<Rightarrow> int list \<Rightarrow> bool" where
  "metricsLoop attempt [] = True"
| "metricsLoop attempt (i # is) =
     (if i = -1 then False
      else case attempt i of (v4, v6) \<Rightarrow> if v4 \<noteq> None then metricsLoop attempt is
                                        else if v6 \<noteq> None then metricsLoop attempt is else True)"

lemma metricsLoop_attempt: "i \<noteq> -1 \<Longrightarrow> metricsLoop attempt (i # is) \<longleftrightarrow> attempt i = (None, None) \<or> metricsLoop attempt is"
  by (cases "attempt i") auto

text \<open>The test passes exactly if one of the four attempts finds the metrics at both addresses.\<close>

lemma metricsLoop_passes:
  "metricsLoop attempt metricsDelays \<longleftrightarrow> (\<exists>i \<in> {100, 500, 5000, 15000}. attempt i = (None, None))"
  by (simp add: metricsDelays_def metricsLoop_attempt del: metricsLoop.simps(2)) (simp add: metricsLoop.simps)

definition metrics_uinit ::
  "netEnv \<Rightarrow> (int \<Rightarrow> metricsTestError option \<times> metricsTestError option) \<Rightarrow> (netState, netError option, unit) eio" where
  "metrics_uinit e attempt =
     ethn (mapError Some (AddIP e ''10.0.2.1/24'' ''eth0''))
    (ethn (mapError Some (SetLinkUp e ''eth0''))
          (if metricsLoop attempt metricsDelays then succeed () else fail None))"

end
