(* ===== verification/Logger.thy ===== *)
theory Logger
  imports Go_Prelude
begin

text \<open>
  The loggers of all programs (\<^verbatim>\<open>pkg/logger/logger.go\<close>): two loggers that are made at their first use, each with a
  core for the console and a core for the log file. The encoders and cores of the logging library are data here; the
  model has the log file, with the position of each open handle, and shows what happens to it.
\<close>

section \<open>Cores\<close>

datatype timeEncoder = ISO8601TimeEncoder | EpochTimeEncoder
datatype levelEncoder = CapitalColorLevelEncoder | CapitalLevelEncoder
datatype encoderFormat = ConsoleEncoder | JSONEncoder

record encoder =
  enc_format :: encoderFormat
  EncodeTime :: timeEncoder
  EncodeLevel :: levelEncoder

datatype syncer = Stdout | LogFile nat
datatype level = DebugLevel | InfoLevel

datatype core = Core encoder syncer level | Tee "core list"

definition getConsoleEncoder :: encoder where
  "getConsoleEncoder =
     \<lparr>enc_format = ConsoleEncoder, EncodeTime = ISO8601TimeEncoder, EncodeLevel = CapitalColorLevelEncoder\<rparr>"

definition getJsonEncoder :: encoder where
  "getJsonEncoder =
     \<lparr>enc_format = ConsoleEncoder, EncodeTime = EpochTimeEncoder, EncodeLevel = CapitalLevelEncoder\<rparr>"

section \<open>The container\<close>

text \<open>
  The log file of the process: its contents, and the positions of the handles that are open. The two flags are those of
  \<^verbatim>\<open>sync.Once\<close>.
\<close>

record logState =
  logger :: "core option"
  simpleLogger :: "core option"
  loggerInit :: bool
  simpleLoggerInit :: bool
  logContents :: "u8 list option"
  logOffsets :: "nat list"

definition freshLog :: logState where
  "freshLog = \<lparr>logger = None, simpleLogger = None, loggerInit = False, simpleLoggerInit = False, logContents = None, logOffsets = []\<rparr>"

text \<open>\<^verbatim>\<open>getLogWriter\<close>: \<^verbatim>\<open>os.Create\<close> truncates the file and gives a new handle at its start.\<close>

definition getLogWriter :: "bool \<Rightarrow> (logState, syncer) io" where
  "getLogWriter canCreate s =
     (if \<not> canCreate then (Inl (LogFatal ''unable to create logfile''), s)
      else (Inr (LogFile (length (logOffsets s))), s\<lparr>logContents := Some [], logOffsets := logOffsets s @ [0]\<rparr>))"

definition getConsoleCore :: core where
  "getConsoleCore = Core getConsoleEncoder Stdout InfoLevel"

definition getJsonCore :: "bool \<Rightarrow> (logState, core) io" where
  "getJsonCore canCreate = bnd (getLogWriter canCreate) (\<lambda>ws. ret (Core getJsonEncoder ws InfoLevel))"

definition getCombinedCore :: "bool \<Rightarrow> (logState, core) io" where
  "getCombinedCore canCreate = bnd (getJsonCore canCreate) (\<lambda>j. ret (Tee [getConsoleCore, j]))"

definition GetLogger :: "bool \<Rightarrow> (logState, core option) io" where
  "GetLogger canCreate =
     bnd (\<lambda>s. if loggerInit s then (Inr (), s)
              else bnd (getCombinedCore canCreate) (\<lambda>c s. (Inr (), s\<lparr>logger := Some c, loggerInit := True\<rparr>)) s) (\<lambda>_ s.
     (Inr (logger s), s))"

definition GetSimpleLogger :: "bool \<Rightarrow> (logState, core option) io" where
  "GetSimpleLogger canCreate =
     bnd (\<lambda>s. if simpleLoggerInit s then (Inr (), s)
              else bnd (getCombinedCore canCreate) (\<lambda>c s. (Inr (), s\<lparr>simpleLogger := Some c, simpleLoggerInit := True\<rparr>)) s) (\<lambda>_ s.
     (Inr (simpleLogger s), s))"

text \<open>The fields of structured entries.\<close>

datatype field = StringField string string | IntField string int

definition log_String :: "string \<Rightarrow> string \<Rightarrow> field" where "log_String key val = StringField key val"
definition log_Int :: "string \<Rightarrow> int \<Rightarrow> field" where "log_Int key val = IntField key val"

section \<open>The log file\<close>

text \<open>
  Writing an entry with a handle: at its own position, which moves on; a gap before it is filled with zeros.
\<close>

definition writeAtOffset :: "nat \<Rightarrow> u8 list \<Rightarrow> u8 list \<Rightarrow> u8 list" where
  "writeAtOffset off b old = take off (old @ replicate (off - length old) 0) @ b @ drop (off + length b) old"

definition writeEntry :: "nat \<Rightarrow> u8 list \<Rightarrow> logState \<Rightarrow> logState" where
  "writeEntry h b s =
     (case logContents s of
        None \<Rightarrow> s
      | Some old \<Rightarrow>
          if h < length (logOffsets s)
          then s\<lparr>logContents := Some (writeAtOffset (logOffsets s ! h) b old),
                 logOffsets := (logOffsets s)[h := logOffsets s ! h + length b]\<rparr>
          else s)"

text \<open>The handles that a logger writes to; an entry goes to all of them.\<close>

fun coreHandles :: "core \<Rightarrow> nat list" where
  "coreHandles (Core e (LogFile h) l) = [h]"
| "coreHandles (Core e Stdout l) = []"
| "coreHandles (Tee cs) = concat (map coreHandles cs)"

definition logEntry :: "core option \<Rightarrow> u8 list \<Rightarrow> logState \<Rightarrow> logState" where
  "logEntry c b s = fold (\<lambda>h. writeEntry h b) (case c of None \<Rightarrow> [] | Some c \<Rightarrow> coreHandles c) s"

text \<open>A program that gets the simple logger for every entry, as the packages do.\<close>

fun logAll :: "bool \<Rightarrow> u8 list list \<Rightarrow> (logState, unit) io" where
  "logAll canCreate [] = ret ()"
| "logAll canCreate (b # bs) =
     bnd (GetSimpleLogger canCreate) (\<lambda>c. thn (\<lambda>s. (Inr (), logEntry c b s)) (logAll canCreate bs))"

text \<open>The state of a process that uses the simple logger only, with what it has logged.\<close>

definition simpleOnly :: "u8 list \<Rightarrow> logState \<Rightarrow> bool" where
  "simpleOnly b s \<longleftrightarrow> simpleLoggerInit s \<and> simpleLogger s = Some (Tee [getConsoleCore, Core getJsonEncoder (LogFile 0) InfoLevel]) \<and>
     logContents s = Some b \<and> logOffsets s = [length b]"

lemma GetSimpleLogger_first:
  "\<exists>t. GetSimpleLogger True freshLog = (Inr (simpleLogger t), t) \<and> simpleOnly [] t"
  by (simp add: GetSimpleLogger_def getCombinedCore_def getJsonCore_def getLogWriter_def freshLog_def simpleOnly_def bnd_def ret_def)

lemma GetSimpleLogger_again: "simpleOnly b s \<Longrightarrow> GetSimpleLogger ok s = (Inr (simpleLogger s), s)"
  by (simp add: GetSimpleLogger_def simpleOnly_def bnd_def)

lemma logEntry_simple: "simpleOnly b s \<Longrightarrow> simpleOnly (b @ c) (logEntry (simpleLogger s) c s)"
  by (simp add: simpleOnly_def logEntry_def getConsoleCore_def writeEntry_def writeAtOffset_def)

lemma logAll_simple: "simpleOnly b s \<Longrightarrow> \<exists>t. logAll ok bs s = (Inr (), t) \<and> simpleOnly (b @ concat bs) t"
proof (induction bs arbitrary: b s)
  case (Cons c cs)
  from Cons.IH [OF logEntry_simple [OF Cons.prems, of c]] show ?case
    by (simp add: bnd_def thn_def GetSimpleLogger_again [OF Cons.prems])
qed (simp add: ret_def)

text \<open>
  However often the simple logger is asked for, it is made once and the log file holds every entry, in
  order.
\<close>

theorem simple_log_complete:
  assumes "bs \<noteq> []"
  shows "\<exists>t. logAll True bs freshLog = (Inr (), t) \<and> logContents t = Some (concat bs)"
proof -
  obtain c cs where bs: "bs = c # cs" using assms by (cases bs) auto
  obtain s where s: "GetSimpleLogger True freshLog = (Inr (simpleLogger s), s)" "simpleOnly [] s"
    using GetSimpleLogger_first by blast
  from logAll_simple [OF logEntry_simple [OF s(2), of c], of True cs] obtain t where
    "logAll True cs (logEntry (simpleLogger s) c s) = (Inr (), t)" "simpleOnly (c @ concat cs) t" by auto
  with s show ?thesis by (auto simp: bs bnd_def thn_def simpleOnly_def)
qed

text \<open>
  The other logger has a handle of its own on the same file: making it empties the file, and an entry of the simple
  logger then follows as many zeros as it had written before.
\<close>

theorem second_logger_loses_log:
  assumes "simpleOnly b s" "\<not> loggerInit s"
  shows "\<exists>t. GetLogger True s = (Inr (logger t), t) \<and> logContents t = Some [] \<and>
    logContents (logEntry (simpleLogger t) c t) = Some (replicate (length b) 0 @ c)"
  using assms
  by (simp add: GetLogger_def getCombinedCore_def getJsonCore_def getLogWriter_def simpleOnly_def logEntry_def getConsoleCore_def
      writeEntry_def writeAtOffset_def bnd_def ret_def)

text \<open>The encoder that is called JSON is a console encoder too.\<close>

lemma json_encoder_format: "enc_format getJsonEncoder = enc_format getConsoleEncoder"
  by (simp add: getJsonEncoder_def getConsoleEncoder_def)

end
