(* ===== verification/Spec2Isabelle.thy ===== *)
theory Spec2Isabelle
  imports Host_Mem Lpc_Mem Pwm Flash_Chip Gpio_Table Gpiowatcher Rdnss Buttons Gpio_System Startup Renewal
    Loader Console Boot_Layout Fan Mtd Platform Network Ncsi I2c Remote Daemon
    Bmc_System Signer Rootfs Initramfs Acme_Ends Ioctl Default_Config Uinit Logger
begin

text \<open>
  u-bmc is the firmware of a baseboard management controller, written in Go. Three programs follow each other on the board and are
  controlled from outside. The boot loader (\<^verbatim>\<open>boot/loader\<close>) is the init program of a first kernel: it mounts the root file system, checks
  the signatures of the boot files and starts the second kernel. There \<^verbatim>\<open>uinit\<close> runs the daemon (\<^verbatim>\<open>pkg/bmc\<close>), which sets up the
  platform (\<^verbatim>\<open>platform/*\<close>), starts GPIO, fans, console, network, time, certificate and the gRPC servers, and ends in a shell. The client
  \<^verbatim>\<open>cmd/ubmcctl\<close> calls the servers. Below the daemon lies the library for the ASPEED chips (\<^verbatim>\<open>pkg/aspeed\<close>), which small commands use
  as well, from the BMC through \<^verbatim>\<open>/dev/mem\<close> or from the host through the LPC bus. The build tools (\<^verbatim>\<open>u-bmc.go\<close>, \<^verbatim>\<open>boot/signer\<close>,
  \<^verbatim>\<open>boot/cpio\<close>, \<^verbatim>\<open>platform/cmd\<close>) make the image. This development translates these programs into definitions, one theory per component, and proves
  what makes them correct. It also states where the code does not do what it means to; those theorems describe the code as it is.

  \<^bold>\<open>How programs are modelled.\<close> Theory Go_Prelude has the types (Go's integers as words of their width, or as numbers with the wrap-around
  written out), the panics and \<^verbatim>\<open>log.Fatal\<close> as values, programs as functions from a world to a panic or a result and a new world, and
  \<^verbatim>\<open>defer\<close>. Go_Error adds Go's errors as a sum and the \<open>safe\<close> calculus for invariants of programs that may fail anywhere. Go_Strconv has the
  decimal conversions. Goroutines that share state are inductive step relations: one rule per action of a goroutine, blocking as a missing rule,
  properties of all interleavings by rule induction. Go maps are ordered lists wherever the iteration order can matter, and the theorems hold for
  every order. Files, kernel calls, sockets and third-party libraries (netlink, OpenPGP, x509, HTTP, protocol buffers, gRPC) are parameters; what is asked of
  them are named hypotheses with a witness. Interfaces with several implementations are locales, interpreted on the model's own definitions:
  \<open>mem_contract\<close> and \<open>register_bus\<close> (the memory providers and the registers behind them), \<open>gpio_events\<close> (the event files of Linux and of the
  fake), \<open>line_names\<close> (the platforms) and \<open>ioctl_struct\<close> (the structures of the system calls).

  \<^bold>\<open>The hardware library\<close> (\<^verbatim>\<open>pkg/aspeed\<close>). Mem has the interface of \<^verbatim>\<open>mem.go\<close> as a record of programs, its contract and a bus of plain registers;
  Host_Mem is \<^verbatim>\<open>host_mem.go\<close>, Lpc_Mem is \<^verbatim>\<open>lpc_mem.go\<close> with the SuperIO protocol and its cache, shown to do exactly the bus accesses they
  stand for. Scu is \<^verbatim>\<open>scu.go\<close>, \<^verbatim>\<open>ast.go\<close> and \<^verbatim>\<open>wdt.go\<close>, Pwm is \<^verbatim>\<open>pwm.go\<close>. Flash is the driver of \<^verbatim>\<open>flash.go\<close>, bit by bit through the chip select
  registers, and Flash_Chip a chip with its latency behind them: what is written is read back, nothing else changes. Gpio_Reg is
  \<^verbatim>\<open>gpio_reg.go\<close> (names, snapshots, differences), Gpio_Table its table of functions. Gpiowatcher is \<^verbatim>\<open>pkg/gpiowatcher\<close> with its two logs and the playback, I2c
  is \<^verbatim>\<open>cmd/i2cwatcher\<close>. The root theory shows that the flash can be programmed through the LPC bus with the same effect as on the BMC.

  \<^bold>\<open>The daemon\<close> (\<^verbatim>\<open>pkg/bmc\<close>). Buttons (\<^verbatim>\<open>gpio.go\<close> and the handlers of the platform) and Console (\<^verbatim>\<open>uart.go\<close> and the console call of \<^verbatim>\<open>grpc.go\<close>) are
  step relations: pushes do not overlap and do not deadlock, console output is lost only to a full queue and then counted, input is not
  lost. Gpio_System has the monitors, the hogs, the requests to the kernel (\<^verbatim>\<open>gpio_linux.go\<close>) and the fake of the tests; Ioctl has the
  numbers of these requests and the structures as bytes, and shows that the kernel sees exactly the structures. Fan is \<^verbatim>\<open>fan.go\<close> with the
  calls \<^verbatim>\<open>GetFans\<close> and \<^verbatim>\<open>GetVersion\<close>, with single precision arithmetic spelled out. Platform has the platforms and two commands. Network is
  \<^verbatim>\<open>interface.go\<close>, Rdnss is \<^verbatim>\<open>rdnss.go\<close>, Ncsi is \<^verbatim>\<open>ncsi.go\<close>, Ttime is \<^verbatim>\<open>ttime\<close>. Remote has the gRPC servers and the client \<^verbatim>\<open>cmd/ubmcctl\<close>. Cert is
  \<^verbatim>\<open>cert/load.go\<close> and \<^verbatim>\<open>dns.go\<close> over the interface of an ACME client; Acme_Types, Jws and Acme are \<^verbatim>\<open>pkg/acme\<close>; Renewal puts them together, and Acme_Ends
  shows that a renewal ends. Default_Config is \<^verbatim>\<open>config\<close> with the keys of its time servers. Startup
  has the parts of \<^verbatim>\<open>system.go\<close> that wait for each other (time, certificate, remote calls) and the order of the start as a specification,
  Daemon the shell and the rest of the file. Bmc_System composes the components into \<^verbatim>\<open>StartupWithConfig\<close> over one world, shows that it implements
  that order, and that a server that can be reached from outside is encrypted, with trusted time and a fresh certificate. Uinit
  has the main programs of the platforms and those of the integration tests, Logger the loggers of \<^verbatim>\<open>pkg/logger\<close>.

  \<^bold>\<open>Build and boot.\<close> Loader is \<^verbatim>\<open>boot/loader\<close>: only a signed kernel is started. Signer is \<^verbatim>\<open>boot/signer\<close>: an image it has signed is started by the
  loader. Initramfs is \<^verbatim>\<open>boot/cpio\<close> and \<^verbatim>\<open>cmd/login\<close>, Rootfs is \<^verbatim>\<open>u-bmc.go\<close>, Boot_Layout has the two layout tools of \<^verbatim>\<open>platform/cmd\<close>, Mtd is
  \<^verbatim>\<open>pkg/mtd\<close> over a NOR device.

  \<^bold>\<open>Bounds and fuel.\<close> Loops that wait for hardware (the flash chip's busy bit, the fan measurement) take a number of rounds; the theorems give the
  number that is enough, the latency of the chip or of the counter, and running out is the panic \<open>NoReturn\<close>, never a result. The retries and
  waits of the ACME client last as long as the server wants and take fuel in the same way: the invariants and refinements hold for
  every amount, and with a bound on the answers that ask for another round, two more than that bound are enough and any more change nothing. The endless loops of the watchers and of the link fixer are run for any number of rounds. \<^verbatim>\<open>printMessage\<close> of the client recurses over the descriptors
  and takes a depth, enough if it is above the nesting of the messages. Everything else ends by its definition.

  \<^bold>\<open>Not modelled.\<close> The generated code of the protocol buffers, the texts of log messages, the drivers of the integration tests on the development host, and
  the C and assembly files of the kernel module. Metrics are modelled where a theorem is about them (version, console, certificate, monitors). Timing is
  modelled as durations that are waited for, not as real time; data races are out of scope, since the step relations take each action of a goroutine as
  atomic. Still open is a combined step relation of the console and the servers.
\<close>

section \<open>Properties that span components\<close>


text \<open>A program through the LPC provider and one through \<^verbatim>\<open>/dev/mem\<close> end alike and leave the same memory.\<close>

definition same_effect ::
  "('d \<Rightarrow> bytes sio) \<Rightarrow> 'd lpcState \<Rightarrow> hostWorld \<Rightarrow> ('d lpcState, 'a) io \<Rightarrow> (hostWorld, 'a) io \<Rightarrow> bool" where
  "same_effect view s w x y \<longleftrightarrow>
     fst (x s) = fst (y w) \<and> lpc_bus view (snd (x s)) = physMem (snd (y w))"

lemma same_effectI:
  assumes "sim (lpc_inv port view) (lpc_bus view) x z" "sim host_ok physMem y z"
    and "lpc_inv port view s" "host_ok w" "lpc_bus view s = physMem w"
  shows "same_effect view s w x y"
  using simD [OF assms(1,3)] simD [OF assms(2,4)] assms(5) by (simp add: same_effect_def)

text \<open>C19.
  The library does the same from the BMC and from the host CPU: with the same memory behind
  \<^verbatim>\<open>/dev/mem\<close> and behind the SuperIO, freezing and unfreezing the CPU, setting the SPI master, the
  reset control and a fan's duty cycle, and a snapshot of the GPIO registers end the same way
  through either provider and leave the same memory.
\<close>

theorem host_and_lpc_agree:
  fixes c :: bool
  assumes dev: "sio_device dev port view ram_ahb" and s: "lpc_inv port view s" and w: "host_ok w"
    and same: "lpc_bus view s = physMem w"
    and order: "mset datas = mset gpioDataRegs" "mset dirs = mset gpioDirRegs"
  defines "l \<equiv> OpenWithMemory (lpcMem c dev)" and "h \<equiv> OpenWithMemory hostMem"
  shows "same_effect view s w (FreezeCpu l) (FreezeCpu h) \<and>
     same_effect view s w (UnfreezeCpu l) (UnfreezeCpu h) \<and>
     same_effect view s w (SetSpiMaster l m) (SetSpiMaster h m) \<and>
     same_effect view s w (SetResetControl l v) (SetResetControl h v) \<and>
     same_effect view s w (SetFanDutyCycle l fan p) (SetFanDutyCycle h fan p) \<and>
     same_effect view s w (SnapshotGpio dirs datas l) (SnapshotGpio dirs datas h)"
proof -
  note lpc = lpc_mem_contract [OF dev, of c, folded ram_provider_def]
  note bmc = host.mem_contract_axioms
  note agree = same_effectI [OF _ _ s w same]
  show ?thesis
    unfolding l_def h_def
    by (intro conjI
        agree [OF mem_contract.sim_FreezeCpu [OF lpc] mem_contract.sim_FreezeCpu [OF bmc]]
        agree [OF mem_contract.sim_UnfreezeCpu [OF lpc] mem_contract.sim_UnfreezeCpu [OF bmc]]
        agree [OF mem_contract.sim_SetSpiMaster [OF lpc] mem_contract.sim_SetSpiMaster [OF bmc]]
        agree [OF mem_contract.sim_SetResetControl [OF lpc] mem_contract.sim_SetResetControl [OF bmc]]
        agree [OF mem_contract.sim_SetFanDutyCycle [OF lpc] mem_contract.sim_SetFanDutyCycle [OF bmc]]
        agree [OF mem_contract.sim_SnapshotGpio [OF lpc order] mem_contract.sim_SnapshotGpio [OF bmc order]])
qed

definition sample_sio :: "'b \<Rightarrow> 'b sio lpcState" where
  "sample_sio b =
     (\<lparr>lpc_off = 0x2e, lpc_f = replicate 9 0, wr_count = 0, rd_count = 0, cached_wr_count = 0\<rparr>,
      \<lparr>sio_key = 2, sio_idx = 0, sio_ldn = 0x0d, sio_reg = (\<lambda>i. if i = 0x30 then 1 else 0), sio_bus = b\<rparr>)"

lemma sample_sio_inv: "lpc_inv 0x2e (\<lambda>m. m) (sample_sio b)" "lpc_bus (\<lambda>m. m) (sample_sio b) = b"
  by (simp_all add: sample_sio_def lpc_inv_def sio_active_def sio_open_def lpc_bus_def list_eq_iff_nth_eq)

theorem host_and_lpc_agree_witness:
  "same_effect (\<lambda>m. m) (sample_sio (\<lambda>_. 0))
     \<lparr>pageSize = 4096, physMem = (\<lambda>_. 0), devMemOk = True, mmapOk = (\<lambda>_. True), munmapOk = (\<lambda>_. True)\<rparr>
     (FreezeCpu (OpenWithMemory (lpcMem True (sio_ports 0x2e ram_ahb)))) (FreezeCpu (OpenWithMemory hostMem))"
proof -
  let ?w = "\<lparr>pageSize = 4096, physMem = (\<lambda>_. 0), devMemOk = True, mmapOk = (\<lambda>_. True), munmapOk = (\<lambda>_. True)\<rparr>"
  have w: "host_ok ?w" by (auto simp: host_ok_def intro: exI [of _ 12])
  have "lpc_bus (\<lambda>m. m) (sample_sio (\<lambda>_. 0)) = physMem ?w" by (simp add: sample_sio_inv)
  from host_and_lpc_agree [OF sio_ports_device sample_sio_inv(1) w this refl refl] show ?thesis by blast
qed


end
